(* ===== verification/Prelude.thy ===== *)
theory Prelude
  imports Main "HOL-Library.Multiset" "HOL-Library.Sublist"
begin

section \<open>Shared vocabulary, hint collections and generic lemmas\<close>

text \<open>
  What every component uses: the type of a call that reads and changes a state and may
  return an error (a Go method with result \<open>(T, error)\<close>), the hint collections of the
  development, and generic facts on lists that the SQL pipelines and the key formats share.
\<close>

named_theorems port_simps
  "unfolding equations of the operations behind the application's interfaces"
named_theorems frame_simps
  "what an operation leaves unchanged"
named_theorems key_simps
  "shape of the Redis keys"

text \<open>
  A Go call \<open>v, err := f(...)\<close> on a state of type \<open>'w\<close>: the state afterwards and either
  the error (left) or the value (right).
\<close>

type_synonym ('w, 'e, 'a) call = "'w \<Rightarrow> 'w \<times> ('e + 'a)"

fun is_ok :: "'e + 'a \<Rightarrow> bool" where
  "is_ok (Inl _) = False"
| "is_ok (Inr _) = True"

lemma is_ok_iff: "is_ok r \<longleftrightarrow> (\<exists>v. r = Inr v)"
  by (cases r) auto

lemma not_is_ok_iff: "\<not> is_ok r \<longleftrightarrow> (\<exists>e. r = Inl e)"
  by (cases r) auto

subsection \<open>Lists cut at a separator\<close>

text \<open>
  Two texts built as \<open>field sep rest\<close> are equal only fieldwise when the separator does
  not occur in the fields. The Redis keys are such texts; the slug comes first and may
  hold the separator, so the rule for a separator-free suffix is needed too.
\<close>

lemma append_sep_eq_prefix:
  assumes "x \<notin> set a" and "x \<notin> set b"
  shows "a @ x # r = b @ x # s \<longleftrightarrow> a = b \<and> r = s"
  using assms
proof (induction a arbitrary: b)
  case Nil
  then show ?case by (cases b) auto
next
  case (Cons c a)
  then show ?case by (cases b) auto
qed

lemma append_sep_eq_suffix:
  assumes "x \<notin> set r" and "x \<notin> set s"
  shows "a @ x # r = b @ x # s \<longleftrightarrow> a = b \<and> r = s"
proof -
  have "a @ x # r = b @ x # s \<longleftrightarrow> rev r @ x # rev a = rev s @ x # rev b"
    by (metis append.assoc append_Cons append_Nil rev.simps(2) rev_append rev_rev_ident)
  also have "\<dots> \<longleftrightarrow> rev r = rev s \<and> rev a = rev b"
    by (rule append_sep_eq_prefix) (use assms in auto)
  finally show ?thesis by auto
qed

subsection \<open>Windows of a list: LIMIT and OFFSET\<close>

definition page :: "int \<Rightarrow> int \<Rightarrow> 'a list \<Rightarrow> 'a list" where
  "page lim off xs = take (nat lim) (drop (nat off) xs)"

lemma page_subseq: "set (page lim off xs) \<subseteq> set xs"
  unfolding page_def by (meson order_trans set_drop_subset set_take_subset)

lemma length_page: "length (page lim off xs) = min (nat lim) (length xs - nat off)"
  by (simp add: page_def)

lemma page_all: "0 \<le> lim \<Longrightarrow> length xs \<le> nat lim \<Longrightarrow> page lim 0 xs = xs"
  by (simp add: page_def)

lemma page_append:
  assumes "0 \<le> off" and "0 \<le> a" and "0 \<le> b"
  shows "page a off xs @ page b (off + a) xs = page (a + b) off xs"
proof -
  have "nat (off + a) = nat a + nat off" and "nat (a + b) = nat a + nat b"
    using assms by auto
  then show ?thesis
    unfolding page_def by (simp add: take_add drop_drop)
qed

lemma sorted_wrt_page: "sorted_wrt R xs \<Longrightarrow> sorted_wrt R (page lim off xs)"
  unfolding page_def by (intro sorted_wrt_take sorted_wrt_drop)

lemma distinct_page: "distinct xs \<Longrightarrow> distinct (page lim off xs)"
  by (simp add: page_def)

subsection \<open>Sums and counts over filtered lists\<close>

lemma sum_list_filter_split:
  "sum_list (map f xs) =
     sum_list (map f (filter P xs)) + sum_list (map f (filter (\<lambda>x. \<not> P x) xs))"
  for f :: "'a \<Rightarrow> 'b::comm_monoid_add"
  by (induction xs) (auto simp: ac_simps)

lemma filter_eq_key_concat:
  "length (filter (\<lambda>x. f x = k) xs) = count_list (map f xs) k"
  by (induction xs) auto

lemma sum_list_count_remdups:
  "(\<Sum>k \<leftarrow> remdups ks. int (count_list ks k)) = int (length ks)"
proof -
  have "(\<Sum>k \<leftarrow> remdups ks. count_list ks k) = (\<Sum>k \<in> set ks. count_list ks k)"
    by (simp add: sum_list_distinct_conv_sum_set)
  also have "\<dots> = length ks"
    by (rule sum_count_set) auto
  finally have "int (\<Sum>k \<leftarrow> remdups ks. count_list ks k) = int (length ks)"
    by simp
  then show ?thesis
    by (simp add: sum_list_distinct_conv_sum_set)
qed

end
