(* ===== verification/Go_Text.thy ===== *)
theory Go_Text
  imports Prelude
begin

section \<open>Strings and conversions of Go's standard library\<close>

text \<open>
  What the source uses of \<open>strings\<close> and \<open>strconv\<close>. A Go string is a sequence of bytes, so
  \<open>string\<close> (a list of 8-bit \<open>char\<close>s) is exact; a rune beyond ASCII is its UTF-8 bytes.
  Case conversion and folding are written out for ASCII and for the runes whose lower case
  or fold is an ASCII letter; every other rune is left as it is, which no comparison with
  an ASCII constant, the only use of the results, can tell apart from Go's full tables.
\<close>

subsection \<open>strings.TrimSpace\<close>

text \<open>The UTF-8 encodings of the runes with the Unicode property White Space.\<close>

definition space_runes :: "string list" where
  "space_runes =
     map (\<lambda>n. [char_of n]) [0x09, 0x0A, 0x0B, 0x0C, 0x0D, 0x20 :: nat]
     @ [[CHR 0xC2, CHR 0x85], [CHR 0xC2, CHR 0xA0], [CHR 0xE1, CHR 0x9A, CHR 0x80]]
     @ map (\<lambda>n. [CHR 0xE2, CHR 0x80, char_of n])
         [0x80, 0x81, 0x82, 0x83, 0x84, 0x85, 0x86, 0x87, 0x88, 0x89, 0x8A, 0xA8, 0xA9, 0xAF :: nat]
     @ [[CHR 0xE2, CHR 0x81, CHR 0x9F], [CHR 0xE3, CHR 0x80, CHR 0x80]]"

definition lead_space :: "string list \<Rightarrow> string \<Rightarrow> nat" where
  "lead_space rs s = (case find (\<lambda>r. prefix r s) rs of None \<Rightarrow> 0 | Some r \<Rightarrow> length r)"

function strip_lead :: "string list \<Rightarrow> string \<Rightarrow> string" where
  "strip_lead rs s =
     (let n = lead_space rs s in if n = 0 \<or> s = [] then s else strip_lead rs (drop n s))"
  by pat_completeness auto
termination
  by (relation "measure (\<lambda>(rs, s). length s)") auto

declare strip_lead.simps [simp del]

definition TrimSpace :: "string \<Rightarrow> string" where
  "TrimSpace s = rev (strip_lead (map rev space_runes) (rev (strip_lead space_runes s)))"

subsection \<open>Case conversion\<close>

definition is_upper :: "char \<Rightarrow> bool" where
  "is_upper c \<longleftrightarrow> (let n = (of_char c :: nat) in 65 \<le> n \<and> n \<le> 90)"

definition lower_char :: "char \<Rightarrow> char" where
  "lower_char c = (if is_upper c then char_of ((of_char c :: nat) + 32) else c)"

definition kelvin_sign :: string where "kelvin_sign = [CHR 0xE2, CHR 0x84, CHR 0xAA]"
definition dotted_I :: string where "dotted_I = [CHR 0xC4, CHR 0xB0]"
definition long_s :: string where "long_s = [CHR 0xC5, CHR 0xBF]"

function map_case :: "(string \<times> char) list \<Rightarrow> string \<Rightarrow> string" where
  "map_case tab [] = []"
| "map_case tab (c # s) =
     (case find (\<lambda>(p, _). p \<noteq> [] \<and> prefix p (c # s)) tab of
        Some (p, d) \<Rightarrow> d # map_case tab (drop (length p - 1) s)
      | None \<Rightarrow> lower_char c # map_case tab s)"
  by pat_completeness auto
termination
  by (relation "measure (\<lambda>(tab, s). length s)") auto

text \<open>\<open>strings.ToLower\<close>, and the folding behind \<open>strings.EqualFold\<close>.\<close>

definition ToLower :: "string \<Rightarrow> string" where
  "ToLower s = map_case [(kelvin_sign, CHR ''k''), (dotted_I, CHR ''i'')] s"

definition EqualFold :: "string \<Rightarrow> string \<Rightarrow> bool" where
  "EqualFold s t \<longleftrightarrow>
     (let tab = [(kelvin_sign, CHR ''k''), (long_s, CHR ''s'')]
      in map_case tab s = map_case tab t)"

definition HasPrefix :: "string \<Rightarrow> string \<Rightarrow> bool" where
  "HasPrefix s p \<longleftrightarrow> take (length p) s = p"

subsection \<open>Decimal numbers\<close>

definition digit_char :: "nat \<Rightarrow> char" where
  "digit_char d = char_of (48 + d)"

definition is_digit :: "char \<Rightarrow> bool" where
  "is_digit c \<longleftrightarrow> (let n = (of_char c :: nat) in 48 \<le> n \<and> n \<le> 57)"

definition digit_val :: "char \<Rightarrow> nat" where
  "digit_val c = of_char c - 48"

fun nat_dec :: "nat \<Rightarrow> string" where
  "nat_dec n = (if n < 10 then [digit_char n] else nat_dec (n div 10) @ [digit_char (n mod 10)])"

declare nat_dec.simps [simp del]

text \<open>The \<open>%d\<close> verb and \<open>strconv.Itoa\<close>.\<close>

definition int_dec :: "int \<Rightarrow> string" where
  "int_dec i = (if i < 0 then CHR ''-'' # nat_dec (nat (- i)) else nat_dec (nat i))"

definition digits_val :: "string \<Rightarrow> nat" where
  "digits_val s = foldl (\<lambda>a c. 10 * a + digit_val c) 0 s"

definition parse_digits :: "string \<Rightarrow> nat option" where
  "parse_digits s = (if s \<noteq> [] \<and> list_all is_digit s then Some (digits_val s) else None)"

definition min_int64 :: int where "min_int64 = - (2 ^ 63)"
definition max_int64 :: int where "max_int64 = 2 ^ 63 - 1"

text \<open>
  \<open>strconv.Atoi\<close> and \<open>strconv.ParseInt(s, 10, 64)\<close>: an optional sign, at least one decimal
  digit and nothing else; \<open>None\<close> for a syntax error and for a value outside 64 bits.
\<close>

definition signed_digits :: "string \<Rightarrow> int option" where
  "signed_digits s =
     (case s of
        [] \<Rightarrow> None
      | c # r \<Rightarrow>
          if c = CHR ''-'' then map_option (\<lambda>n. - int n) (parse_digits r)
          else if c = CHR ''+'' then map_option int (parse_digits r)
          else map_option int (parse_digits s))"

definition ParseInt64 :: "string \<Rightarrow> int option" where
  "ParseInt64 s =
     (case signed_digits s of
        None \<Rightarrow> None
      | Some i \<Rightarrow> if min_int64 \<le> i \<and> i \<le> max_int64 then Some i else None)"

definition Atoi :: "string \<Rightarrow> int option" where
  "Atoi s = ParseInt64 s"

text \<open>\<open>strconv.ParseBool\<close>.\<close>

definition ParseBool :: "string \<Rightarrow> bool option" where
  "ParseBool s =
     (if s \<in> set [''1'', ''t'', ''T'', ''true'', ''TRUE'', ''True''] then Some True
      else if s \<in> set [''0'', ''f'', ''F'', ''false'', ''FALSE'', ''False''] then Some False
      else None)"

text \<open>Zero padding to a width, as \<open>time.Format\<close> pads years, months and days.\<close>

definition zpad :: "nat \<Rightarrow> nat \<Rightarrow> string" where
  "zpad w n = replicate (w - length (nat_dec n)) (CHR ''0'') @ nat_dec n"

subsection \<open>Facts on digits\<close>

lemma of_char_digit_char: "d < 10 \<Longrightarrow> of_char (digit_char d) = 48 + d"
  by (simp add: digit_char_def)

lemma is_digit_digit_char [simp]: "d < 10 \<Longrightarrow> is_digit (digit_char d)"
  by (simp add: is_digit_def of_char_digit_char)

lemma digit_val_digit_char [simp]: "d < 10 \<Longrightarrow> digit_val (digit_char d) = d"
  by (simp add: digit_val_def of_char_digit_char)

lemma digit_char_digit_val [simp]: "is_digit c \<Longrightarrow> digit_char (digit_val c) = c"
  by (simp add: is_digit_def digit_val_def digit_char_def Let_def)

lemma digit_val_less [simp]: "is_digit c \<Longrightarrow> digit_val c < 10"
  unfolding is_digit_def digit_val_def Let_def by linarith

lemma digits_val_append [simp]: "digits_val (s @ [c]) = 10 * digits_val s + digit_val c"
  by (simp add: digits_val_def)

lemma digits_val_Nil [simp]: "digits_val [] = 0"
  by (simp add: digits_val_def)

lemma nat_dec_neq_Nil [simp]: "nat_dec n \<noteq> []"
  by (subst nat_dec.simps) simp

lemma nat_dec_digits: "list_all is_digit (nat_dec n)"
proof (induction n rule: nat_dec.induct)
  case (1 n)
  then show ?case by (subst nat_dec.simps) auto
qed

lemma digits_val_nat_dec [simp]: "digits_val (nat_dec n) = n"
proof (induction n rule: nat_dec.induct)
  case (1 n)
  show ?case
  proof (cases "n < 10")
    case True
    then show ?thesis by (subst nat_dec.simps) (simp add: digits_val_def)
  next
    case False
    with "1.IH" show ?thesis by (subst nat_dec.simps) simp
  qed
qed

lemma parse_digits_nat_dec [simp]: "parse_digits (nat_dec n) = Some n"
  by (simp add: parse_digits_def nat_dec_digits)

lemma nat_dec_inject [simp]: "nat_dec m = nat_dec n \<longleftrightarrow> m = n"
  by (metis digits_val_nat_dec)

lemma not_digit_in_nat_dec: "\<not> is_digit c \<Longrightarrow> c \<notin> set (nat_dec n)"
  using nat_dec_digits [of n] by (auto simp: list_all_iff)

lemma minus_not_in_nat_dec [simp]: "CHR ''-'' \<notin> set (nat_dec n)"
  and plus_not_in_nat_dec [simp]: "CHR ''+'' \<notin> set (nat_dec n)"
  and colon_not_in_nat_dec [simp]: "CHR '':'' \<notin> set (nat_dec n)"
  by (simp_all add: not_digit_in_nat_dec is_digit_def)

lemma nat_dec_not_Cons_minus [simp]: "nat_dec n \<noteq> CHR ''-'' # s"
  by (metis list.set_intros(1) minus_not_in_nat_dec)

lemma int_dec_inject [simp]: "int_dec i = int_dec j \<longleftrightarrow> i = j"
  by (auto simp: int_dec_def dest: sym)

lemma colon_not_in_int_dec [simp]: "CHR '':'' \<notin> set (int_dec i)"
  by (simp add: int_dec_def)

lemma signed_digits_int_dec: "signed_digits (int_dec i) = Some i"
proof (cases "i < 0")
  case True
  then show ?thesis by (simp add: signed_digits_def int_dec_def)
next
  case False
  then obtain c r where s: "nat_dec (nat i) = c # r" by (cases "nat_dec (nat i)") auto
  moreover have "c \<noteq> CHR ''-''" and "c \<noteq> CHR ''+''"
    using s minus_not_in_nat_dec [of "nat i"] plus_not_in_nat_dec [of "nat i"] by auto
  ultimately show ?thesis
    using False parse_digits_nat_dec [of "nat i"] by (simp add: signed_digits_def int_dec_def)
qed

lemma ParseInt64_int_dec:
  "min_int64 \<le> i \<Longrightarrow> i \<le> max_int64 \<Longrightarrow> ParseInt64 (int_dec i) = Some i"
  by (simp add: ParseInt64_def signed_digits_int_dec)

lemma ParseInt64_bounds: "ParseInt64 s = Some i \<Longrightarrow> min_int64 \<le> i \<and> i \<le> max_int64"
  by (auto simp: ParseInt64_def split: option.splits if_splits)

subsection \<open>Texts without surrounding space\<close>

text \<open>A text that starts and ends with a visible ASCII character has nothing to trim.\<close>

definition graphic :: "char \<Rightarrow> bool" where
  "graphic c \<longleftrightarrow> (let n = (of_char c :: nat) in 33 \<le> n \<and> n \<le> 126)"

lemma space_runes_not_graphic:
  "list_all (\<lambda>r. r \<noteq> [] \<and> \<not> graphic (hd r) \<and> \<not> graphic (last r)) space_runes"
  by code_simp

lemma lead_space_graphic:
  assumes "list_all (\<lambda>r. r \<noteq> [] \<and> \<not> graphic (hd r)) rs" and "s \<noteq> []" and "graphic (hd s)"
  shows "strip_lead rs s = s"
proof -
  have "\<not> prefix r s" if "r \<in> set rs" for r
    using assms that by (cases r; cases s) (auto simp: list_all_iff)
  then have "lead_space rs s = 0" by (auto simp: lead_space_def find_Some_iff split: option.split)
  then show ?thesis by (subst strip_lead.simps) simp
qed

lemma TrimSpace_graphic:
  assumes "s \<noteq> []" and "graphic (hd s)" and "graphic (last s)"
  shows "TrimSpace s = s"
proof -
  have "list_all (\<lambda>r. r \<noteq> [] \<and> \<not> graphic (hd r)) space_runes"
    and "list_all (\<lambda>r. r \<noteq> [] \<and> \<not> graphic (hd r)) (map rev space_runes)"
    using space_runes_not_graphic by (auto simp: list_all_iff hd_rev)
  with assms show ?thesis by (simp add: TrimSpace_def lead_space_graphic hd_rev)
qed

lemma TrimSpace_Nil [simp]: "TrimSpace '''' = ''''"
  by (simp add: TrimSpace_def strip_lead.simps)

lemma graphic_digit: "is_digit c \<Longrightarrow> graphic c"
  by (auto simp: is_digit_def graphic_def Let_def)

end
