(* ===== verification/Go_Calendar.thy ===== *)
theory Go_Calendar
  imports Go_Text
begin

section \<open>The calendar behind Go's package time\<close>

text \<open>
  The proleptic Gregorian calendar as \<open>time.absDate\<close> and \<open>time.daysSinceEpoch\<close> compute
  it, by the cycles of 400, 100, 4 and 1 years. Days are counted from 0001-01-01, Go's
  zero time, which is a Monday. Main results: \<open>date_of_day_valid\<close> and
  \<open>date_of_day_of_date\<close>, the two directions of the bijection between days and valid dates.
\<close>

subsection \<open>The proleptic Gregorian calendar\<close>

definition is_leap :: "int \<Rightarrow> bool" where
  "is_leap y \<longleftrightarrow> y mod 4 = 0 \<and> (y mod 100 \<noteq> 0 \<or> y mod 400 = 0)"

definition days_before_year :: "int \<Rightarrow> int" where
  "days_before_year y = (let p = y - 1 in 365 * p + p div 4 - p div 100 + p div 400)"

definition days_before_month :: "int \<Rightarrow> int \<Rightarrow> int" where
  "days_before_month y m =
     [0, 0, 31, 59, 90, 120, 151, 181, 212, 243, 273, 304, 334, 365] ! nat m
     + (if is_leap y \<and> 2 < m then 1 else 0)"

definition days_in :: "int \<Rightarrow> int \<Rightarrow> int" where
  "days_in y m = days_before_month y (m + 1) - days_before_month y m"

definition valid_date :: "int \<Rightarrow> int \<Rightarrow> int \<Rightarrow> bool" where
  "valid_date y m d \<longleftrightarrow> 1 \<le> m \<and> m \<le> 12 \<and> 1 \<le> d \<and> d \<le> days_in y m"

definition day_of_date :: "int \<Rightarrow> int \<Rightarrow> int \<Rightarrow> int" where
  "day_of_date y m d = days_before_year y + days_before_month y m + (d - 1)"

definition year_yday :: "int \<Rightarrow> int \<times> int" where
  "year_yday n =
     (let n400 = n div 146097; r400 = n mod 146097;
          c = r400 div 36524; n100 = c - c div 4; r100 = r400 - 36524 * n100;
          n4 = r100 div 1461; r4 = r100 - 1461 * n4;
          a = r4 div 365; n1 = a - a div 4
      in (400 * n400 + 100 * n100 + 4 * n4 + n1 + 1, r4 - 365 * n1))"

fun find_month :: "int \<Rightarrow> int \<Rightarrow> int list \<Rightarrow> int" where
  "find_month y yd [] = 12"
| "find_month y yd (m # ms) = (if yd < days_before_month y (m + 1) then m else find_month y yd ms)"

definition date_of_day :: "int \<Rightarrow> int \<times> int \<times> int" where
  "date_of_day n =
     (let (y, yd) = year_yday n; m = find_month y yd [1..11]
      in (y, m, yd - days_before_month y m + 1))"

subsection \<open>Correctness of the calendar\<close>

lemma year_cycle:
  fixes n400 n100 n4 n1 :: int
  assumes "0 \<le> n1" "n1 \<le> 3" "0 \<le> n4" "n4 \<le> 24" "0 \<le> n100" "n100 \<le> 3"
  defines "p \<equiv> 400 * n400 + 100 * n100 + 4 * n4 + n1"
  shows "p div 4 = 100 * n400 + 25 * n100 + n4"
    and "p div 100 = 4 * n400 + n100"
    and "p div 400 = n400"
  using assms unfolding p_def by linarith+

lemma leap_in_cycle:
  fixes n400 n100 n4 :: int
  assumes "0 \<le> n4" "n4 \<le> 24" and last: "n4 = 24 \<longrightarrow> n100 = 3"
  shows "is_leap (400 * n400 + 100 * n100 + 4 * n4 + 3 + 1)" (is "is_leap ?y")
proof -
  have "?y = 4 * (100 * n400 + 25 * n100 + n4 + 1)" by simp
  then have "?y mod 4 = 0" by (metis mod_mult_self1_is_0)
  moreover have "?y mod 100 \<noteq> 0 \<or> ?y mod 400 = 0"
  proof (cases "n4 = 24")
    case True
    with last have "?y = 400 * (n400 + 1)" by simp
    then show ?thesis by (metis mod_mult_self1_is_0)
  next
    case False
    have "?y = (4 * n4 + 4) + 100 * (4 * n400 + n100)" by simp
    then have "?y mod 100 = (4 * n4 + 4) mod 100" by (metis mod_mult_self2)
    with False assms show ?thesis by simp
  qed
  ultimately show ?thesis by (simp add: is_leap_def)
qed

text \<open>One level of the cycle: the quotient, lowered by one where it overshoots.\<close>

lemma cycle_level:
  fixes r k :: int
  assumes r: "0 \<le> r" "r \<le> 4 * k" and k: "0 < k"
  defines "c \<equiv> r div k"
  defines "q \<equiv> c - c div 4"
  shows "0 \<le> q" "q \<le> 3" "0 \<le> r - k * q" "r - k * q \<le> k" "q < 3 \<longrightarrow> r - k * q < k"
    "r < 4 * k \<longrightarrow> r - k * q < k"
proof -
  have d: "r = k * c + r mod k" and m: "0 \<le> r mod k" "r mod k < k"
    using k by (simp_all add: c_def)
  have "0 \<le> c" using r k by (simp add: c_def pos_imp_zdiv_nonneg_iff)
  moreover have "c \<le> 4"
  proof -
    have "c \<le> (4 * k) div k" unfolding c_def using r k by (intro zdiv_mono1) auto
    with k show ?thesis by simp
  qed
  ultimately have "c = 4 \<and> q = 3 \<or> c < 4 \<and> 0 \<le> c \<and> q = c"
    unfolding q_def by auto
  moreover have "c = 4 \<Longrightarrow> r = 4 * k"
  proof -
    assume "c = 4"
    with d have "r = 4 * k + r mod k" by simp
    with m r show "r = 4 * k" by linarith
  qed
  ultimately have *: "(q = 3 \<and> r = 4 * k) \<or> (0 \<le> q \<and> q \<le> 3 \<and> r - k * q = r mod k)"
    using d by auto
  then have "0 \<le> q \<and> q \<le> 3 \<and> 0 \<le> r - k * q \<and> r - k * q \<le> k \<and> (q < 3 \<longrightarrow> r - k * q < k) \<and>
    (r < 4 * k \<longrightarrow> r - k * q < k)"
  proof
    assume "q = 3 \<and> r = 4 * k"
    with k show ?thesis by simp
  next
    assume "0 \<le> q \<and> q \<le> 3 \<and> r - k * q = r mod k"
    with m show ?thesis by linarith
  qed
  then show "0 \<le> q" "q \<le> 3" "0 \<le> r - k * q" "r - k * q \<le> k" "q < 3 \<longrightarrow> r - k * q < k"
    "r < 4 * k \<longrightarrow> r - k * q < k"
    by blast+
qed

lemma year_yday_correct:
  assumes "year_yday n = (y, yd)"
  shows "days_before_year y + yd = n"
    and "0 \<le> yd"
    and "yd < (if is_leap y then 366 else 365)"
proof -
  define n400 where "n400 = n div 146097"
  define r400 where "r400 = n mod 146097"
  define n100 where "n100 = r400 div 36524 - r400 div 36524 div 4"
  define r100 where "r100 = r400 - 36524 * n100"
  define n4 where "n4 = r100 div 1461"
  define r4 where "r4 = r100 - 1461 * n4"
  define n1 where "n1 = r4 div 365 - r4 div 365 div 4"
  have y: "y = 400 * n400 + 100 * n100 + 4 * n4 + n1 + 1" and yd: "yd = r4 - 365 * n1"
    using assms unfolding year_yday_def Let_def n400_def r400_def n100_def r100_def
      n4_def r4_def n1_def by simp_all
  have n: "n = 146097 * n400 + r400" and r400: "0 \<le> r400" "r400 \<le> 4 * 36524"
    unfolding n400_def r400_def using pos_mod_bound [of 146097 n] by simp_all
  note l100 = cycle_level [OF r400, folded n100_def, folded r100_def, simplified]
  have n4: "0 \<le> n4" "n4 \<le> 24" using l100 unfolding n4_def by linarith+
  have r4: "0 \<le> r4" "r4 \<le> 4 * 365" "n4 = 24 \<and> n100 < 3 \<longrightarrow> r4 < 4 * 365"
    using l100 unfolding r4_def n4_def by linarith+
  note l4 = cycle_level [OF r4(1,2), folded n1_def, folded yd, simplified]
  show "days_before_year y + yd = n"
    unfolding days_before_year_def Let_def y
    using year_cycle [OF l4(1,2) n4 l100(1,2), of n400] n by (simp add: r100_def r4_def yd)
  show "0 \<le> yd" by (rule l4)
  show "yd < (if is_leap y then 366 else 365)"
  proof (cases "yd = 365")
    case True
    with l4 r4(3) l100(2) have "n1 = 3" "n4 = 24 \<longrightarrow> n100 = 3" by auto
    then have "is_leap y" unfolding y by (simp only: leap_in_cycle [OF n4])
    with True show ?thesis by simp
  next
    case False
    with l4 show ?thesis by simp
  qed
qed

lemma div_pred:
  fixes y n :: int
  assumes "0 < n"
  shows "y div n = (y - 1) div n + (if y mod n = 0 then 1 else 0)"
proof -
  define q where "q = y div n"
  define r where "r = y mod n"
  have y: "y = n * q + r" and r: "0 \<le> r" "r < n"
    using assms by (simp_all add: q_def r_def)
  have "(y - 1) div n = (if r = 0 then q - 1 else q)"
  proof (cases "r = 0")
    case True
    have "y - 1 = n * (q - 1) + (n - 1)" using y True by (simp add: algebra_simps)
    then have "(y - 1) div n = q - 1" by (rule int_div_pos_eq) (use assms in auto)
    with True show ?thesis by simp
  next
    case False
    have "y - 1 = n * q + (r - 1)" using y by simp
    then have "(y - 1) div n = q" by (rule int_div_pos_eq) (use r False in auto)
    with False show ?thesis by simp
  qed
  then show ?thesis by (simp add: q_def r_def)
qed

lemma leap_dvd: "is_leap y \<longleftrightarrow> 4 dvd y \<and> (\<not> 100 dvd y \<or> 400 dvd y)"
  by (simp add: is_leap_def dvd_eq_mod_eq_0)

lemma year_step_arith:
  fixes y A A' a B B' b C C' c :: int
  assumes "A = A' + a" "B = B' + b" "C = C' + c"
  shows "365 * y + A - B + C = 365 * (y - 1) + A' - B' + C' + (365 + a - b + c)"
  using assms by simp

lemma leap_correction:
  assumes "P400 \<longrightarrow> P100" and "P100 \<longrightarrow> P4"
  shows "365 + (if P4 then 1 else 0) - (if P100 then 1 else 0) + (if P400 then 1 else 0) =
    (if P4 \<and> (\<not> P100 \<or> P400) then 366 else (365::int))"
  using assms by (cases P4; cases P100; cases P400; simp)

lemma days_before_year_Suc:
  "days_before_year (y + 1) = days_before_year y + (if is_leap y then 366 else 365)"
proof -
  define e where "e n = (if n dvd y then 1 else 0 :: int)" for n :: int
  have d: "y div n = (y - 1) div n + e n" if "0 < n" for n :: int
    unfolding e_def dvd_eq_mod_eq_0 by (rule div_pred [OF that])
  have dv: "100 dvd y" if "400 dvd y" by (rule dvd_trans [OF _ that]) simp
  have dv': "4 dvd y" if "100 dvd y" by (rule dvd_trans [OF _ that]) simp
  have "days_before_year (y + 1) = 365 * y + y div 4 - y div 100 + y div 400"
    by (simp add: days_before_year_def)
  also have "\<dots> = 365 * (y - 1) + (y - 1) div 4 - (y - 1) div 100 + (y - 1) div 400
      + (365 + e 4 - e 100 + e 400)"
    by (rule year_step_arith; rule d; simp)
  also have "365 + e 4 - e 100 + e 400 = (if is_leap y then 366 else 365)"
    unfolding leap_dvd e_def by (rule leap_correction) (use dv dv' in blast)+
  finally show ?thesis by (simp add: days_before_year_def Let_def)
qed

lemma days_before_year_mono: "y \<le> z \<Longrightarrow> days_before_year y \<le> days_before_year z"
proof (induction "nat (z - y)" arbitrary: z)
  case 0
  then show ?case by simp
next
  case (Suc k)
  then have "days_before_year y \<le> days_before_year (z - 1)" by simp
  also have "\<dots> \<le> days_before_year (z - 1 + 1)" by (simp only: days_before_year_Suc) simp
  finally show ?case by simp
qed

lemma year_unique:
  assumes "days_before_year y \<le> n" "n < days_before_year (y + 1)"
    and "days_before_year z \<le> n" "n < days_before_year (z + 1)"
  shows "y = z"
proof (rule ccontr)
  assume "y \<noteq> z"
  then consider "y + 1 \<le> z" | "z + 1 \<le> y" by linarith
  then show False
    by cases (use assms days_before_year_mono [of "y + 1" z] days_before_year_mono [of "z + 1" y] in linarith)+
qed

lemma month_cases:
  assumes "1 \<le> (m::int)" "m \<le> 12"
  obtains "m = 1" | "m = 2" | "m = 3" | "m = 4" | "m = 5" | "m = 6" | "m = 7" | "m = 8" | "m = 9"
    | "m = 10" | "m = 11" | "m = 12"
proof -
  from assms have "m \<in> set [1..12]" by simp
  also have "[1..12::int] = [1, 2, 3, 4, 5, 6, 7, 8, 9, 10, 11, 12]" by code_simp
  finally show ?thesis using that by auto
qed

lemma days_before_month_ends [simp]:
  "days_before_month y 1 = 0" "days_before_month y 13 = (if is_leap y then 366 else 365)"
  by (simp_all add: days_before_month_def)

lemma days_in_range:
  assumes "1 \<le> m" "m \<le> 12"
  shows "28 \<le> days_in y m" "days_in y m \<le> 31"
  using assms by (rule month_cases; simp add: days_in_def days_before_month_def)+

lemma days_before_month_step:
  assumes "1 \<le> m" "m \<le> 12"
  shows "days_before_month y m < days_before_month y (m + 1)"
  using days_in_range [OF assms, of y] by (simp add: days_in_def)

lemma days_before_month_mono:
  "1 \<le> m \<Longrightarrow> m \<le> k \<Longrightarrow> k \<le> 13 \<Longrightarrow> days_before_month y m \<le> days_before_month y k"
proof (induction "nat (k - m)" arbitrary: k)
  case 0
  then show ?case by simp
next
  case (Suc j)
  then have "m + 1 \<le> k" by linarith
  with Suc have "days_before_month y m \<le> days_before_month y (k - 1)" by simp
  also have "\<dots> \<le> days_before_month y (k - 1 + 1)"
    using \<open>m + 1 \<le> k\<close> Suc.prems days_before_month_step [of "k - 1" y] by simp
  finally show ?case by simp
qed

lemma find_month_from:
  assumes "1 \<le> k" "k \<le> 12" "days_before_month y k \<le> yd" "yd < days_before_month y 13"
  defines "m \<equiv> find_month y yd [k..11]"
  shows "k \<le> m \<and> m \<le> 12 \<and> days_before_month y m \<le> yd \<and> yd < days_before_month y (m + 1)"
  using assms(1-4) unfolding m_def
proof (induction "nat (12 - k)" arbitrary: k)
  case 0
  then have "k = 12" by simp
  with 0 show ?case by simp
next
  case (Suc j)
  then have k: "k \<le> 11" by simp
  have j: "j = nat (12 - (k + 1))" using Suc.hyps(2) by simp
  have IH: "\<not> yd < days_before_month y (k + 1) \<Longrightarrow> ?case"
    using Suc.hyps(1) [OF j] Suc.prems k by (auto simp: upto.simps [of k])
  show ?case
    by (cases "yd < days_before_month y (k + 1)")
       (use k Suc.prems IH in \<open>simp_all add: upto.simps [of k]\<close>)
qed

lemma month_unique:
  assumes "1 \<le> m" "m \<le> 12" "days_before_month y m \<le> yd" "yd < days_before_month y (m + 1)"
    and "1 \<le> k" "k \<le> 12" "days_before_month y k \<le> yd" "yd < days_before_month y (k + 1)"
  shows "k = m"
proof (rule ccontr)
  assume "k \<noteq> m"
  then consider "k + 1 \<le> m" | "m + 1 \<le> k" by linarith
  then show False
    by cases (use assms days_before_month_mono [of "k + 1" m y]
        days_before_month_mono [of "m + 1" k y] in linarith)+
qed

lemma date_of_day_valid:
  assumes "date_of_day n = (y, m, d)"
  shows "valid_date y m d" and "day_of_date y m d = n"
proof -
  obtain y' yd where yy: "year_yday n = (y', yd)" by fastforce
  with assms have [simp]: "y' = y" and m: "m = find_month y yd [1..11]"
    and d: "d = yd - days_before_month y m + 1"
    by (auto simp: date_of_day_def Let_def)
  note yc = year_yday_correct [OF yy, simplified]
  have mc: "1 \<le> m \<and> m \<le> 12 \<and> days_before_month y m \<le> yd \<and> yd < days_before_month y (m + 1)"
    unfolding m by (rule find_month_from) (use yc in simp_all)
  then show "valid_date y m d" by (simp add: valid_date_def days_in_def d)
  show "day_of_date y m d = n" using yc(1) by (simp add: day_of_date_def d)
qed

lemma date_of_day_of_date:
  assumes "valid_date y m d"
  shows "date_of_day (day_of_date y m d) = (y, m, d)"
proof -
  define yd where "yd = days_before_month y m + (d - 1)"
  have m: "1 \<le> m" "m \<le> 12" and yd_m: "days_before_month y m \<le> yd" "yd < days_before_month y (m + 1)"
    using assms by (auto simp: valid_date_def days_in_def yd_def)
  have yd: "0 \<le> yd" "yd < days_before_month y 13"
    using days_before_month_mono [of 1 m y] days_before_month_mono [of "m + 1" 13 y] m yd_m
    by simp_all
  have n: "day_of_date y m d = days_before_year y + yd" by (simp add: day_of_date_def yd_def)
  obtain z zd where zz: "year_yday (day_of_date y m d) = (z, zd)" by fastforce
  note zc = year_yday_correct [OF zz]
  have "y = z"
    by (rule year_unique [of _ "day_of_date y m d"])
       (use zc yd in \<open>auto simp: n days_before_year_Suc split: if_splits\<close>)
  with zc(1) n have "zd = yd" by simp
  have "find_month y yd [1..11] = m"
    using find_month_from [of 1 y yd] yd month_unique [OF m yd_m] by simp
  with zz \<open>y = z\<close> \<open>zd = yd\<close> show ?thesis by (simp add: date_of_day_def yd_def)
qed

lemma day_of_date_inject:
  assumes "valid_date y m d" and "valid_date y' m' d'"
  shows "day_of_date y m d = day_of_date y' m' d' \<longleftrightarrow> (y, m, d) = (y', m', d')"
proof
  assume "day_of_date y m d = day_of_date y' m' d'"
  then have "date_of_day (day_of_date y m d) = date_of_day (day_of_date y' m' d')"
    by (rule arg_cong)
  then show "(y, m, d) = (y', m', d')"
    by (simp only: date_of_day_of_date [OF assms(1)] date_of_day_of_date [OF assms(2)])
qed simp

lemma valid_date_bounds:
  assumes "valid_date y m d"
  shows "1 \<le> m" "m \<le> 12" "1 \<le> d" "d \<le> 31"
  using assms days_in_range [of m y] by (auto simp: valid_date_def)

end
