(* ===== verification/Go_Time.thy ===== *)
theory Go_Time
  imports Go_Calendar
begin

section \<open>Instants, durations, date formats and contexts\<close>

text \<open>
  What the source uses of the packages \<open>time\<close> and \<open>context\<close>. A \<open>time.Time\<close> is its
  absolute instant (every location in the source is UTC): nanoseconds since
  0001-01-01T00:00:00Z. A \<open>time.Duration\<close> is its nanoseconds.
\<close>

type_synonym gotime = int
type_synonym duration = int

definition ns_Second :: duration where "ns_Second = 1000000000"
definition ns_Minute :: duration where "ns_Minute = 60 * ns_Second"
definition ns_Hour :: duration where "ns_Hour = 60 * ns_Minute"
definition ns_Day :: duration where "ns_Day = 24 * ns_Hour"

lemma ns_Day_eq: "ns_Day = 86400000000000"
  by (simp add: ns_Day_def ns_Hour_def ns_Minute_def ns_Second_def)

lemma ns_Day_pos [simp]: "0 < ns_Day" "ns_Day \<noteq> 0" "0 \<le> ns_Day"
  by (simp_all add: ns_Day_eq)

subsection \<open>Days of an instant\<close>

definition day_of :: "gotime \<Rightarrow> int" where
  "day_of t = t div ns_Day"

definition midnight :: "int \<Rightarrow> gotime" where
  "midnight n = n * ns_Day"

definition start_of_day :: "gotime \<Rightarrow> gotime" where
  "start_of_day t = midnight (day_of t)"

text \<open>\<open>t.AddDate(0, 0, n)\<close> for a time in UTC, where every day has 24 hours.\<close>

definition AddDays :: "gotime \<Rightarrow> int \<Rightarrow> gotime" where
  "AddDays t n = t + n * ns_Day"

definition is_midnight :: "gotime \<Rightarrow> bool" where
  "is_midnight t \<longleftrightarrow> t mod ns_Day = 0"

lemma day_of_midnight [simp]: "day_of (midnight n) = n"
  by (simp add: day_of_def midnight_def)

lemma day_of_midnight_add [simp]: "0 \<le> r \<Longrightarrow> r < ns_Day \<Longrightarrow> day_of (midnight n + r) = n"
  by (simp add: day_of_def midnight_def)

lemma start_of_day_le: "start_of_day t \<le> t" and start_of_day_gt: "t < start_of_day t + ns_Day"
proof -
  have "t = start_of_day t + t mod ns_Day"
    by (simp add: start_of_day_def midnight_def day_of_def)
  moreover have "0 \<le> t mod ns_Day" "t mod ns_Day < ns_Day" by simp_all
  ultimately show "start_of_day t \<le> t" "t < start_of_day t + ns_Day" by linarith+
qed

lemma midnight_mono: "midnight m \<le> midnight n \<longleftrightarrow> m \<le> n"
  and midnight_less: "midnight m < midnight n \<longleftrightarrow> m < n"
  and midnight_eq: "midnight m = midnight n \<longleftrightarrow> m = n"
  by (simp_all add: midnight_def)

lemma midnight_add: "midnight (m + n) = midnight m + n * ns_Day"
  by (simp add: midnight_def algebra_simps)

lemma is_midnight_midnight [simp]: "is_midnight (midnight n)"
  by (simp add: is_midnight_def midnight_def)

lemma is_midnight_iff: "is_midnight t \<longleftrightarrow> t = midnight (day_of t)"
  unfolding is_midnight_def midnight_def day_of_def by (metis div_mult_mod_eq add_cancel_left_right)

lemma start_of_day_midnight [simp]: "start_of_day (midnight n) = midnight n"
  by (simp add: start_of_day_def)

lemma AddDays_midnight [simp]: "AddDays (midnight n) k = midnight (n + k)"
  by (simp add: AddDays_def midnight_def algebra_simps)

lemma day_of_mono: "s \<le> t \<Longrightarrow> day_of s \<le> day_of t"
  by (simp add: day_of_def zdiv_mono1)

lemma day_of_less_iff: "day_of t < n \<longleftrightarrow> t < midnight n"
  using start_of_day_le [of t] start_of_day_gt [of t] midnight_mono [of n "day_of t"]
    midnight_mono [of "day_of t + 1" n]
  by (auto simp: start_of_day_def midnight_add)

lemma le_day_of_iff: "n \<le> day_of t \<longleftrightarrow> midnight n \<le> t"
  using day_of_less_iff [of t n] by linarith

subsection \<open>Differences\<close>

definition maxDuration :: duration where "maxDuration = 2 ^ 63 - 1"
definition minDuration :: duration where "minDuration = - (2 ^ 63)"

text \<open>\<open>t.Sub(u)\<close> saturates at the bounds of a 64-bit duration (about 292 years).\<close>

definition Sub :: "gotime \<Rightarrow> gotime \<Rightarrow> duration" where
  "Sub t u =
     (let d = t - u in if maxDuration < d then maxDuration else if d < minDuration then minDuration else d)"

text \<open>
  \<open>int(to.Sub(from).Hours()/24) + 1\<close> for \<open>from\<close> not after \<open>to\<close>: the conversion truncates.
  The quotient is exact here; the float64 quotient of the source is the same for the whole
  numbers of days that the HTTP layer produces.
\<close>

definition range_days :: "gotime \<Rightarrow> gotime \<Rightarrow> int" where
  "range_days from to = Sub to from div ns_Day + 1"

lemma range_days_midnight:
  assumes "a \<le> b" and "b - a \<le> 106751"
  shows "range_days (midnight a) (midnight b) = b - a + 1"
proof -
  have "midnight b - midnight a = (b - a) * ns_Day" by (simp add: midnight_def algebra_simps)
  moreover have "0 \<le> (b - a) * ns_Day" using assms by simp
  moreover have "(b - a) * ns_Day \<le> 106751 * ns_Day" using assms by (intro mult_right_mono) auto
  ultimately show ?thesis
    by (simp add: range_days_def Sub_def Let_def maxDuration_def minDuration_def ns_Day_eq)
qed

lemma range_days_saturates:
  assumes "106751 < b - a"
  shows "range_days (midnight a) (midnight b) = 106752"
proof -
  have "midnight b - midnight a = (b - a) * ns_Day" by (simp add: midnight_def algebra_simps)
  moreover have "106752 * ns_Day \<le> (b - a) * ns_Day" using assms by (intro mult_right_mono) auto
  ultimately show ?thesis
    by (simp add: range_days_def Sub_def Let_def maxDuration_def minDuration_def ns_Day_eq)
qed

subsection \<open>Date formats\<close>

definition fmt_year :: "int \<Rightarrow> string" where
  "fmt_year y = (if y < 0 then CHR ''-'' # zpad 4 (nat (- y)) else zpad 4 (nat y))"

text \<open>\<open>t.Format("2006-01-02")\<close> and \<open>t.Format("20060102")\<close>.\<close>

definition FormatDate :: "gotime \<Rightarrow> string" where
  "FormatDate t =
     (case date_of_day (day_of t) of
        (y, m, d) \<Rightarrow> fmt_year y @ ''-'' @ zpad 2 (nat m) @ ''-'' @ zpad 2 (nat d))"

definition FormatCompact :: "gotime \<Rightarrow> string" where
  "FormatCompact t =
     (case date_of_day (day_of t) of
        (y, m, d) \<Rightarrow> fmt_year y @ zpad 2 (nat m) @ zpad 2 (nat d))"

text \<open>
  \<open>time.Parse("2006-01-02", s)\<close>: a four-digit year, a two-digit month and a two-digit day
  with the separators in place and nothing after them, in range for the month and year.
\<close>

definition ParseDate :: "string \<Rightarrow> gotime option" where
  "ParseDate s =
     (case s of
        [y1, y2, y3, y4, s1, m1, m2, s2, d1, d2] \<Rightarrow>
          (case (parse_digits [y1, y2, y3, y4], parse_digits [m1, m2], parse_digits [d1, d2]) of
             (Some y, Some m, Some d) \<Rightarrow>
               if s1 = CHR ''-'' \<and> s2 = CHR ''-'' \<and> valid_date (int y) (int m) (int d)
               then Some (midnight (day_of_date (int y) (int m) (int d)))
               else None
           | _ \<Rightarrow> None)
      | _ \<Rightarrow> None)"

lemma ParseDate_midnight: "ParseDate s = Some t \<Longrightarrow> is_midnight t"
  by (auto simp: ParseDate_def split: list.splits option.splits if_splits)

subsection \<open>Zero padding\<close>

lemma foldl_digits_zeros:
  "foldl (\<lambda>a c. 10 * a + digit_val c) 0 (replicate k (CHR ''0'') @ s) =
   foldl (\<lambda>a c. 10 * a + digit_val c) 0 s"
proof -
  have "digit_val (CHR ''0'') = 0" by (simp add: digit_val_def)
  then show ?thesis by (induction k) simp_all
qed

lemma digits_val_zpad [simp]: "digits_val (zpad w n) = n"
  using foldl_digits_zeros [of "w - length (nat_dec n)" "nat_dec n"] digits_val_nat_dec [of n]
  by (simp add: zpad_def digits_val_def)

lemma zpad_digits: "list_all is_digit (zpad w n)"
proof -
  have "is_digit (CHR ''0'')" by (simp add: is_digit_def)
  then show ?thesis using nat_dec_digits [of n] by (auto simp: zpad_def list_all_iff)
qed

lemma parse_digits_zpad [simp]: "parse_digits (zpad w n) = Some n"
  by (simp add: parse_digits_def zpad_digits) (simp add: zpad_def)

lemma zpad_inject [simp]: "zpad w m = zpad w n \<longleftrightarrow> m = n"
  by (metis digits_val_zpad)

lemma length_nat_dec: "0 < k \<Longrightarrow> n < 10 ^ k \<Longrightarrow> length (nat_dec n) \<le> k"
proof (induction n arbitrary: k rule: nat_dec.induct)
  case (1 n)
  show ?case
  proof (cases "n < 10")
    case True
    with 1 show ?thesis by (subst nat_dec.simps) simp
  next
    case False
    with 1 obtain j where k: "k = Suc j" "0 < j" by (cases k; cases "k - 1") auto
    with 1 have "n div 10 < 10 ^ j" by auto
    with "1.IH" [OF False k(2)] False k show ?thesis by (subst nat_dec.simps) simp
  qed
qed

lemma length_zpad: "0 < w \<Longrightarrow> n < 10 ^ w \<Longrightarrow> length (zpad w n) = w"
  using length_nat_dec [of w n] by (simp add: zpad_def)

lemma not_digit_in_zpad: "\<not> is_digit c \<Longrightarrow> c \<notin> set (zpad w n)"
  using zpad_digits [of w n] by (auto simp: list_all_iff)

lemma zpad_not_Cons_minus [simp]: "zpad w n \<noteq> CHR ''-'' # s"
  using not_digit_in_zpad [of "CHR ''-''" w n] by (auto simp: is_digit_def)

lemma fmt_year_inject [simp]: "fmt_year y = fmt_year z \<longleftrightarrow> y = z"
  by (auto simp: fmt_year_def dest: sym)

lemma colon_not_in_zpad [simp]: "CHR '':'' \<notin> set (zpad w n)"
  by (rule not_digit_in_zpad) (simp add: is_digit_def)

lemma colon_not_in_fmt_year [simp]: "CHR '':'' \<notin> set (fmt_year y)"
  by (simp add: fmt_year_def)

subsection \<open>The formats are injective and the parser inverts them\<close>

lemma date_of_day_inject: "date_of_day a = date_of_day b \<longleftrightarrow> a = b"
proof
  assume e: "date_of_day a = date_of_day b"
  obtain y m d where "date_of_day a = (y, m, d)" by (cases "date_of_day a")
  with e show "a = b" using date_of_day_valid(2) by metis
qed simp

lemma date_fields:
  assumes "date_of_day n = (y, m, d)"
  shows "length (zpad 2 (nat m)) = 2" "length (zpad 2 (nat d)) = 2" "0 < m" "0 < d"
  using valid_date_bounds [OF date_of_day_valid(1) [OF assms]] by (auto intro!: length_zpad)

lemma FormatCompact_inject: "FormatCompact s = FormatCompact t \<longleftrightarrow> day_of s = day_of t"
proof
  assume e: "FormatCompact s = FormatCompact t"
  obtain y m d where s: "date_of_day (day_of s) = (y, m, d)" by (cases "date_of_day (day_of s)")
  obtain y' m' d' where t: "date_of_day (day_of t) = (y', m', d')"
    by (cases "date_of_day (day_of t)")
  from e s t date_fields [OF s] date_fields [OF t] have "(y, m, d) = (y', m', d')"
    by (auto simp: FormatCompact_def append_eq_append_conv)
  with s t have "date_of_day (day_of s) = date_of_day (day_of t)" by simp
  then show "day_of s = day_of t" by (simp add: date_of_day_inject)
qed (simp add: FormatCompact_def)

lemma FormatDate_inject: "FormatDate s = FormatDate t \<longleftrightarrow> day_of s = day_of t"
proof
  assume e: "FormatDate s = FormatDate t"
  obtain y m d where s: "date_of_day (day_of s) = (y, m, d)" by (cases "date_of_day (day_of s)")
  obtain y' m' d' where t: "date_of_day (day_of t) = (y', m', d')"
    by (cases "date_of_day (day_of t)")
  from e s t date_fields [OF s] date_fields [OF t] have "(y, m, d) = (y', m', d')"
    by (auto simp: FormatDate_def append_eq_append_conv)
  with s t have "date_of_day (day_of s) = date_of_day (day_of t)" by simp
  then show "day_of s = day_of t" by (simp add: date_of_day_inject)
qed (simp add: FormatDate_def)

lemma colon_not_in_FormatCompact [simp]: "CHR '':'' \<notin> set (FormatCompact t)"
  by (simp add: FormatCompact_def split: prod.splits)

lemma length_2E:
  assumes "length s = 2" obtains a b where "s = [a, b]"
  using assms by (auto simp: length_Suc_conv numeral_2_eq_2)

lemma length_4E:
  assumes "length s = 4" obtains a b c d where "s = [a, b, c, d]"
  using assms by (auto simp: length_Suc_conv numeral_eq_Suc)

lemma ParseDate_fields:
  assumes "length ys = 4" "length ms = 2" "length ds = 2"
    and "parse_digits ys = Some y" "parse_digits ms = Some m" "parse_digits ds = Some d"
    and "valid_date (int y) (int m) (int d)"
  shows "ParseDate (ys @ ''-'' @ ms @ ''-'' @ ds) = Some (midnight (day_of_date (int y) (int m) (int d)))"
proof -
  obtain y1 y2 y3 y4 where "ys = [y1, y2, y3, y4]" using assms(1) by (rule length_4E)
  moreover obtain m1 m2 where "ms = [m1, m2]" using assms(2) by (rule length_2E)
  moreover obtain d1 d2 where "ds = [d1, d2]" using assms(3) by (rule length_2E)
  ultimately show ?thesis using assms(4-) by (simp add: ParseDate_def)
qed

lemma ParseDate_FormatDate:
  assumes y: "0 \<le> fst (date_of_day (day_of t))" "fst (date_of_day (day_of t)) \<le> 9999"
  shows "ParseDate (FormatDate t) = Some (start_of_day t)"
proof -
  obtain y m d where f: "date_of_day (day_of t) = (y, m, d)" by (cases "date_of_day (day_of t)")
  note v = date_of_day_valid [OF f] and l = date_fields [OF f]
  have l4: "length (zpad 4 (nat y)) = 4" by (rule length_zpad) (use y f in auto)
  have i: "int (nat y) = y" "int (nat m) = m" "int (nat d) = d" using y f l by simp_all
  have "ParseDate (zpad 4 (nat y) @ ''-'' @ zpad 2 (nat m) @ ''-'' @ zpad 2 (nat d))
      = Some (midnight (day_of_date y m d))"
    using ParseDate_fields [OF l4 l(1,2), of "nat y" "nat m" "nat d"] v(1)
    unfolding i by simp
  moreover have "fmt_year y = zpad 4 (nat y)" using y f by (simp add: fmt_year_def)
  ultimately show ?thesis using f v(2) by (simp add: FormatDate_def start_of_day_def)
qed

subsection \<open>The parser accepts exactly the formatted dates\<close>

lemma digits_val_less: "list_all is_digit s \<Longrightarrow> digits_val s < 10 ^ length s"
proof (induction s rule: rev_induct)
  case (snoc c s)
  then have "digits_val s < 10 ^ length s" "digit_val c < 10" by simp_all
  then show ?case by simp
qed simp

lemma digits_val_inject:
  "list_all is_digit s \<Longrightarrow> list_all is_digit t \<Longrightarrow> length s = length t \<Longrightarrow>
     digits_val s = digits_val t \<Longrightarrow> s = t"
proof (induction s arbitrary: t rule: rev_induct)
  case (snoc c s)
  then obtain d u where t: "t = u @ [d]" by (cases t rule: rev_cases) auto
  with snoc.prems have c: "digit_val c < 10" "digit_val d < 10"
    and e: "10 * digits_val s + digit_val c = 10 * digits_val u + digit_val d" by simp_all
  from e c have eq: "digits_val s = digits_val u" by linarith
  from eq e have "digit_val c = digit_val d" by simp
  moreover have "is_digit c" "is_digit d" using snoc.prems t by simp_all
  ultimately have "c = d" using digit_char_digit_val [of c] digit_char_digit_val [of d] by metis
  with eq show ?case using snoc.IH [of u] snoc.prems t by simp
qed simp

lemma zpad_digits_val:
  assumes "list_all is_digit s" and "s \<noteq> []"
  shows "zpad (length s) (digits_val s) = s"
  using assms digits_val_less [OF assms(1)] length_zpad [of "length s" "digits_val s"] zpad_digits
  by (intro digits_val_inject) auto

lemma parse_digits_Some: "parse_digits s = Some n \<Longrightarrow> zpad (length s) n = s"
  by (auto simp: parse_digits_def zpad_digits_val split: if_splits)

lemma FormatDate_ParseDate:
  assumes "ParseDate s = Some t"
  shows "FormatDate t = s"
proof -
  obtain y1 y2 y3 y4 m1 m2 d1 d2 y m d where
      s: "s = [y1, y2, y3, y4, CHR ''-'', m1, m2, CHR ''-'', d1, d2]"
    and p: "parse_digits [y1, y2, y3, y4] = Some y" "parse_digits [m1, m2] = Some m" "parse_digits [d1, d2] = Some d"
    and v: "valid_date (int y) (int m) (int d)" and t: "t = midnight (day_of_date (int y) (int m) (int d))"
    using assms by (auto simp: ParseDate_def split: list.splits option.splits if_splits)
  have "date_of_day (day_of t) = (int y, int m, int d)" by (simp add: t date_of_day_of_date [OF v])
  then show ?thesis
    using parse_digits_Some [OF p(1)] parse_digits_Some [OF p(2)] parse_digits_Some [OF p(3)]
    by (simp add: FormatDate_def fmt_year_def s eval_nat_numeral)
qed

subsection \<open>Contexts\<close>

text \<open>
  A context is the instant from which it is done (\<open>None\<close>: never). That covers a deadline
  and a cancellation alike: the instant of a cancellation is chosen by the environment, and
  every property quantifies over it.
\<close>

type_synonym ctx = "gotime option"

definition Background :: ctx where "Background = None"

fun ctx_done :: "ctx \<Rightarrow> gotime \<Rightarrow> bool" where
  "ctx_done None now = False"
| "ctx_done (Some d) now = (d \<le> now)"

fun WithTimeout :: "ctx \<Rightarrow> gotime \<Rightarrow> duration \<Rightarrow> ctx" where
  "WithTimeout None now d = Some (now + d)"
| "WithTimeout (Some p) now d = Some (min p (now + d))"

lemma ctx_done_mono: "ctx_done c s \<Longrightarrow> s \<le> t \<Longrightarrow> ctx_done c t"
  by (cases c) auto

lemma WithTimeout_done: "ctx_done (WithTimeout c s d) t \<longleftrightarrow> ctx_done c t \<or> s + d \<le> t"
  by (cases c) auto

end
