(* ===== verification/Json.thy ===== *)
theory Json
  imports Go_Text
begin

section \<open>JSON documents and Go values\<close>

text \<open>
  The source stores JSON in PostgreSQL (\<open>jsonb\<close> columns) and in Redis (cached results), and
  hashes one JSON text (the cache key). Documents are kept as trees; \<open>json_render\<close> gives the
  text of \<open>encoding/json\<close> where the source needs it. Every number the source writes is an
  integer. A time is written as an RFC 3339 string, which the tree keeps as the instant.
  \<open>goval\<close> is a Go value of type \<open>any\<close>: \<open>json.Unmarshal\<close> into \<open>any\<close> turns every number
  into a \<open>float64\<close> (\<open>GFloat\<close>, here always integral), while the database driver hands over
  \<open>int64\<close> values (\<open>GInt\<close>).
\<close>

datatype json =
    JNull
  | JBool bool
  | JNum int
  | JStr string
  | JTime int
  | JArr "json list"
  | JObj "(string \<times> json) list"

datatype goval =
    GNil
  | GBool bool
  | GInt int
  | GFloat int
  | GStr string
  | GTime int
  | GList "goval list"
  | GMap "(string \<times> goval) list"

subsection \<open>Integers as float64\<close>

fun bit_len :: "nat \<Rightarrow> nat" where
  "bit_len n = (if n = 0 then 0 else Suc (bit_len (n div 2)))"

declare bit_len.simps [simp del]

text \<open>Rounding to 53 significant bits, ties to even.\<close>

definition f64_of_int :: "int \<Rightarrow> int" where
  "f64_of_int i =
     (let a = nat \<bar>i\<bar>; e = bit_len a - 53; q = a div 2 ^ e; r = a mod 2 ^ e;
          q' = (if 2 ^ e < 2 * r \<or> (0 < e \<and> 2 * r = 2 ^ e \<and> odd q) then q + 1 else q)
      in sgn i * int (q' * 2 ^ e))"

lemma bit_len_le: "n < 2 ^ k \<Longrightarrow> bit_len n \<le> k"
proof (induction n arbitrary: k rule: bit_len.induct)
  case (1 n)
  show ?case
  proof (cases "n = 0")
    case True
    then show ?thesis by (simp add: bit_len.simps)
  next
    case False
    with 1 obtain j where k: "k = Suc j" by (cases k) auto
    with 1 have "n div 2 < 2 ^ j" by auto
    with "1.IH" [OF False] k False show ?thesis by (subst bit_len.simps) simp
  qed
qed

lemma f64_of_int_exact:
  assumes "\<bar>i\<bar> < 2 ^ 53"
  shows "f64_of_int i = i"
proof -
  have "nat \<bar>i\<bar> < 2 ^ 53" using assms by (simp add: nat_less_iff)
  then have e: "bit_len (nat \<bar>i\<bar>) - 53 = 0" using bit_len_le [of "nat \<bar>i\<bar>" 53] by linarith
  show ?thesis unfolding f64_of_int_def Let_def e by (simp add: sgn_mult_abs)
qed

subsection \<open>Encoding and decoding values\<close>

fun json_of_goval :: "goval \<Rightarrow> json" where
  "json_of_goval GNil = JNull"
| "json_of_goval (GBool b) = JBool b"
| "json_of_goval (GInt i) = JNum i"
| "json_of_goval (GFloat i) = JNum i"
| "json_of_goval (GStr s) = JStr s"
| "json_of_goval (GTime t) = JTime t"
| "json_of_goval (GList xs) = JArr (map json_of_goval xs)"
| "json_of_goval (GMap kvs) = JObj (map (\<lambda>(k, v). (k, json_of_goval v)) kvs)"

fun goval_of_json :: "json \<Rightarrow> goval" where
  "goval_of_json JNull = GNil"
| "goval_of_json (JBool b) = GBool b"
| "goval_of_json (JNum i) = GFloat (f64_of_int i)"
| "goval_of_json (JStr s) = GStr s"
| "goval_of_json (JTime t) = GTime t"
| "goval_of_json (JArr xs) = GList (map goval_of_json xs)"
| "goval_of_json (JObj kvs) = GMap (map (\<lambda>(k, v). (k, goval_of_json v)) kvs)"

text \<open>Two values are the same to a JSON client when they encode to the same document.\<close>

definition json_same :: "goval \<Rightarrow> goval \<Rightarrow> bool" where
  "json_same a b \<longleftrightarrow> json_of_goval a = json_of_goval b"

text \<open>All numbers of a value are exact as \<open>float64\<close>.\<close>

fun exact_numbers :: "goval \<Rightarrow> bool" where
  "exact_numbers (GInt i) \<longleftrightarrow> \<bar>i\<bar> < 2 ^ 53"
| "exact_numbers (GFloat i) \<longleftrightarrow> \<bar>i\<bar> < 2 ^ 53"
| "exact_numbers (GList xs) \<longleftrightarrow> list_all exact_numbers xs"
| "exact_numbers (GMap kvs) \<longleftrightarrow> list_all (\<lambda>(k, v). exact_numbers v) kvs"
| "exact_numbers _ \<longleftrightarrow> True"

lemma json_roundtrip_same:
  "exact_numbers v \<Longrightarrow> json_of_goval (goval_of_json (json_of_goval v)) = json_of_goval v"
  by (induction v) (auto simp: f64_of_int_exact list_all_iff)

subsection \<open>Objects\<close>

definition obj_field :: "string \<Rightarrow> json \<Rightarrow> json option" where
  "obj_field k j = (case j of JObj kvs \<Rightarrow> map_of kvs k | _ \<Rightarrow> None)"

subsection \<open>The text of a flat object\<close>

text \<open>
  \<open>json.Marshal\<close> of a map writes the keys in increasing order; the callers list them so.
  \<open>json_escape\<close> is the escaping of \<open>encoding/json\<close> for ASCII: the quote, the backslash,
  control characters and the characters special in HTML. A byte of a longer UTF-8 sequence
  is copied (the line separators U+2028 and U+2029 and malformed bytes, which Go replaces,
  are left as they are).
\<close>

definition hex_digit :: "nat \<Rightarrow> char" where
  "hex_digit n = (if n < 10 then char_of (48 + n) else char_of (87 + n))"

definition json_escape_char :: "char \<Rightarrow> string" where
  "json_escape_char c =
     (let n = (of_char c :: nat) in
      if c = CHR 0x22 then [CHR 0x5C, CHR 0x22]
      else if c = CHR 0x5C then [CHR 0x5C, CHR 0x5C]
      else if n = 8 then [CHR 0x5C, CHR ''b'']
      else if n = 9 then [CHR 0x5C, CHR ''t'']
      else if n = 10 then [CHR 0x5C, CHR ''n'']
      else if n = 12 then [CHR 0x5C, CHR ''f'']
      else if n = 13 then [CHR 0x5C, CHR ''r'']
      else if n < 32 \<or> c = CHR ''<'' \<or> c = CHR ''>'' \<or> c = CHR ''&''
        then CHR 0x5C # ''u00'' @ [hex_digit (n div 16), hex_digit (n mod 16)]
      else [c])"

definition json_quote :: "string \<Rightarrow> string" where
  "json_quote s = CHR 0x22 # concat (map json_escape_char s) @ [CHR 0x22]"

fun intersperse_commas :: "string list \<Rightarrow> string" where
  "intersperse_commas [] = []"
| "intersperse_commas [s] = s"
| "intersperse_commas (s # t # ss) = s @ '','' @ intersperse_commas (t # ss)"

fun json_scalar :: "json \<Rightarrow> string" where
  "json_scalar (JStr s) = json_quote s"
| "json_scalar (JNum i) = int_dec i"
| "json_scalar (JBool b) = (if b then ''true'' else ''false'')"
| "json_scalar _ = ''null''"

definition json_flat_object :: "(string \<times> json) list \<Rightarrow> string" where
  "json_flat_object kvs =
     ''{'' @ intersperse_commas (map (\<lambda>(k, v). json_quote k @ '':'' @ json_scalar v) kvs) @ ''}''"

subsection \<open>The text of a quoted string determines the string\<close>

lemma of_char_hex_digit: "k < 16 \<Longrightarrow> of_char (hex_digit k) = (if k < 10 then 48 + k else 87 + k)"
  by (simp add: hex_digit_def)

lemma hex_digit_inject:
  assumes "m < 16" "n < 16" "hex_digit m = hex_digit n"
  shows "m = n"
proof -
  have "of_char (hex_digit m) = (of_char (hex_digit n) :: nat)" by (simp only: assms)
  then have "(if m < 10 then 48 + m else 87 + m) = (if n < 10 then 48 + n else 87 + n)"
    by (simp only: of_char_hex_digit [OF assms(1)] of_char_hex_digit [OF assms(2)])
  then show ?thesis by (auto split: if_splits)
qed

lemma of_char_not_eq: "c \<noteq> d \<Longrightarrow> (of_char c :: nat) \<noteq> of_char d"
  by (metis char_of_char)

text \<open>The escapes that are one letter after the backslash.\<close>

definition short_escapes :: "(char \<times> char) list" where
  "short_escapes =
     [(CHR 0x22, CHR 0x22), (CHR 0x5C, CHR 0x5C), (CHR 0x08, CHR ''b''), (CHR 0x09, CHR ''t''),
      (CHR 0x0A, CHR ''n''), (CHR 0x0C, CHR ''f''), (CHR 0x0D, CHR ''r'')]"

lemma json_escape_char_short: "(c, d) \<in> set short_escapes \<Longrightarrow> json_escape_char c = [CHR 0x5C, d]"
  by (auto simp: short_escapes_def json_escape_char_def)

lemma json_escape_char_other:
  assumes "c \<notin> fst ` set short_escapes"
  shows "json_escape_char c = [c] \<and> c \<noteq> CHR 0x5C \<and> c \<noteq> CHR 0x22 \<or>
    json_escape_char c = CHR 0x5C # ''u00'' @ [hex_digit (of_char c div 16), hex_digit (of_char c mod 16)]"
proof -
  have ne: "(of_char c :: nat) \<noteq> 8" "(of_char c :: nat) \<noteq> 9" "(of_char c :: nat) \<noteq> 10"
    "(of_char c :: nat) \<noteq> 12" "(of_char c :: nat) \<noteq> 13" "c \<noteq> CHR 0x22" "c \<noteq> CHR 0x5C"
    using of_char_not_eq [of c "CHR 0x08"] of_char_not_eq [of c "CHR 0x09"]
      of_char_not_eq [of c "CHR 0x0A"] of_char_not_eq [of c "CHR 0x0C"]
      of_char_not_eq [of c "CHR 0x0D"] assms by (simp_all add: short_escapes_def)
  show ?thesis unfolding json_escape_char_def Let_def using ne by simp
qed

lemma json_escape_char_cases:
  obtains (short) d where "(c, d) \<in> set short_escapes" "json_escape_char c = [CHR 0x5C, d]"
    | (code) "json_escape_char c =
        CHR 0x5C # ''u00'' @ [hex_digit (of_char c div 16), hex_digit (of_char c mod 16)]"
    | (plain) "json_escape_char c = [c]" "c \<noteq> CHR 0x5C" "c \<noteq> CHR 0x22"
proof (cases "c \<in> fst ` set short_escapes")
  case True
  then obtain d where "(c, d) \<in> set short_escapes" by auto
  then show ?thesis by (rule short) (rule json_escape_char_short, fact)
next
  case False
  from json_escape_char_other [OF this] show ?thesis using code plain by blast
qed

lemma short_escapes_inject:
  "(c, d) \<in> set short_escapes \<Longrightarrow> (c', d) \<in> set short_escapes \<Longrightarrow> c = c'"
  "(c, CHR ''u'') \<notin> set short_escapes"
  by (auto simp: short_escapes_def)

lemma json_escape_char_prefix_free:
  assumes "json_escape_char c @ r = json_escape_char c' @ r'"
  shows "c = c' \<and> r = r'"
proof (cases c rule: json_escape_char_cases)
  case (short d)
  then show ?thesis
    using assms short_escapes_inject
    by (cases c' rule: json_escape_char_cases) auto
next
  case plain
  then show ?thesis
    using assms by (cases c' rule: json_escape_char_cases) auto
next
  case code
  show ?thesis
  proof (cases c' rule: json_escape_char_cases)
    case code': code
    from assms code code' have
      h: "hex_digit (of_char c div 16) = hex_digit (of_char c' div 16)"
      "hex_digit (of_char c mod 16) = hex_digit (of_char c' mod 16)" and r: "r = r'"
      by simp_all
    have "(of_char c :: nat) < 256" "(of_char c' :: nat) < 256" by simp_all
    then have "(of_char c :: nat) div 16 < 16" "(of_char c' :: nat) div 16 < 16" by linarith+
    with h hex_digit_inject have "(of_char c :: nat) div 16 = of_char c' div 16"
      "(of_char c :: nat) mod 16 = of_char c' mod 16" by simp_all
    then have "(of_char c :: nat) = of_char c'" by (metis div_mult_mod_eq)
    with r show ?thesis by simp
  qed (use assms code short_escapes_inject in auto)
qed

lemma json_escape_char_not_quote: "json_escape_char c @ r \<noteq> CHR 0x22 # r'"
  by (cases c rule: json_escape_char_cases) auto

lemma json_escapes_inject:
  "concat (map json_escape_char s) @ CHR 0x22 # r = concat (map json_escape_char t) @ CHR 0x22 # r' \<longleftrightarrow>
   s = t \<and> r = r'"
proof (induction s arbitrary: t)
  case Nil
  show ?case by (cases t) (use json_escape_char_not_quote [symmetric] in auto)
next
  case (Cons c s)
  show ?case
  proof (cases t)
    case Nil
    then show ?thesis using json_escape_char_not_quote by auto
  next
    case (Cons c' t')
    then show ?thesis
      using json_escape_char_prefix_free [of c "concat (map json_escape_char s) @ CHR 0x22 # r"
          c' "concat (map json_escape_char t') @ CHR 0x22 # r'"] Cons.IH [of t']
      by auto
  qed
qed

lemma json_quote_inject: "json_quote s @ r = json_quote t @ r' \<longleftrightarrow> s = t \<and> r = r'"
  using json_escapes_inject by (simp add: json_quote_def)

end
