(* ===== verification/Sql_Ops.thy ===== *)
theory Sql_Ops
  imports Go_Time Json
begin

section \<open>The SQL the store's statements use\<close>

text \<open>
  The meaning of the clauses in the statements of \<open>internal/infrastructure/postgres\<close>:
  \<open>date_trunc\<close>, \<open>GROUP BY\<close> with \<open>COUNT\<close> and \<open>SUM\<close>, \<open>ORDER BY\<close>, \<open>LIMIT\<close>/\<open>OFFSET\<close> and
  \<open>ILIKE\<close>. Tables are lists of rows. The session's time zone is UTC, as in the images the
  repository deploys. Where SQL leaves an order open (rows without \<open>ORDER BY\<close>, ties), the
  lists keep the order of the table.
\<close>

subsection \<open>date_trunc\<close>

text \<open>
  The units the source passes: \<open>'week'\<close> (weeks start on Monday, and so does day 0), else a
  day; every window is checked to be one of the two before a statement runs.
\<close>

definition date_trunc :: "string \<Rightarrow> gotime \<Rightarrow> gotime" where
  "date_trunc u t = (if u = ''week'' then midnight (7 * (day_of t div 7)) else start_of_day t)"

text \<open>\<open>CASE WHEN $2 = 'week' THEN INTERVAL '1 week' ELSE INTERVAL '1 day' END\<close>.\<close>

definition window_length :: "string \<Rightarrow> duration" where
  "window_length u = (if u = ''week'' then 7 * ns_Day else ns_Day)"

lemma window_length_pos [simp]: "0 < window_length u"
  by (simp add: window_length_def)

lemma date_trunc_le: "date_trunc u t \<le> t"
proof (cases "u = ''week''")
  case True
  have "7 * (day_of t div 7) \<le> day_of t" by linarith
  then have "midnight (7 * (day_of t div 7)) \<le> t" by (simp add: le_day_of_iff)
  with True show ?thesis by (simp add: date_trunc_def)
next
  case False
  then show ?thesis by (simp add: date_trunc_def start_of_day_le)
qed

lemma less_date_trunc: "t < date_trunc u t + window_length u"
proof (cases "u = ''week''")
  case True
  have "day_of t < 7 * (day_of t div 7) + 7" by linarith
  then have "t < midnight (7 * (day_of t div 7) + 7)" by (simp add: day_of_less_iff)
  with True show ?thesis by (simp add: date_trunc_def window_length_def midnight_add)
next
  case False
  then show ?thesis by (simp add: date_trunc_def window_length_def start_of_day_gt)
qed

lemma date_trunc_mono: "s \<le> t \<Longrightarrow> date_trunc u s \<le> date_trunc u t"
  using day_of_mono [of s t]
  by (auto simp: date_trunc_def start_of_day_def midnight_mono zdiv_mono1)

lemma date_trunc_day: "u \<noteq> ''week'' \<Longrightarrow> date_trunc u t = start_of_day t"
  by (simp add: date_trunc_def)

lemma date_trunc_idem: "date_trunc u (date_trunc u t) = date_trunc u t"
  by (simp add: date_trunc_def start_of_day_def)

subsection \<open>GROUP BY\<close>

definition group_counts :: "'k list \<Rightarrow> ('k \<times> int) list" where
  "group_counts ks = map (\<lambda>k. (k, int (count_list ks k))) (remdups ks)"

definition group_sums :: "('r \<Rightarrow> 'k) \<Rightarrow> ('r \<Rightarrow> int) \<Rightarrow> 'r list \<Rightarrow> ('k \<times> int) list" where
  "group_sums f v rows =
     map (\<lambda>k. (k, sum_list (map v (filter (\<lambda>r. f r = k) rows)))) (remdups (map f rows))"

lemma map_fst_group_counts [simp]: "map fst (group_counts ks) = remdups ks"
  by (simp add: group_counts_def comp_def)

lemma map_fst_group_sums [simp]: "map fst (group_sums f v rows) = remdups (map f rows)"
  by (simp add: group_sums_def comp_def)

lemma set_group_counts: "set (group_counts ks) = {(k, int (count_list ks k)) | k. k \<in> set ks}"
  by (auto simp: group_counts_def)

lemma set_group_sums:
  "set (group_sums f v rows) =
     {(k, sum_list (map v (filter (\<lambda>r. f r = k) rows))) | k. k \<in> f ` set rows}"
  by (auto simp: group_sums_def)

lemma distinct_group_counts [simp]: "distinct (group_counts ks)"
  using distinct_map [of fst "group_counts ks"] by simp

lemma distinct_group_sums [simp]: "distinct (group_sums f v rows)"
  using distinct_map [of fst "group_sums f v rows"] by simp

lemma group_counts_total: "(\<Sum>(k, n) \<leftarrow> group_counts ks. n) = int (length ks)"
  using sum_list_count_remdups [of ks] by (simp add: group_counts_def comp_def case_prod_unfold)

lemma sum_list_groups:
  fixes v :: "'r \<Rightarrow> int"
  shows "distinct ks \<Longrightarrow> f ` set rows \<subseteq> set ks \<Longrightarrow>
    (\<Sum>k \<leftarrow> ks. \<Sum>r \<leftarrow> filter (\<lambda>r. f r = k) rows. v r) = (\<Sum>r \<leftarrow> rows. v r)"
proof (induction ks arbitrary: rows)
  case Nil
  then show ?case by simp
next
  case (Cons k ks)
  let ?rest = "filter (\<lambda>r. f r \<noteq> k) rows"
  have same: "filter (\<lambda>r. f r = k') ?rest = filter (\<lambda>r. f r = k') rows" if "k' \<in> set ks" for k'
    using that Cons.prems(1) by (auto intro!: filter_cong)
  have "(\<Sum>k' \<leftarrow> ks. \<Sum>r \<leftarrow> filter (\<lambda>r. f r = k') rows. v r) =
      (\<Sum>k' \<leftarrow> ks. \<Sum>r \<leftarrow> filter (\<lambda>r. f r = k') ?rest. v r)"
    by (intro arg_cong [of _ _ sum_list] map_cong refl) (simp only: same)
  also have "\<dots> = (\<Sum>r \<leftarrow> ?rest. v r)"
    using Cons.prems by (intro Cons.IH) auto
  finally show ?case
    using sum_list_filter_split [of v rows "\<lambda>r. f r = k"] by simp
qed

lemma group_sums_total: "(\<Sum>(k, n) \<leftarrow> group_sums f v rows. n) = (\<Sum>r \<leftarrow> rows. v r)"
  using sum_list_groups [of "remdups (map f rows)" f rows v]
  by (simp add: group_sums_def comp_def case_prod_unfold)

subsection \<open>ORDER BY\<close>

fun insert_by :: "('a \<Rightarrow> 'a \<Rightarrow> bool) \<Rightarrow> 'a \<Rightarrow> 'a list \<Rightarrow> 'a list" where
  "insert_by le x [] = [x]"
| "insert_by le x (y # ys) = (if le x y then x # y # ys else y # insert_by le x ys)"

fun sort_by :: "('a \<Rightarrow> 'a \<Rightarrow> bool) \<Rightarrow> 'a list \<Rightarrow> 'a list" where
  "sort_by le [] = []"
| "sort_by le (x # xs) = insert_by le x (sort_by le xs)"

text \<open>A total preorder, as an \<open>ORDER BY\<close> clause gives.\<close>

definition total_preorder :: "('a \<Rightarrow> 'a \<Rightarrow> bool) \<Rightarrow> bool" where
  "total_preorder le \<longleftrightarrow> (\<forall>x y. le x y \<or> le y x) \<and> (\<forall>x y z. le x y \<longrightarrow> le y z \<longrightarrow> le x z)"

lemma mset_insert_by [simp]: "mset (insert_by le x xs) = {#x#} + mset xs"
  by (induction xs) auto

lemma mset_sort_by [simp]: "mset (sort_by le xs) = mset xs"
  by (induction xs) auto

lemma set_sort_by [simp]: "set (sort_by le xs) = set xs"
  by (metis mset_sort_by set_mset_mset)

lemma length_sort_by [simp]: "length (sort_by le xs) = length xs"
  by (metis mset_sort_by size_mset)

lemma distinct_sort_by [simp]: "distinct (sort_by le xs) = distinct xs"
  by (metis mset_sort_by mset_eq_imp_distinct_iff)

lemma sum_list_sort_by: "(\<Sum>x \<leftarrow> sort_by le xs. f x) = (\<Sum>x \<leftarrow> xs. f x)"
  for f :: "'a \<Rightarrow> int"
  by (metis mset_map mset_sort_by sum_mset_sum_list)

lemma sorted_insert_by:
  assumes "total_preorder le" and "sorted_wrt le xs"
  shows "sorted_wrt le (insert_by le x xs)"
  using assms(2)
proof (induction xs)
  case Nil
  then show ?case by simp
next
  case (Cons y ys)
  have set: "set (insert_by le x ys) = insert x (set ys)"
    by (metis mset_insert_by set_mset_add_mset_insert set_mset_mset add_mset_add_single union_commute)
  show ?case
    using Cons assms(1) unfolding total_preorder_def by (auto simp: set)
qed

lemma sorted_sort_by: "total_preorder le \<Longrightarrow> sorted_wrt le (sort_by le xs)"
  by (induction xs) (auto intro: sorted_insert_by)

subsection \<open>LIMIT and OFFSET\<close>

text \<open>A negative bound is an error of the statement.\<close>

definition limit_offset :: "int \<Rightarrow> int \<Rightarrow> 'a list \<Rightarrow> string + 'a list" where
  "limit_offset lim off rows =
     (if lim < 0 then Inl ''LIMIT must not be negative''
      else if off < 0 then Inl ''OFFSET must not be negative''
      else Inr (page lim off rows))"

subsection \<open>ILIKE\<close>

text \<open>
  \<open>LIKE\<close> with \<open>%\<close>, \<open>_\<close> and the escape character, on text already in lower case (a byte is
  a character; case is that of ASCII).
\<close>

function like :: "string \<Rightarrow> string \<Rightarrow> bool" where
  "like [] t \<longleftrightarrow> t = []"
| "like (p # ps) t \<longleftrightarrow>
     (if p = CHR ''%'' then like ps t \<or> (case t of [] \<Rightarrow> False | c # cs \<Rightarrow> like (p # ps) cs)
      else case t of
        [] \<Rightarrow> False
      | c # cs \<Rightarrow>
          if p = CHR ''_'' then like ps cs
          else if p = CHR 0x5C then (case ps of [] \<Rightarrow> False | q # qs \<Rightarrow> q = c \<and> like qs cs)
          else p = c \<and> like ps cs)"
  by pat_completeness auto
termination
  by (relation "measure (\<lambda>(p, t). length p + length t)") auto

declare like.simps [simp del]

definition ILIKE :: "string \<Rightarrow> string \<Rightarrow> bool" where
  "ILIKE t p = like (map lower_char p) (map lower_char t)"

lemma like_any_prefix: "like (CHR ''%'' # ps) t \<longleftrightarrow> (\<exists>n \<le> length t. like ps (drop n t))"
proof (induction t)
  case Nil
  then show ?case by (subst like.simps) simp
next
  case (Cons c t)
  have "(\<exists>n \<le> length (c # t). like ps (drop n (c # t))) \<longleftrightarrow>
      like ps (c # t) \<or> (\<exists>n \<le> length t. like ps (drop n t))"
    by (metis (no_types, lifting) Suc_le_mono drop0 drop_Suc_Cons le0 length_Cons not0_implies_Suc)
  with Cons.IH show ?case by (subst like.simps) simp
qed

text \<open>A pattern without special characters matches itself only.\<close>

definition plain_pattern :: "string \<Rightarrow> bool" where
  "plain_pattern p \<longleftrightarrow> CHR ''%'' \<notin> set p \<and> CHR ''_'' \<notin> set p \<and> CHR 0x5C \<notin> set p"

lemma like_plain_then_any:
  "plain_pattern p \<Longrightarrow> like (p @ ''%'') t \<longleftrightarrow> prefix p t"
proof (induction p arbitrary: t)
  case Nil
  have "\<exists>n \<le> length t. like [] (drop n t)"
    by (rule exI [of _ "length t"]) (simp add: like.simps)
  then show ?case using like_any_prefix [of "[]" t] by simp
next
  case (Cons c p)
  then have "plain_pattern p" and c: "c \<noteq> CHR ''%''" "c \<noteq> CHR ''_''" "c \<noteq> CHR 0x5C"
    by (auto simp: plain_pattern_def)
  with Cons.IH show ?case by (cases t) (auto simp: like.simps)
qed

text \<open>So the search of the catalog is a substring search for such a text.\<close>

lemma like_substring:
  assumes "plain_pattern p"
  shows "like (''%'' @ p @ ''%'') t \<longleftrightarrow> sublist p t"
proof -
  have "like (''%'' @ p @ ''%'') t \<longleftrightarrow> (\<exists>n \<le> length t. prefix p (drop n t))"
    using like_any_prefix [of "p @ ''%''" t] by (simp add: like_plain_then_any [OF assms])
  also have "\<dots> \<longleftrightarrow> sublist p t"
  proof
    assume "\<exists>n \<le> length t. prefix p (drop n t)"
    then obtain n zs where "drop n t = p @ zs" by (auto simp: prefix_def)
    then have "t = take n t @ p @ zs" by (metis append_take_drop_id)
    then show "sublist p t" unfolding sublist_def by blast
  next
    assume "sublist p t"
    then obtain ps ss where "t = ps @ p @ ss" unfolding sublist_def by blast
    then show "\<exists>n \<le> length t. prefix p (drop n t)"
      by (intro exI [of _ "length ps"]) simp
  qed
  finally show ?thesis .
qed

end
