(* ===== verification/Domain.thy ===== *)
theory Domain
  imports Go_Time Json
begin

section \<open>The domain package: errors and models\<close>

text \<open>
  \<open>internal/domain/errors.go\<close> and \<open>internal/domain/models.go\<close>. A Go \<open>error\<close> is a value of
  \<open>go_error\<close>: the service's own \<open>AppError\<close>, an error wrapped by \<open>fmt.Errorf\<close> with \<open>%w\<close>, the
  two sentinel errors the source compares with (\<open>pgx.ErrNoRows\<close>, \<open>redis.Nil\<close>), the error of
  a context that is done, and any other error by its text.
\<close>

subsection \<open>Errors\<close>

type_synonym ErrorCode = string

definition ErrCodeInvalid :: ErrorCode where "ErrCodeInvalid = ''invalid_request''"
definition ErrCodeNotFound :: ErrorCode where "ErrCodeNotFound = ''not_found''"
definition ErrCodeUnauthorized :: ErrorCode where "ErrCodeUnauthorized = ''unauthorized''"
definition ErrCodeConflict :: ErrorCode where "ErrCodeConflict = ''conflict''"
definition ErrCodeUnavailable :: ErrorCode where "ErrCodeUnavailable = ''service_unavailable''"
definition ErrCodeInternal :: ErrorCode where "ErrCodeInternal = ''internal_error''"

lemmas code_defs = ErrCodeInvalid_def ErrCodeNotFound_def ErrCodeUnauthorized_def
  ErrCodeConflict_def ErrCodeUnavailable_def ErrCodeInternal_def

datatype go_error =
    AppError ErrorCode string "go_error option"
  | WrapError string go_error
  | ErrNoRows
  | RedisNil
  | CtxError
  | PlainError string

type_synonym ('w, 'a) io = "('w, go_error, 'a) call"

definition NewAppError :: "ErrorCode \<Rightarrow> string \<Rightarrow> go_error" where
  "NewAppError code message = AppError code message None"

definition WrapAppError :: "ErrorCode \<Rightarrow> string \<Rightarrow> go_error \<Rightarrow> go_error" where
  "WrapAppError code message err = AppError code message (Some err)"

text \<open>The method \<open>Error()\<close>; the texts of the libraries' errors are theirs.\<close>

fun Error :: "go_error \<Rightarrow> string" where
  "Error (AppError _ msg None) = msg"
| "Error (AppError _ msg (Some e)) = msg @ '': '' @ Error e"
| "Error (WrapError txt e) = txt @ '': '' @ Error e"
| "Error ErrNoRows = ''no rows in result set''"
| "Error RedisNil = ''redis: nil''"
| "Error CtxError = ''context deadline exceeded''"
| "Error (PlainError msg) = msg"

fun Unwrap :: "go_error \<Rightarrow> go_error option" where
  "Unwrap (AppError _ _ e) = e"
| "Unwrap (WrapError _ e) = Some e"
| "Unwrap _ = None"

text \<open>
  \<open>errors.As(err, &appErr)\<close> follows \<open>Unwrap\<close> to the first \<open>AppError\<close>; the result is its
  code and message.
\<close>

fun errors_As :: "go_error \<Rightarrow> (ErrorCode \<times> string) option" where
  "errors_As (AppError code msg _) = Some (code, msg)"
| "errors_As (WrapError _ e) = errors_As e"
| "errors_As _ = None"

definition IsAppErrorCode :: "go_error \<Rightarrow> ErrorCode \<Rightarrow> bool" where
  "IsAppErrorCode err code =
     (case errors_As err of None \<Rightarrow> False | Some (c, _) \<Rightarrow> c = code)"

lemma errors_As_NewAppError [simp]: "errors_As (NewAppError c m) = Some (c, m)"
  by (simp add: NewAppError_def)

lemma errors_As_WrapAppError [simp]: "errors_As (WrapAppError c m e) = Some (c, m)"
  by (simp add: WrapAppError_def)

lemma NewAppError_inject [simp]: "NewAppError c m = NewAppError c' m' \<longleftrightarrow> c = c' \<and> m = m'"
  by (simp add: NewAppError_def)

lemma WrapAppError_inject [simp]:
  "WrapAppError c m e = WrapAppError c' m' e' \<longleftrightarrow> c = c' \<and> m = m' \<and> e = e'"
  by (simp add: WrapAppError_def)

lemma New_neq_Wrap [simp]:
  "NewAppError c m \<noteq> WrapAppError c' m' e" "WrapAppError c' m' e \<noteq> NewAppError c m"
  by (simp_all add: NewAppError_def WrapAppError_def)

subsection \<open>Windows and run states\<close>

definition WindowDay :: string where "WindowDay = ''day''"
definition WindowWeek :: string where "WindowWeek = ''week''"

definition RunStatusPending :: string where "RunStatusPending = ''pending''"
definition RunStatusRunning :: string where "RunStatusRunning = ''running''"
definition RunStatusCompleted :: string where "RunStatusCompleted = ''completed''"
definition RunStatusFailed :: string where "RunStatusFailed = ''failed''"

lemmas status_defs = RunStatusPending_def RunStatusRunning_def RunStatusCompleted_def
  RunStatusFailed_def
lemmas window_defs = WindowDay_def WindowWeek_def

lemma window_neq [simp]: "WindowDay \<noteq> WindowWeek" "WindowWeek \<noteq> WindowDay"
  by (simp_all add: window_defs)

lemma status_neq [simp]:
  "RunStatusPending \<noteq> RunStatusRunning" "RunStatusPending \<noteq> RunStatusCompleted"
  "RunStatusPending \<noteq> RunStatusFailed" "RunStatusRunning \<noteq> RunStatusPending"
  "RunStatusRunning \<noteq> RunStatusCompleted" "RunStatusRunning \<noteq> RunStatusFailed"
  "RunStatusCompleted \<noteq> RunStatusPending" "RunStatusCompleted \<noteq> RunStatusRunning"
  "RunStatusCompleted \<noteq> RunStatusFailed" "RunStatusFailed \<noteq> RunStatusPending"
  "RunStatusFailed \<noteq> RunStatusRunning" "RunStatusFailed \<noteq> RunStatusCompleted"
  by (simp_all add: status_defs)

subsection \<open>Models\<close>

record ReportDefinition =
  rd_Slug :: string
  rd_Name :: string
  rd_Description :: string
  rd_CacheTTLSeconds :: int
  rd_DefaultWindow :: string
  rd_AllowedWindows :: "string list"
  rd_SupportedFilters :: "(string \<times> string) list"

record ReportListFilter =
  lf_Search :: string
  lf_Limit :: int
  lf_Offset :: int
  lf_Sort :: string
  lf_Order :: string

record ReportRunParams =
  rp_Window :: string
  rp_DateFrom :: gotime
  rp_DateTo :: gotime
  rp_Breakdown :: string
  rp_Limit :: int
  rp_Offset :: int
  rp_Source :: string
  rp_Status :: string

text \<open>A row of a report: \<open>map[string]any\<close>, its entries in the order of the columns.\<close>

type_synonym report_row = "(string \<times> goval) list"

record ReportResult =
  rr_ReportSlug :: string
  rr_Window :: string
  rr_DateFrom :: string
  rr_DateTo :: string
  rr_GeneratedAt :: gotime
  rr_Rows :: "report_row list"
  rr_CacheHit :: bool
  rr_RowCount :: int
  rr_ExecutionMS :: int
  rr_SourceSystem :: string

record RecomputeRequest =
  rq_ReportSlug :: string
  rq_Window :: string
  rq_DateFrom :: gotime
  rq_DateTo :: gotime
  rq_RequestedBy :: string
  rq_RequestedVia :: string

record RecomputeRun =
  run_ID :: string
  run_ReportSlug :: string
  run_Window :: string
  run_DateFrom :: string
  run_DateTo :: string
  run_RequestedBy :: string
  run_Status :: string
  run_RequestedAt :: gotime
  run_StartedAt :: "gotime option"
  run_FinishedAt :: "gotime option"
  run_ErrorMessage :: string
  run_Summary :: "(string \<times> goval) list"

record RecomputeSummary =
  sum_RowsDeleted :: int
  sum_RowsInserted :: int
  sum_BucketCount :: int

record AuditEntry =
  au_ID :: int
  au_Actor :: string
  au_Action :: string
  au_ResourceType :: string
  au_ResourceID :: string
  au_Metadata :: "(string \<times> goval) list"
  au_CreatedAt :: gotime

record AuditFilter =
  af_Action :: string
  af_Actor :: string
  af_Limit :: int
  af_Offset :: int

record Pagination =
  pg_Limit :: int
  pg_Offset :: int
  pg_Total :: int

record HealthStatus =
  hs_Status :: string
  hs_Service :: string
  hs_Version :: string
  hs_Timestamp :: gotime
  hs_Dependencies :: "(string \<times> string) list"

end
