(* ===== verification/Ports.thy ===== *)
theory Ports
  imports Domain
begin

section \<open>The interfaces between the application and its stores\<close>

text \<open>
  \<open>internal/application/ports.go\<close>: each Go interface is a record of its methods, over a
  state of type \<open>'w\<close> that the implementation reads and changes. The services take the
  records as arguments, as the constructors in the source do; the PostgreSQL and Redis
  stores provide them. The locales state what a service relies on, and each is interpreted
  on the stores' own definitions.
\<close>

record 'w ReportRepository =
  ListReportDefinitions :: "ctx \<Rightarrow> ReportListFilter \<Rightarrow> ('w, ReportDefinition list \<times> int) io"
  GetReportDefinition :: "ctx \<Rightarrow> string \<Rightarrow> ('w, ReportDefinition) io"
  RunVolumeReport :: "ctx \<Rightarrow> ReportRunParams \<Rightarrow> ('w, report_row list) io"
  RunStatusCountsReport :: "ctx \<Rightarrow> ReportRunParams \<Rightarrow> ('w, report_row list) io"
  RunTopEntitiesReport :: "ctx \<Rightarrow> ReportRunParams \<Rightarrow> ('w, report_row list) io"
  RecomputeReport :: "ctx \<Rightarrow> RecomputeRequest \<Rightarrow> string \<Rightarrow> ('w, RecomputeSummary) io"

record 'w RecomputeRunRepository =
  CreateRun :: "ctx \<Rightarrow> RecomputeRequest \<Rightarrow> string \<Rightarrow> ('w, RecomputeRun) io"
  GetRun :: "ctx \<Rightarrow> string \<Rightarrow> ('w, RecomputeRun) io"
  MarkRunRunning :: "ctx \<Rightarrow> string \<Rightarrow> ('w, unit) io"
  MarkRunCompleted :: "ctx \<Rightarrow> string \<Rightarrow> RecomputeSummary \<Rightarrow> ('w, unit) io"
  MarkRunFailed :: "ctx \<Rightarrow> string \<Rightarrow> string \<Rightarrow> ('w, unit) io"

record 'w AuditRepository =
  CreateEntry :: "ctx \<Rightarrow> AuditEntry \<Rightarrow> ('w, unit) io"
  ListEntries :: "ctx \<Rightarrow> AuditFilter \<Rightarrow> ('w, AuditEntry list \<times> int) io"

text \<open>
  What a cache entry holds: \<open>[]byte\<close> in the source. A stored report is the document that
  \<open>json.Marshal\<close> wrote; any other text is kept as it is.
\<close>

datatype bytes = Doc json | Text string

record 'w ReportCache =
  Cache_Get :: "ctx \<Rightarrow> string \<Rightarrow> ('w, bytes option) io"
  Cache_Set :: "ctx \<Rightarrow> string \<Rightarrow> bytes \<Rightarrow> duration \<Rightarrow> ('w, unit) io"
  GetVersion :: "ctx \<Rightarrow> string \<Rightarrow> ('w, int) io"
  BumpVersion :: "ctx \<Rightarrow> string \<Rightarrow> ('w, int) io"

record 'w RecomputeLock =
  TryAcquire :: "ctx \<Rightarrow> string \<Rightarrow> string \<Rightarrow> duration \<Rightarrow> ('w, bool) io"
  Release :: "ctx \<Rightarrow> string \<Rightarrow> string \<Rightarrow> ('w, unit) io"

record 'w HealthStore =
  PingDB :: "ctx \<Rightarrow> ('w, unit) io"
  PingCache :: "ctx \<Rightarrow> ('w, unit) io"

subsection \<open>Entries that expire\<close>

text \<open>
  What the lock and the cache keep under a key: a value and the instant it expires, if any.
  \<open>alive\<close> drops an entry that has expired.
\<close>

type_synonym entry = "bytes \<times> gotime option"

definition expiry :: "gotime \<Rightarrow> duration \<Rightarrow> gotime option" where
  "expiry now d = (if d = 0 then None else Some (now + d))"

fun expired :: "gotime \<Rightarrow> gotime option \<Rightarrow> bool" where
  "expired now None = False"
| "expired now (Some x) = (x \<le> now)"

definition alive :: "gotime \<Rightarrow> ('a \<times> gotime option) option \<Rightarrow> ('a \<times> gotime option) option" where
  "alive now e = (case e of None \<Rightarrow> None | Some (v, x) \<Rightarrow> if expired now x then None else Some (v, x))"

text \<open>Redis keeps expiry times to the millisecond.\<close>

definition valid_ttl :: "duration \<Rightarrow> bool" where
  "valid_ttl d \<longleftrightarrow> 0 \<le> d \<and> d mod 1000000 = 0"

lemma alive_None [simp]: "alive now None = None"
  by (simp add: alive_def)

lemma alive_Some_iff: "alive now e = Some (v, x) \<longleftrightarrow> e = Some (v, x) \<and> \<not> expired now x"
  by (auto simp: alive_def split: option.splits)

lemma expired_mono: "expired s x \<Longrightarrow> s \<le> t \<Longrightarrow> expired t x"
  by (cases x) auto

lemma alive_alive: "s \<le> t \<Longrightarrow> alive t (alive s e) = alive t e"
  by (auto simp: alive_def expired_mono split: option.splits)

lemma alive_idem [simp]: "alive t (alive t e) = alive t e"
  by (simp add: alive_alive)

lemma not_expired_expiry: "0 \<le> d \<Longrightarrow> \<not> expired now (expiry now d)"
  by (simp add: expiry_def)

end
