(* ===== verification/Backend.thy ===== *)
theory Backend
  imports Ports
begin

section \<open>Calls to PostgreSQL and Redis\<close>

text \<open>
  The two servers, the clock and the network. A world holds the time, the contents of the
  database and of Redis, and the environment's script: for each call that reaches the
  network, how long it takes and whether it is served, its request is lost, or it takes
  effect and its reply is lost. An empty script serves calls at once. A call whose context
  is done, before or by the time it would be answered, fails without effect, except where
  the script says that the effect took place. Properties quantify over all scripts, so they
  hold for every pattern of delays and failures.
\<close>

datatype outcome = Served | LostRequest string | LostReply string

record ('d, 'r) world =
  w_now :: gotime
  w_script :: "(nat \<times> outcome) list"
  w_db :: 'd
  w_rd :: 'r

definition next_outcome :: "('d, 'r) world \<Rightarrow> nat \<times> outcome" where
  "next_outcome w = (case w_script w of [] \<Rightarrow> (0, Served) | x # _ \<Rightarrow> x)"

definition pass_time :: "('d, 'r) world \<Rightarrow> ('d, 'r) world" where
  "pass_time w = w\<lparr>w_now := w_now w + int (fst (next_outcome w)), w_script := tl (w_script w)\<rparr>"

definition remote :: "ctx \<Rightarrow> (('d, 'r) world, 'a) io \<Rightarrow> (('d, 'r) world, 'a) io" where
  "remote ctx f w =
     (if ctx_done ctx (w_now w) then (w, Inl CtxError)
      else case snd (next_outcome w) of
        Served \<Rightarrow>
          if ctx_done ctx (w_now (pass_time w)) then (pass_time w, Inl CtxError) else f (pass_time w)
      | LostRequest msg \<Rightarrow> (pass_time w, Inl (PlainError msg))
      | LostReply msg \<Rightarrow> (fst (f (pass_time w)), Inl (PlainError msg)))"

text \<open>A statement on the database and a command on Redis, each atomic at the server.\<close>

definition db_call :: "ctx \<Rightarrow> (gotime \<Rightarrow> 'd \<Rightarrow> 'd \<times> (go_error + 'a)) \<Rightarrow> (('d, 'r) world, 'a) io" where
  "db_call ctx g = remote ctx (\<lambda>w. case g (w_now w) (w_db w) of (d, r) \<Rightarrow> (w\<lparr>w_db := d\<rparr>, r))"

definition rd_call :: "ctx \<Rightarrow> (gotime \<Rightarrow> 'r \<Rightarrow> 'r \<times> (go_error + 'a)) \<Rightarrow> (('d, 'r) world, 'a) io" where
  "rd_call ctx g = remote ctx (\<lambda>w. case g (w_now w) (w_rd w) of (d, r) \<Rightarrow> (w\<lparr>w_rd := d\<rparr>, r))"

subsection \<open>What a call can do\<close>

lemma pass_time_simps [simp]:
  "w_db (pass_time w) = w_db w" "w_rd (pass_time w) = w_rd w"
  "w_now w \<le> w_now (pass_time w)"
  by (simp_all add: pass_time_def)

lemma db_call_cases:
  assumes "db_call ctx g w = (w', r)"
  obtains (no_effect) "w_db w' = w_db w" "w_rd w' = w_rd w" "w_now w \<le> w_now w'"
      "\<exists>e. r = Inl e"
    | (served) d where "g (w_now w') (w_db w) = (d, r)" "w_db w' = d" "w_rd w' = w_rd w"
      "w_now w \<le> w_now w'" "\<not> ctx_done ctx (w_now w')"
    | (reply_lost) d r' where "g (w_now w') (w_db w) = (d, r')" "w_db w' = d" "w_rd w' = w_rd w"
      "w_now w \<le> w_now w'" "\<exists>m. r = Inl (PlainError m)"
proof -
  obtain d r' where g: "g (w_now (pass_time w)) (w_db w) = (d, r')" by fastforce
  show ?thesis
    using assms g no_effect served reply_lost
    by (auto simp: db_call_def remote_def split: if_splits outcome.splits)
qed

lemma rd_call_cases:
  assumes "rd_call ctx g w = (w', r)"
  obtains (no_effect) "w_rd w' = w_rd w" "w_db w' = w_db w" "w_now w \<le> w_now w'"
      "\<exists>e. r = Inl e \<and> e \<noteq> RedisNil"
    | (served) d where "g (w_now w') (w_rd w) = (d, r)" "w_rd w' = d" "w_db w' = w_db w"
      "w_now w \<le> w_now w'" "\<not> ctx_done ctx (w_now w')"
    | (reply_lost) d r' where "g (w_now w') (w_rd w) = (d, r')" "w_rd w' = d" "w_db w' = w_db w"
      "w_now w \<le> w_now w'" "\<exists>m. r = Inl (PlainError m)"
proof -
  obtain d r' where g: "g (w_now (pass_time w)) (w_rd w) = (d, r')" by fastforce
  show ?thesis
    using assms g no_effect served reply_lost
    by (auto simp: rd_call_def remote_def split: if_splits outcome.splits)
qed

lemma db_call_frame [frame_simps]:
  "w_rd (fst (db_call ctx g w)) = w_rd w"
  by (rule db_call_cases [of ctx g w "fst (db_call ctx g w)" "snd (db_call ctx g w)"]) auto

lemma rd_call_frame [frame_simps]:
  "w_db (fst (rd_call ctx g w)) = w_db w"
  by (rule rd_call_cases [of ctx g w "fst (rd_call ctx g w)" "snd (rd_call ctx g w)"]) auto

lemma db_call_time: "w_now w \<le> w_now (fst (db_call ctx g w))"
  by (rule db_call_cases [of ctx g w "fst (db_call ctx g w)" "snd (db_call ctx g w)"]) auto

lemma rd_call_time: "w_now w \<le> w_now (fst (rd_call ctx g w))"
  by (rule rd_call_cases [of ctx g w "fst (rd_call ctx g w)" "snd (rd_call ctx g w)"]) auto

lemma db_call_Inr:
  assumes "db_call ctx g w = (w', Inr v)"
  shows "g (w_now w') (w_db w) = (w_db w', Inr v)" "w_rd w' = w_rd w" "w_now w \<le> w_now w'"
  using assms by (rule db_call_cases; auto)+

lemma rd_call_Inr:
  assumes "rd_call ctx g w = (w', Inr v)"
  shows "g (w_now w') (w_rd w) = (w_rd w', Inr v)" "w_db w' = w_db w" "w_now w \<le> w_now w'"
  using assms by (rule rd_call_cases; auto)+

text \<open>An error is the statement's own, or one that carries no code of the service.\<close>

lemma db_call_Inl:
  assumes "db_call ctx g w = (w', Inl e)"
  shows "errors_As e = None \<and> e \<noteq> ErrNoRows \<or> (\<exists>d t. g t (w_db w) = (d, Inl e))"
  using assms
  by (auto simp: db_call_def remote_def split: if_splits outcome.splits prod.splits)

lemma rd_call_Inl:
  assumes "rd_call ctx g w = (w', Inl e)"
  shows "errors_As e = None \<or> (\<exists>d t. g t (w_rd w) = (d, Inl e))"
  using assms
  by (auto simp: rd_call_def remote_def split: if_splits outcome.splits prod.splits)

lemma db_call_db:
  "w_db (fst (db_call ctx g w)) = w_db w \<or> (\<exists>t \<ge> w_now w. w_db (fst (db_call ctx g w)) = fst (g t (w_db w)))"
proof -
  obtain w' r where c: "db_call ctx g w = (w', r)" by fastforce
  from c show ?thesis by (rule db_call_cases) (auto simp: c intro!: exI [of _ "w_now w'"])
qed

lemma db_call_read:
  assumes "\<And>t d. fst (g t d) = d"
  shows "w_db (fst (db_call ctx g w)) = w_db w"
  using db_call_db [of ctx g w] assms by auto

lemma call_ctx_done:
  assumes "ctx_done ctx (w_now w)"
  shows "db_call ctx g w = (w, Inl CtxError)" "rd_call ctx h w = (w, Inl CtxError)"
  using assms by (simp_all add: db_call_def rd_call_def remote_def)

text \<open>On an undisturbed network a call is served at once.\<close>

definition undisturbed :: "ctx \<Rightarrow> ('d, 'r) world \<Rightarrow> bool" where
  "undisturbed ctx w \<longleftrightarrow> w_script w = [] \<and> \<not> ctx_done ctx (w_now w)"

lemma pass_time_undisturbed: "w_script w = [] \<Longrightarrow> pass_time w = w"
  by (simp add: pass_time_def next_outcome_def)

lemma db_call_undisturbed:
  "undisturbed ctx w \<Longrightarrow> db_call ctx g w = (case g (w_now w) (w_db w) of (d, r) \<Rightarrow> (w\<lparr>w_db := d\<rparr>, r))"
  by (simp add: db_call_def remote_def undisturbed_def next_outcome_def pass_time_undisturbed)

lemma rd_call_undisturbed:
  "undisturbed ctx w \<Longrightarrow> rd_call ctx g w = (case g (w_now w) (w_rd w) of (d, r) \<Rightarrow> (w\<lparr>w_rd := d\<rparr>, r))"
  by (simp add: rd_call_def remote_def undisturbed_def next_outcome_def pass_time_undisturbed)

lemma undisturbed_update [simp]:
  "undisturbed ctx (w\<lparr>w_db := d\<rparr>) = undisturbed ctx w"
  "undisturbed ctx (w\<lparr>w_rd := r\<rparr>) = undisturbed ctx w"
  by (simp_all add: undisturbed_def)

end
