(* ===== verification/Pg_Schema.thy ===== *)
theory Pg_Schema
  imports Sql_Ops Domain Backend
begin

section \<open>The tables and their constraints\<close>

text \<open>
  The schema of \<open>internal/infrastructure/postgres/migrations/0001_init.sql\<close>: one record per
  table, with the columns the statements read or write (surrogate keys that nothing reads
  are left out), and the constraints as checks of the inserting statements. Dates are day
  numbers, \<open>timestamptz\<close> values are instants, \<open>jsonb\<close> values are documents.
\<close>

record source_row =
  src_id :: int
  src_slug :: string
  src_is_active :: bool

record event_row =
  ev_source_id :: int
  ev_external_ref :: string
  ev_entity_id :: string
  ev_status :: string
  ev_processing_ms :: int
  ev_amount_cents :: int
  ev_occurred_at :: gotime
  ev_payload :: json

record definition_row =
  df_slug :: string
  df_name :: string
  df_description :: string
  df_cache_ttl_seconds :: int
  df_default_window :: string
  df_is_public :: bool
  df_supported_filters :: json
  df_updated_at :: gotime

record window_row =
  aw_report_slug :: string
  aw_window_name :: string
  aw_retention_days :: int
  aw_refresh_interval_minutes :: int
  aw_is_default :: bool

record run_row =
  rn_id :: string
  rn_report_slug :: string
  rn_window_name :: string
  rn_date_from :: int
  rn_date_to :: int
  rn_requested_by :: string
  rn_status :: string
  rn_requested_at :: gotime
  rn_started_at :: "gotime option"
  rn_finished_at :: "gotime option"
  rn_error_message :: "string option"
  rn_summary :: json

record snapshot_row =
  sn_report_slug :: string
  sn_window_name :: string
  sn_bucket_start :: gotime
  sn_dimension_key :: string
  sn_dimension_value :: string
  sn_metric_name :: string
  sn_metric_value :: int
  sn_computed_at :: gotime
  sn_run_id :: "string option"

record audit_row =
  ar_id :: int
  ar_actor :: string
  ar_action :: string
  ar_resource_type :: string
  ar_resource_id :: "string option"
  ar_metadata :: json
  ar_created_at :: gotime

text \<open>\<open>db_uuids\<close> and \<open>db_audit_seq\<close> count the values drawn from the two generators.\<close>

record pgdb =
  db_sources :: "source_row list"
  db_events :: "event_row list"
  db_definitions :: "definition_row list"
  db_windows :: "window_row list"
  db_runs :: "run_row list"
  db_snapshots :: "snapshot_row list"
  db_audits :: "audit_row list"
  db_uuids :: nat
  db_audit_seq :: int

text \<open>
  What the server adds to the statements, as parameters: \<open>gen_random_uuid()\<close> as the sequence
  of its values, the conversion of a text to a \<open>uuid\<close> (\<open>None\<close>: not a UUID; else its
  canonical text), and the collation that orders texts. The locale states what they are
  documented to do.
\<close>

record pg_server =
  pgs_uuid :: "nat \<Rightarrow> string"
  pgs_uuid_text :: "string \<Rightarrow> string option"
  pgs_text_le :: "string \<Rightarrow> string \<Rightarrow> bool"

locale postgres_server =
  fixes pg :: pg_server
  assumes uuid_text: "pgs_uuid_text pg (pgs_uuid pg n) = Some (pgs_uuid pg n)"
    and uuid_fresh: "pgs_uuid pg m = pgs_uuid pg n \<Longrightarrow> m = n"
    and uuid_canonical: "pgs_uuid_text pg s = Some c \<Longrightarrow> pgs_uuid_text pg c = Some c"
    and text_order: "total_preorder (pgs_text_le pg)"

definition pg_error :: "string \<Rightarrow> go_error" where
  "pg_error msg = PlainError (''ERROR: '' @ msg)"

subsection \<open>Constraints\<close>

definition window_ok :: "string \<Rightarrow> bool" where
  "window_ok u \<longleftrightarrow> u \<in> set [''day'', ''week'']"

definition status_ok :: "string \<Rightarrow> bool" where
  "status_ok st \<longleftrightarrow> st \<in> set [''pending'', ''running'', ''completed'', ''failed'']"

definition event_status_ok :: "string \<Rightarrow> bool" where
  "event_status_ok st \<longleftrightarrow> st \<in> set [''success'', ''failed'', ''pending'']"

definition event_ok :: "source_row list \<Rightarrow> event_row \<Rightarrow> bool" where
  "event_ok sources e \<longleftrightarrow>
     event_status_ok (ev_status e) \<and> 0 \<le> ev_processing_ms e \<and> 0 \<le> ev_amount_cents e \<and>
     ev_source_id e \<in> set (map src_id sources)"

definition report_exists :: "pgdb \<Rightarrow> string \<Rightarrow> bool" where
  "report_exists d slug \<longleftrightarrow> slug \<in> set (map df_slug (db_definitions d))"

definition run_exists :: "pgdb \<Rightarrow> string \<Rightarrow> bool" where
  "run_exists d rid \<longleftrightarrow> rid \<in> set (map rn_id (db_runs d))"

text \<open>The columns of the unique constraint of \<open>metric_snapshots\<close>.\<close>

definition snapshot_key :: "snapshot_row \<Rightarrow> string \<times> string \<times> gotime \<times> string \<times> string \<times> string" where
  "snapshot_key r =
     (sn_report_slug r, sn_window_name r, sn_bucket_start r, sn_dimension_key r,
      sn_dimension_value r, sn_metric_name r)"

definition snapshot_ok :: "pgdb \<Rightarrow> snapshot_row \<Rightarrow> bool" where
  "snapshot_ok d r \<longleftrightarrow>
     report_exists d (sn_report_slug r) \<and> window_ok (sn_window_name r) \<and>
     (case sn_run_id r of None \<Rightarrow> True | Some i \<Rightarrow> run_exists d i)"

definition insert_snapshots :: "snapshot_row list \<Rightarrow> pgdb \<Rightarrow> go_error + pgdb" where
  "insert_snapshots rows d =
     (if \<not> list_all (snapshot_ok d) rows then Inl (pg_error ''insert violates a constraint'')
      else if \<not> distinct (map snapshot_key (db_snapshots d @ rows))
        then Inl (pg_error ''duplicate key value violates unique constraint'')
      else Inr (d\<lparr>db_snapshots := db_snapshots d @ rows\<rparr>))"

definition insert_run :: "run_row \<Rightarrow> pgdb \<Rightarrow> go_error + pgdb" where
  "insert_run r d =
     (if \<not> report_exists d (rn_report_slug r) \<or> \<not> window_ok (rn_window_name r)
         \<or> \<not> status_ok (rn_status r)
        then Inl (pg_error ''insert violates a constraint'')
      else if run_exists d (rn_id r)
        then Inl (pg_error ''duplicate key value violates unique constraint'')
      else Inr (d\<lparr>db_runs := db_runs d @ [r]\<rparr>))"

text \<open>What the constraints keep true of the whole database.\<close>

definition db_consistent :: "pgdb \<Rightarrow> bool" where
  "db_consistent d \<longleftrightarrow>
     distinct (map df_slug (db_definitions d)) \<and>
     distinct (map src_id (db_sources d)) \<and> distinct (map src_slug (db_sources d)) \<and>
     distinct (map ev_external_ref (db_events d)) \<and> list_all (event_ok (db_sources d)) (db_events d) \<and>
     distinct (map rn_id (db_runs d)) \<and> list_all (\<lambda>r. status_ok (rn_status r)) (db_runs d) \<and>
     distinct (map snapshot_key (db_snapshots d)) \<and> list_all (snapshot_ok d) (db_snapshots d)"

lemma insert_snapshots_Inr_iff:
  "insert_snapshots rows d = Inr d' \<longleftrightarrow>
     list_all (snapshot_ok d) rows \<and> distinct (map snapshot_key (db_snapshots d @ rows)) \<and>
     d' = d\<lparr>db_snapshots := db_snapshots d @ rows\<rparr>"
  by (auto simp: insert_snapshots_def simp del: map_append)

lemma insert_run_Inr_iff:
  "insert_run r d = Inr d' \<longleftrightarrow>
     report_exists d (rn_report_slug r) \<and> window_ok (rn_window_name r) \<and> status_ok (rn_status r) \<and>
     \<not> run_exists d (rn_id r) \<and> d' = d\<lparr>db_runs := db_runs d @ [r]\<rparr>"
  by (auto simp: insert_run_def)

lemma snapshot_ok_update [simp]:
  "snapshot_ok (d\<lparr>db_snapshots := S\<rparr>) = snapshot_ok d"
  by (rule ext) (simp add: snapshot_ok_def report_exists_def run_exists_def split: option.split)

end
