(* ===== verification/Pg_Recompute.thy ===== *)
theory Pg_Recompute
  imports Pg_Schema
begin

section \<open>Rebuilding a snapshot range\<close>

text \<open>
  \<open>Store.RecomputeReport\<close> of \<open>internal/infrastructure/postgres/store.go\<close>: one transaction
  that deletes the snapshots of the affected buckets, aggregates the raw events of the
  requested days into new ones and counts the buckets. The statements are functions on the
  database; inside the transaction they act on its working copy, which \<open>COMMIT\<close> publishes.
\<close>

subsection \<open>The statements\<close>

text \<open>The range of the \<open>DELETE\<close> and of the bucket count.\<close>

definition affected_bucket :: "string \<Rightarrow> gotime \<Rightarrow> gotime \<Rightarrow> gotime \<Rightarrow> bool" where
  "affected_bucket win fromTS toExclusive b \<longleftrightarrow>
     date_trunc win fromTS \<le> b \<and> b < date_trunc win toExclusive + window_length win"

definition affected_snapshot :: "string \<Rightarrow> string \<Rightarrow> gotime \<Rightarrow> gotime \<Rightarrow> snapshot_row \<Rightarrow> bool" where
  "affected_snapshot slug win fromTS toExclusive r \<longleftrightarrow>
     sn_report_slug r = slug \<and> sn_window_name r = win \<and>
     affected_bucket win fromTS toExclusive (sn_bucket_start r)"

definition sql_delete :: "string \<Rightarrow> string \<Rightarrow> gotime \<Rightarrow> gotime \<Rightarrow> pgdb \<Rightarrow> pgdb \<times> int" where
  "sql_delete slug win fromTS toExclusive d =
     (let gone = filter (affected_snapshot slug win fromTS toExclusive) (db_snapshots d)
      in (d\<lparr>db_snapshots := filter (\<lambda>r. \<not> affected_snapshot slug win fromTS toExclusive r) (db_snapshots d)\<rparr>,
          int (length gone)))"

definition events_between :: "gotime \<Rightarrow> gotime \<Rightarrow> pgdb \<Rightarrow> event_row list" where
  "events_between fromTS toExclusive d =
     filter (\<lambda>e. fromTS \<le> ev_occurred_at e \<and> ev_occurred_at e < toExclusive) (db_events d)"

text \<open>
  The dimension of each report: the source's slug through the join, the status, the entity.
  \<open>None\<close>: the \<open>switch\<close> has no case for the slug.
\<close>

definition dimension_key_of :: "string \<Rightarrow> string option" where
  "dimension_key_of slug =
     (if slug = ''volume-by-period'' then Some ''source''
      else if slug = ''status-counts'' then Some ''status''
      else if slug = ''top-entities'' then Some ''entity_id''
      else None)"

definition event_groups :: "string \<Rightarrow> string \<Rightarrow> gotime \<Rightarrow> gotime \<Rightarrow> pgdb \<Rightarrow> (gotime \<times> string) list" where
  "event_groups slug win fromTS toExclusive d =
     (if slug = ''volume-by-period'' then
        [(date_trunc win (ev_occurred_at e), src_slug s).
           e \<leftarrow> events_between fromTS toExclusive d, s \<leftarrow> db_sources d, src_id s = ev_source_id e]
      else if slug = ''status-counts'' then
        [(date_trunc win (ev_occurred_at e), ev_status e). e \<leftarrow> events_between fromTS toExclusive d]
      else
        [(date_trunc win (ev_occurred_at e), ev_entity_id e). e \<leftarrow> events_between fromTS toExclusive d])"

definition aggregated ::
    "string \<Rightarrow> string \<Rightarrow> string \<Rightarrow> gotime \<Rightarrow> gotime \<Rightarrow> gotime \<Rightarrow> string \<Rightarrow> pgdb \<Rightarrow> snapshot_row list" where
  "aggregated slug dim win fromTS toExclusive now runID d =
     map (\<lambda>((b, v), n).
        \<lparr>sn_report_slug = slug, sn_window_name = win, sn_bucket_start = b, sn_dimension_key = dim,
         sn_dimension_value = v, sn_metric_name = ''event_count'', sn_metric_value = n,
         sn_computed_at = now, sn_run_id = Some runID\<rparr>)
       (group_counts (event_groups slug win fromTS toExclusive d))"

definition sql_aggregate_insert ::
    "pg_server \<Rightarrow> string \<Rightarrow> string \<Rightarrow> string \<Rightarrow> gotime \<Rightarrow> gotime \<Rightarrow> gotime \<Rightarrow> string \<Rightarrow> pgdb
     \<Rightarrow> go_error + pgdb \<times> int" where
  "sql_aggregate_insert pg slug dim win fromTS toExclusive now runID d =
     (case pgs_uuid_text pg runID of
        None \<Rightarrow> Inl (pg_error ''invalid input syntax for type uuid'')
      | Some rid \<Rightarrow>
          (let rows = aggregated slug dim win fromTS toExclusive now rid d in
           case insert_snapshots rows d of
             Inl err \<Rightarrow> Inl err
           | Inr d' \<Rightarrow> Inr (d', int (length rows))))"

definition sql_count_buckets :: "string \<Rightarrow> string \<Rightarrow> gotime \<Rightarrow> gotime \<Rightarrow> pgdb \<Rightarrow> int" where
  "sql_count_buckets slug win fromTS toExclusive d =
     int (length (remdups (map sn_bucket_start
       (filter (affected_snapshot slug win fromTS toExclusive) (db_snapshots d)))))"

subsection \<open>The transaction\<close>

text \<open>A statement on a transaction's working copy, and the \<open>COMMIT\<close> that publishes it.\<close>

definition tx_call ::
    "ctx \<Rightarrow> (pgdb \<Rightarrow> go_error + pgdb \<times> 'a) \<Rightarrow> pgdb \<Rightarrow> ((pgdb, 'r) world, pgdb \<times> 'a) io" where
  "tx_call ctx stmt copy = remote ctx (\<lambda>w. (w, stmt copy))"

definition tx_commit :: "ctx \<Rightarrow> pgdb \<Rightarrow> ((pgdb, 'r) world, unit) io" where
  "tx_commit ctx copy = db_call ctx (\<lambda>now d. (copy, Inr ()))"

definition fromTS_of :: "RecomputeRequest \<Rightarrow> gotime" where
  "fromTS_of rq = start_of_day (rq_DateFrom rq)"

definition toExclusive_of :: "RecomputeRequest \<Rightarrow> gotime" where
  "toExclusive_of rq = AddDays (start_of_day (rq_DateTo rq)) 1"

definition Store_RecomputeReport ::
    "pg_server \<Rightarrow> ctx \<Rightarrow> RecomputeRequest \<Rightarrow> string \<Rightarrow> ((pgdb, 'r) world, RecomputeSummary) io" where
  "Store_RecomputeReport pg ctx request runID w0 =
     (let fromTS = fromTS_of request; toExclusive = toExclusive_of request;
          slug = rq_ReportSlug request; win = rq_Window request in
      case remote ctx (\<lambda>w. (w, Inr (w_db w, w_now w))) w0 of
        (w1, Inl err) \<Rightarrow> (w1, Inl err)
      | (w1, Inr (copy0, now)) \<Rightarrow>
     (case tx_call ctx (\<lambda>d. Inr (sql_delete slug win fromTS toExclusive d)) copy0 w1 of
        (w2, Inl err) \<Rightarrow> (w2, Inl err)
      | (w2, Inr (copy1, deleted)) \<Rightarrow>
     (case dimension_key_of slug of
        None \<Rightarrow> (w2, Inl (NewAppError ErrCodeInvalid ''unsupported report slug for recompute''))
      | Some dim \<Rightarrow>
     (case tx_call ctx (sql_aggregate_insert pg slug dim win fromTS toExclusive now runID) copy1 w2 of
        (w3, Inl err) \<Rightarrow> (w3, Inl err)
      | (w3, Inr (copy2, inserted)) \<Rightarrow>
     (case tx_call ctx (\<lambda>d. Inr (d, sql_count_buckets slug win fromTS toExclusive d)) copy2 w3 of
        (w4, Inl err) \<Rightarrow> (w4, Inl err)
      | (w4, Inr (copy3, buckets)) \<Rightarrow>
     (case tx_commit ctx copy3 w4 of
        (w5, Inl err) \<Rightarrow> (w5, Inl err)
      | (w5, Inr _) \<Rightarrow>
          (w5, Inr \<lparr>sum_RowsDeleted = deleted, sum_RowsInserted = inserted,
                    sum_BucketCount = buckets\<rparr>)))))))"

text \<open>The whole transaction as one function on the database.\<close>

definition recompute_tx ::
    "pg_server \<Rightarrow> RecomputeRequest \<Rightarrow> string \<Rightarrow> gotime \<Rightarrow> pgdb \<Rightarrow> go_error + pgdb \<times> RecomputeSummary" where
  "recompute_tx pg request runID now d =
     (let fromTS = fromTS_of request; toExclusive = toExclusive_of request;
          slug = rq_ReportSlug request; win = rq_Window request;
          (d1, deleted) = sql_delete slug win fromTS toExclusive d in
      case dimension_key_of slug of
        None \<Rightarrow> Inl (NewAppError ErrCodeInvalid ''unsupported report slug for recompute'')
      | Some dim \<Rightarrow>
          (case sql_aggregate_insert pg slug dim win fromTS toExclusive now runID d1 of
             Inl err \<Rightarrow> Inl err
           | Inr (d2, inserted) \<Rightarrow>
               Inr (d2, \<lparr>sum_RowsDeleted = deleted, sum_RowsInserted = inserted,
                         sum_BucketCount = sql_count_buckets slug win fromTS toExclusive d2\<rparr>)))"


subsection \<open>The calls implement the transaction\<close>

lemma remote_undisturbed: "undisturbed ctx w \<Longrightarrow> remote ctx f w = f w"
  by (simp add: remote_def undisturbed_def next_outcome_def pass_time_undisturbed)

lemma Store_RecomputeReport_undisturbed:
  assumes "undisturbed ctx w"
  shows "Store_RecomputeReport pg ctx rq runID w =
    (case recompute_tx pg rq runID (w_now w) (w_db w) of
       Inl err \<Rightarrow> (w, Inl err)
     | Inr (d, summary) \<Rightarrow> (w\<lparr>w_db := d\<rparr>, Inr summary))"
  using assms
  by (auto simp: Store_RecomputeReport_def recompute_tx_def tx_call_def tx_commit_def Let_def
      remote_undisturbed db_call_undisturbed split: option.splits sum.splits prod.splits)

text \<open>Before the \<open>COMMIT\<close> nothing but the clock and the script changes.\<close>

definition tx_frame :: "('d, 'r) world \<Rightarrow> ('d, 'r) world \<Rightarrow> bool" where
  "tx_frame w w' \<longleftrightarrow> w_db w' = w_db w \<and> w_rd w' = w_rd w \<and> w_now w \<le> w_now w'"

lemma tx_frame_trans: "tx_frame w w1 \<Longrightarrow> tx_frame w1 w2 \<Longrightarrow> tx_frame w w2"
  by (auto simp: tx_frame_def)

lemma tx_chain:
  assumes "(case remote ctx (\<lambda>w. (w, h w)) w of (w1, Inl e) \<Rightarrow> (w1, Inl e) | (w1, Inr v) \<Rightarrow> k w1 v) = (w', r)"
  obtains (stop) e where "r = Inl e" "tx_frame w w'"
    | (go) w1 v where "h w1 = Inr v" "tx_frame w w1" "k w1 v = (w', r)"
  using assms by (auto simp: remote_def tx_frame_def split: if_splits outcome.splits sum.splits)

lemma recompute_txI:
  assumes "sql_delete (rq_ReportSlug rq) (rq_Window rq) (fromTS_of rq) (toExclusive_of rq) d = (d1, deleted)"
    and "dimension_key_of (rq_ReportSlug rq) = Some dim"
    and "sql_aggregate_insert pg (rq_ReportSlug rq) dim (rq_Window rq) (fromTS_of rq) (toExclusive_of rq) t runID d1 =
      Inr (d2, inserted)"
  shows "recompute_tx pg rq runID t d = Inr (d2, \<lparr>sum_RowsDeleted = deleted, sum_RowsInserted = inserted,
    sum_BucketCount = sql_count_buckets (rq_ReportSlug rq) (rq_Window rq) (fromTS_of rq) (toExclusive_of rq) d2\<rparr>)"
  using assms by (simp add: recompute_tx_def Let_def)

text \<open>So a rebuild ends before its \<open>COMMIT\<close> with an error, or commits what the transaction computes.\<close>

lemma Store_RecomputeReport_commits:
  assumes "Store_RecomputeReport pg ctx rq runID w = (w', r)"
  obtains (aborted) e where "r = Inl e" "tx_frame w w'"
    | (committing) w4 t d summary where
      "(case tx_commit ctx d w4 of (w5, Inl e) \<Rightarrow> (w5, Inl e) | (w5, Inr u) \<Rightarrow> (w5, Inr summary)) = (w', r)"
      "recompute_tx pg rq runID t (w_db w) = Inr (d, summary)" "w_now w \<le> t" "tx_frame w w4"
  using assms [unfolded Store_RecomputeReport_def Let_def tx_call_def]
proof (cases rule: tx_chain)
  case opened: (go w1 v)
  then have v: "v = (w_db w, w_now w1)" by (auto simp: tx_frame_def)
  from opened(3) [unfolded v prod.case] show thesis
  proof (cases rule: tx_chain)
    case del: (go w2 x)
    obtain d1 n1 where x: "x = (d1, n1)" by fastforce
    note f2 = tx_frame_trans [OF opened(2) del(2)]
    show thesis
    proof (cases "dimension_key_of (rq_ReportSlug rq)")
      case None
      with del(3) f2 show thesis by (auto simp: x intro: aborted)
    next
      case (Some dim)
      from del(3) [unfolded x prod.case Some option.case] show thesis
      proof (cases rule: tx_chain)
        case ins: (go w3 y)
        obtain d2 n2 where y: "y = (d2, n2)" by fastforce
        note f3 = tx_frame_trans [OF f2 ins(2)]
        from del(1) ins(1) have tx: "recompute_tx pg rq runID (w_now w1) (w_db w) = Inr (d2, \<lparr>sum_RowsDeleted = n1,
            sum_RowsInserted = n2, sum_BucketCount = sql_count_buckets (rq_ReportSlug rq) (rq_Window rq)
              (fromTS_of rq) (toExclusive_of rq) d2\<rparr>)"
          by (intro recompute_txI [OF _ Some]) (simp_all add: x y)
        from ins(3) [unfolded y prod.case] show thesis
        proof (cases rule: tx_chain)
          case (go w4 z)
          with tx opened(2) tx_frame_trans [OF f3 go(2)] show thesis
            by (intro committing [OF _ tx, of w4]) (auto simp: tx_frame_def)
        qed (erule aborted, erule tx_frame_trans [OF f3])
      qed (erule aborted, erule tx_frame_trans [OF f2])
    qed
  qed (erule aborted, erule tx_frame_trans [OF opened(2)])
qed (rule aborted)

lemma Store_RecomputeReport_atomic:
  assumes "Store_RecomputeReport pg ctx rq runID w = (w', r)"
  shows "w_rd w' = w_rd w \<and> w_now w \<le> w_now w' \<and>
    (w_db w' = w_db w \<and> (\<exists>e. r = Inl e) \<or>
     (\<exists>t d summary. w_now w \<le> t \<and> recompute_tx pg rq runID t (w_db w) = Inr (d, summary) \<and>
        w_db w' = d \<and> (r = Inr summary \<or> (\<exists>m. r = Inl (PlainError m)))))"
  using assms
proof (cases rule: Store_RecomputeReport_commits)
  case (committing w4 t d summary)
  obtain w5 x where c: "tx_commit ctx d w4 = (w5, x)" by fastforce
  with committing(1) have w5: "w5 = w'" "x = Inr () \<and> r = Inr summary \<or> (\<exists>e. x = Inl e \<and> r = Inl e)"
    by (auto split: sum.splits)
  have f: "w_db w4 = w_db w" "w_rd w4 = w_rd w" "w_now w \<le> w_now w4" using committing(4) by (simp_all add: tx_frame_def)
  from c [unfolded tx_commit_def w5(1)] show ?thesis
  proof (cases rule: db_call_cases)
    case no_effect
    with f w5(2) show ?thesis by auto
  next
    case (served d')
    with f w5(2) committing(2,3) show ?thesis by auto
  next
    case (reply_lost d' r')
    with f w5(2) committing(2,3) show ?thesis by auto
  qed
qed (auto simp: tx_frame_def)

end
