(* ===== verification/Snapshot_Facts.thy ===== *)
theory Snapshot_Facts
  imports Pg_Recompute
begin

section \<open>What a recompute leaves in the snapshot table\<close>

text \<open>
  The result of the transaction of \<open>Pg_Recompute\<close> in closed form, the specification of a
  bucket's count over the raw events, and the lemmas that connect the two: which rows are
  deleted, which are rebuilt, what stays, and that the constraints of the schema hold after.
\<close>

subsection \<open>Closed form\<close>

definition snapshots_outside :: "RecomputeRequest \<Rightarrow> pgdb \<Rightarrow> snapshot_row list" where
  "snapshots_outside rq d = filter
     (\<lambda>r. \<not> affected_snapshot (rq_ReportSlug rq) (rq_Window rq) (fromTS_of rq) (toExclusive_of rq) r)
     (db_snapshots d)"

definition rebuilt_snapshots :: "RecomputeRequest \<Rightarrow> string \<Rightarrow> gotime \<Rightarrow> string \<Rightarrow> pgdb \<Rightarrow> snapshot_row list" where
  "rebuilt_snapshots rq dim now rid d =
     aggregated (rq_ReportSlug rq) dim (rq_Window rq) (fromTS_of rq) (toExclusive_of rq) now rid d"

lemma event_groups_update [simp]:
  "event_groups slug win f t (d\<lparr>db_snapshots := S\<rparr>) = event_groups slug win f t d"
  by (simp add: event_groups_def events_between_def)

lemma aggregated_update [simp]:
  "aggregated slug dim win f t now rid (d\<lparr>db_snapshots := S\<rparr>) = aggregated slug dim win f t now rid d"
  by (simp add: aggregated_def)

lemma recompute_tx_Inr:
  assumes "recompute_tx pg rq runID now d = Inr (d', summary)"
  obtains dim rid where "dimension_key_of (rq_ReportSlug rq) = Some dim"
    "pgs_uuid_text pg runID = Some rid"
    "d' = d\<lparr>db_snapshots := snapshots_outside rq d @ rebuilt_snapshots rq dim now rid d\<rparr>"
    "list_all (snapshot_ok d) (rebuilt_snapshots rq dim now rid d)"
    "distinct (map snapshot_key (snapshots_outside rq d @ rebuilt_snapshots rq dim now rid d))"
    "sum_RowsDeleted summary = int (length (db_snapshots d)) - int (length (snapshots_outside rq d))"
    "sum_RowsInserted summary = int (length (rebuilt_snapshots rq dim now rid d))"
    "sum_BucketCount summary =
       sql_count_buckets (rq_ReportSlug rq) (rq_Window rq) (fromTS_of rq) (toExclusive_of rq) d'"
proof -
  let ?A = "affected_snapshot (rq_ReportSlug rq) (rq_Window rq) (fromTS_of rq) (toExclusive_of rq)"
  have len: "int (length (filter ?A (db_snapshots d))) =
      int (length (db_snapshots d)) - int (length (snapshots_outside rq d))"
    using sum_length_filter_compl [of ?A "db_snapshots d"] unfolding snapshots_outside_def by linarith
  from assms show ?thesis
    by (auto simp: recompute_tx_def sql_delete_def sql_aggregate_insert_def Let_def
        snapshots_outside_def [symmetric] rebuilt_snapshots_def [symmetric]
        insert_snapshots_Inr_iff len split: option.splits sum.splits simp del: map_append intro!: that)
qed

subsection \<open>Buckets\<close>

lemma affected_bucket_event:
  "f \<le> t \<Longrightarrow> t < e \<Longrightarrow> affected_bucket win f e (date_trunc win t)"
  using date_trunc_mono [of f t win] date_trunc_mono [of t e win] window_length_pos [of win]
  by (auto simp: affected_bucket_def simp del: window_length_pos)

lemma event_groups_bucket:
  "(b, v) \<in> set (event_groups slug win f e d) \<Longrightarrow> affected_bucket win f e b"
  by (auto simp: event_groups_def events_between_def affected_bucket_event split: if_splits)

lemma aggregated_rows:
  "r \<in> set (aggregated slug dim win f e now rid d) \<longleftrightarrow>
     (\<exists>b v. (b, v) \<in> set (event_groups slug win f e d) \<and>
        r = \<lparr>sn_report_slug = slug, sn_window_name = win, sn_bucket_start = b, sn_dimension_key = dim,
             sn_dimension_value = v, sn_metric_name = ''event_count'',
             sn_metric_value = int (count_list (event_groups slug win f e d) (b, v)),
             sn_computed_at = now, sn_run_id = Some rid\<rparr>)"
  by (auto simp: aggregated_def set_group_counts image_def)

lemma aggregated_affected:
  "r \<in> set (aggregated slug dim win f e now rid d) \<Longrightarrow> affected_snapshot slug win f e r"
  using event_groups_bucket by (fastforce simp: aggregated_rows affected_snapshot_def)

lemma aggregated_key_group:
  "r \<in> set (aggregated slug dim win f e now rid d) \<Longrightarrow> snapshot_key r = (s, w, b, k, v, m) \<Longrightarrow>
    (b, v) \<in> set (event_groups slug win f e d)"
  by (auto simp: aggregated_rows snapshot_key_def)

lemma aggregated_keys_distinct: "distinct (map snapshot_key (aggregated slug dim win f e now rid d))"
proof -
  have "map snapshot_key (aggregated slug dim win f e now rid d) =
      map (\<lambda>(b, v). (slug, win, b, dim, v, ''event_count'')) (remdups (event_groups slug win f e d))"
    by (simp add: aggregated_def group_counts_def snapshot_key_def comp_def case_prod_unfold)
  moreover have "inj (\<lambda>(b, v). (slug, win, b, dim, v, ''event_count''))"
    by (auto simp: inj_def)
  ultimately show ?thesis by (auto simp: distinct_map intro: inj_on_subset)
qed

lemma affected_key:
  "snapshot_key r = snapshot_key r' \<Longrightarrow> affected_snapshot slug win f e r = affected_snapshot slug win f e r'"
  by (simp add: snapshot_key_def affected_snapshot_def)

lemma outside_rebuilt_distinct:
  assumes "distinct (map snapshot_key (db_snapshots d))"
  shows "distinct (map snapshot_key (snapshots_outside rq d @ rebuilt_snapshots rq dim now rid d))"
proof -
  let ?A = "affected_snapshot (rq_ReportSlug rq) (rq_Window rq) (fromTS_of rq) (toExclusive_of rq)"
  have "snapshot_key r \<noteq> snapshot_key r'"
    if "r \<in> set (snapshots_outside rq d)" and "r' \<in> set (rebuilt_snapshots rq dim now rid d)" for r r'
    using that affected_key [of r r'] aggregated_affected
    by (auto simp: snapshots_outside_def rebuilt_snapshots_def)
  moreover have "distinct (map snapshot_key (snapshots_outside rq d))"
    using assms by (simp add: snapshots_outside_def distinct_map_filter)
  ultimately show ?thesis
    using aggregated_keys_distinct by (fastforce simp: rebuilt_snapshots_def)
qed

text \<open>The transaction goes through whenever its foreign keys exist; the unique constraint is never hit.\<close>

lemma recompute_tx_succeeds:
  assumes "distinct (map snapshot_key (db_snapshots d))" and "report_exists d (rq_ReportSlug rq)"
    and "window_ok (rq_Window rq)" and "dimension_key_of (rq_ReportSlug rq) = Some dim"
    and "pgs_uuid_text pg runID = Some rid" and "run_exists d rid"
  shows "\<exists>d' summary. recompute_tx pg rq runID now d = Inr (d', summary)"
proof -
  have "list_all (snapshot_ok d) (rebuilt_snapshots rq dim now rid d)"
    using assms by (auto simp: list_all_iff rebuilt_snapshots_def aggregated_rows snapshot_ok_def)
  with assms outside_rebuilt_distinct [OF assms(1), of rq dim now rid] show ?thesis
    by (auto simp: recompute_tx_def sql_delete_def sql_aggregate_insert_def Let_def insert_snapshots_def
        snapshots_outside_def [symmetric] rebuilt_snapshots_def [symmetric] simp del: map_append)
qed

lemma recompute_tx_consistent:
  assumes "recompute_tx pg rq runID now d = Inr (d', summary)" and "db_consistent d"
  shows "db_consistent d'"
  using assms(1)
proof (rule recompute_tx_Inr)
  fix dim rid
  assume d': "d' = d\<lparr>db_snapshots := snapshots_outside rq d @ rebuilt_snapshots rq dim now rid d\<rparr>"
    and ok: "list_all (snapshot_ok d) (rebuilt_snapshots rq dim now rid d)"
    and dist: "distinct (map snapshot_key (snapshots_outside rq d @ rebuilt_snapshots rq dim now rid d))"
  have "list_all (snapshot_ok d) (snapshots_outside rq d)"
    using assms(2) by (auto simp: db_consistent_def snapshots_outside_def list_all_iff)
  with ok dist assms(2) show ?thesis unfolding d' by (simp add: db_consistent_def)
qed

subsection \<open>The count of a bucket, stored and specified\<close>

text \<open>What a report reads for a bucket and a value of its dimension, zero where there is no row.\<close>

definition stored_count :: "pgdb \<Rightarrow> string \<Rightarrow> string \<Rightarrow> gotime \<Rightarrow> string \<Rightarrow> int" where
  "stored_count d slug win b v =
     (case dimension_key_of slug of
        None \<Rightarrow> 0
      | Some dim \<Rightarrow>
          (case map_of (map (\<lambda>r. (snapshot_key r, sn_metric_value r)) (db_snapshots d))
                  (slug, win, b, dim, v, ''event_count'') of
             None \<Rightarrow> 0
           | Some n \<Rightarrow> n))"

text \<open>The dimension of a raw event for a report, and the events of a bucket.\<close>

definition event_dimension :: "pgdb \<Rightarrow> string \<Rightarrow> event_row \<Rightarrow> string option" where
  "event_dimension d slug e =
     (if slug = ''volume-by-period''
        then map_of (map (\<lambda>s. (src_id s, src_slug s)) (db_sources d)) (ev_source_id e)
      else if slug = ''status-counts'' then Some (ev_status e)
      else Some (ev_entity_id e))"

definition bucket_events :: "pgdb \<Rightarrow> string \<Rightarrow> string \<Rightarrow> gotime \<Rightarrow> string \<Rightarrow> event_row list" where
  "bucket_events d slug win b v =
     filter (\<lambda>e. date_trunc win (ev_occurred_at e) = b \<and> event_dimension d slug e = Some v) (db_events d)"

definition in_range :: "RecomputeRequest \<Rightarrow> event_row \<Rightarrow> bool" where
  "in_range rq e \<longleftrightarrow> fromTS_of rq \<le> ev_occurred_at e \<and> ev_occurred_at e < toExclusive_of rq"

lemma joined_sources:
  assumes "distinct (map src_id S)" and "i \<in> set (map src_id S)"
  shows "[g (src_slug s). s \<leftarrow> S, src_id s = i] =
    [g (the (map_of (map (\<lambda>s. (src_id s, src_slug s)) S) i))]"
  using assms
proof (induction S)
  case Nil
  then show ?case by simp
next
  case (Cons s S)
  have none: "[g (src_slug s). s \<leftarrow> S, src_id s = i] = []" if "i \<notin> set (map src_id S)"
    using that by (auto simp: concat_eq_Nil_conv)
  show ?case using Cons none by (cases "src_id s = i") auto
qed

lemma event_groups_dimension:
  assumes "db_consistent d"
  shows "event_groups slug win f t d =
    map (\<lambda>e. (date_trunc win (ev_occurred_at e), the (event_dimension d slug e))) (events_between f t d)"
proof (cases "slug = ''volume-by-period''")
  case True
  have mem: "ev_source_id e \<in> set (map src_id (db_sources d))" if "e \<in> set (events_between f t d)" for e
    using assms that by (auto simp: db_consistent_def events_between_def event_ok_def list_all_iff)
  have dist: "distinct (map src_id (db_sources d))" using assms by (simp add: db_consistent_def)
  let ?g = "\<lambda>e. (date_trunc win (ev_occurred_at e), the (event_dimension d slug e))"
  have "event_groups slug win f t d = concat (map (\<lambda>e. [?g e]) (events_between f t d))"
    unfolding event_groups_def event_dimension_def if_P [OF True]
    by (intro arg_cong [of _ _ concat] map_cong refl) (simp only: joined_sources [OF dist mem])
  also have "\<dots> = map ?g (events_between f t d)" by simp
  finally show ?thesis .
qed (auto simp: event_groups_def event_dimension_def)

lemma event_dimension_total:
  assumes "db_consistent d" and "e \<in> set (db_events d)"
  shows "\<exists>v. event_dimension d slug e = Some v"
proof -
  have "ev_source_id e \<in> set (map src_id (db_sources d))"
    using assms by (auto simp: db_consistent_def event_ok_def list_all_iff)
  then have "map_of (map (\<lambda>s. (src_id s, src_slug s)) (db_sources d)) (ev_source_id e) \<noteq> None"
    by (simp add: map_of_eq_None_iff image_image)
  then show ?thesis by (simp add: event_dimension_def)
qed

lemma count_list_map_filter: "count_list (map g xs) y = length (filter (\<lambda>x. g x = y) xs)"
  by (induction xs) auto

lemma event_groups_count:
  assumes "db_consistent d"
  shows "count_list (event_groups (rq_ReportSlug rq) win (fromTS_of rq) (toExclusive_of rq) d) (b, v) =
    length (filter (in_range rq) (bucket_events d (rq_ReportSlug rq) win b v))"
proof -
  have "(the (event_dimension d slug e) = v) = (event_dimension d slug e = Some v)"
    if "e \<in> set (db_events d)" for e slug
    using event_dimension_total [OF assms that, of slug] by auto
  then show ?thesis
    unfolding event_groups_dimension [OF assms] count_list_map_filter
    by (auto simp: events_between_def bucket_events_def in_range_def intro!: arg_cong [of _ _ length]
        filter_cong)
qed

text \<open>Reading a row by its key.\<close>

lemma map_of_keyed_None:
  "k \<notin> f ` set xs \<Longrightarrow> map_of (map (\<lambda>x. (f x, g x)) xs) k = None"
  by (induction xs) auto

lemma map_of_keyed_append:
  "k \<notin> f ` set ys \<Longrightarrow>
    map_of (map (\<lambda>x. (f x, g x)) (xs @ ys)) k = map_of (map (\<lambda>x. (f x, g x)) xs) k"
  using map_of_keyed_None [of k f ys g] by (simp add: map_add_def split: option.split)

lemma map_of_keyed:
  "distinct (map f xs) \<Longrightarrow> x \<in> set xs \<Longrightarrow> map_of (map (\<lambda>x. (f x, g x)) xs) (f x) = Some (g x)"
  by (rule map_of_is_SomeI) (auto simp: comp_def)

lemma map_of_keyed_filter:
  "(\<And>x. x \<in> set xs \<Longrightarrow> f x = k \<Longrightarrow> P x) \<Longrightarrow>
    map_of (map (\<lambda>x. (f x, g x)) (filter P xs)) k = map_of (map (\<lambda>x. (f x, g x)) xs) k"
  by (induction xs) auto

lemma stored_count_Some:
  assumes "dimension_key_of slug = Some dim" and "distinct (map snapshot_key (db_snapshots d))"
    and "r \<in> set (db_snapshots d)" and "snapshot_key r = (slug, win, b, dim, v, ''event_count'')"
  shows "stored_count d slug win b v = sn_metric_value r"
  using assms map_of_keyed [of snapshot_key "db_snapshots d" r sn_metric_value]
  by (simp add: stored_count_def)

lemma stored_count_none:
  assumes "\<And>dim. (slug, win, b, dim, v, ''event_count'') \<notin> snapshot_key ` set (db_snapshots d)"
  shows "stored_count d slug win b v = 0"
  using map_of_keyed_None [OF assms, of sn_metric_value]
  by (simp add: stored_count_def split: option.split)

text \<open>
  The main fact: in the affected buckets of the request's report and window, the stored
  count is the number of events of the bucket in the requested days; every other count is
  as before.
\<close>

lemma recompute_tx_counts:
  assumes tx: "recompute_tx pg rq runID now d = Inr (d', summary)" and cons: "db_consistent d"
    and b: "affected_bucket (rq_Window rq) (fromTS_of rq) (toExclusive_of rq) b"
  shows "stored_count d' (rq_ReportSlug rq) (rq_Window rq) b v =
    int (length (filter (in_range rq) (bucket_events d (rq_ReportSlug rq) (rq_Window rq) b v)))"
proof -
  let ?G = "event_groups (rq_ReportSlug rq) (rq_Window rq) (fromTS_of rq) (toExclusive_of rq) d"
  obtain dim rid where dim: "dimension_key_of (rq_ReportSlug rq) = Some dim"
    and d': "d' = d\<lparr>db_snapshots := snapshots_outside rq d @ rebuilt_snapshots rq dim now rid d\<rparr>"
    and dist: "distinct (map snapshot_key (snapshots_outside rq d @ rebuilt_snapshots rq dim now rid d))"
    using tx by (rule recompute_tx_Inr)
  show ?thesis
  proof (cases "(b, v) \<in> set ?G")
    case True
    then obtain r where r: "r \<in> set (rebuilt_snapshots rq dim now rid d)"
        "snapshot_key r = (rq_ReportSlug rq, rq_Window rq, b, dim, v, ''event_count'')"
        "sn_metric_value r = int (count_list ?G (b, v))"
      by (fastforce simp: rebuilt_snapshots_def aggregated_rows snapshot_key_def)
    then have "stored_count d' (rq_ReportSlug rq) (rq_Window rq) b v = sn_metric_value r"
      using dist by (intro stored_count_Some [OF dim]) (simp_all add: d')
    with r show ?thesis by (simp add: event_groups_count [OF cons])
  next
    case False
    then have zero: "count_list ?G (b, v) = 0" by (simp add: count_list_0_iff)
    have "(rq_ReportSlug rq, rq_Window rq, b, dim', v, ''event_count'') \<notin> snapshot_key ` set (db_snapshots d')"
      for dim'
    proof
      assume "(rq_ReportSlug rq, rq_Window rq, b, dim', v, ''event_count'') \<in> snapshot_key ` set (db_snapshots d')"
      then obtain r where r: "r \<in> set (db_snapshots d')"
          "snapshot_key r = (rq_ReportSlug rq, rq_Window rq, b, dim', v, ''event_count'')" by auto
      then have "r \<in> set (rebuilt_snapshots rq dim now rid d)"
        using b by (auto simp: d' snapshots_outside_def affected_snapshot_def snapshot_key_def)
      with r False show False unfolding rebuilt_snapshots_def by (blast dest: aggregated_key_group)
    qed
    then have "stored_count d' (rq_ReportSlug rq) (rq_Window rq) b v = 0"
      by (rule stored_count_none)
    with zero show ?thesis by (simp add: event_groups_count [OF cons])
  qed
qed

lemma recompute_tx_frame:
  assumes tx: "recompute_tx pg rq runID now d = Inr (d', summary)"
    and other: "slug \<noteq> rq_ReportSlug rq \<or> win \<noteq> rq_Window rq \<or>
      \<not> affected_bucket (rq_Window rq) (fromTS_of rq) (toExclusive_of rq) b"
  shows "stored_count d' slug win b v = stored_count d slug win b v"
proof -
  let ?A = "affected_snapshot (rq_ReportSlug rq) (rq_Window rq) (fromTS_of rq) (toExclusive_of rq)"
  let ?f = "\<lambda>r. (snapshot_key r, sn_metric_value r)"
  obtain dim rid where
    d': "d' = d\<lparr>db_snapshots := snapshots_outside rq d @ rebuilt_snapshots rq dim now rid d\<rparr>"
    using tx by (rule recompute_tx_Inr)
  have key: "snapshot_key r \<noteq> (slug, win, b, k, v, m)" if "?A r" for r k m
    using that other by (auto simp: affected_snapshot_def snapshot_key_def)
  have "map_of (map ?f (db_snapshots d')) (slug, win, b, k, v, m) =
      map_of (map ?f (db_snapshots d)) (slug, win, b, k, v, m)" for k m
  proof -
    have "(slug, win, b, k, v, m) \<notin> snapshot_key ` set (rebuilt_snapshots rq dim now rid d)"
      unfolding rebuilt_snapshots_def using key aggregated_affected by (metis imageE)
    then have "map_of (map ?f (db_snapshots d')) (slug, win, b, k, v, m) =
        map_of (map ?f (snapshots_outside rq d)) (slug, win, b, k, v, m)"
      unfolding d' by (simp add: map_of_keyed_append del: map_append)
    also have "\<dots> = map_of (map ?f (db_snapshots d)) (slug, win, b, k, v, m)"
      unfolding snapshots_outside_def using key by (intro map_of_keyed_filter) blast
    finally show ?thesis .
  qed
  then show ?thesis by (simp only: stored_count_def)
qed

subsection \<open>Whole, partial and empty buckets\<close>

lemma bucket_events_bounds:
  "e \<in> set (bucket_events d slug win b v) \<Longrightarrow>
    b \<le> ev_occurred_at e \<and> ev_occurred_at e < b + window_length win"
  using date_trunc_le less_date_trunc by (auto simp: bucket_events_def)

lemma bucket_events_whole:
  assumes "fromTS_of rq \<le> b" and "b + window_length win \<le> toExclusive_of rq"
  shows "filter (in_range rq) (bucket_events d slug win b v) = bucket_events d slug win b v"
  using assms bucket_events_bounds by (fastforce simp: filter_id_conv in_range_def)

lemma bucket_events_beyond:
  assumes "toExclusive_of rq \<le> b"
  shows "filter (in_range rq) (bucket_events d slug win b v) = []"
  using assms bucket_events_bounds by (fastforce simp: filter_empty_conv in_range_def)

lemma bucket_events_update [simp]:
  "bucket_events (d\<lparr>db_snapshots := S\<rparr>) slug win b v = bucket_events d slug win b v"
  by (simp add: bucket_events_def event_dimension_def)

lemma affected_whole:
  assumes "fromTS_of rq \<le> b" and "b + window_length win \<le> toExclusive_of rq"
  shows "affected_bucket win (fromTS_of rq) (toExclusive_of rq) b"
  using assms date_trunc_le [of win "fromTS_of rq"] less_date_trunc [of "toExclusive_of rq" win]
    window_length_pos [of win]
  by (auto simp: affected_bucket_def simp del: window_length_pos)

lemma affected_next:
  assumes "rq_DateFrom rq \<le> rq_DateTo rq"
  shows "affected_bucket win (fromTS_of rq) (toExclusive_of rq) (date_trunc win (toExclusive_of rq))"
proof -
  have "fromTS_of rq \<le> toExclusive_of rq"
    using assms day_of_mono [of "rq_DateFrom rq" "rq_DateTo rq"]
    by (simp add: fromTS_of_def toExclusive_of_def start_of_day_def midnight_mono)
  then show ?thesis using date_trunc_mono by (simp add: affected_bucket_def)
qed

lemma range_of_midnights:
  "fromTS_of rq = midnight (day_of (rq_DateFrom rq))"
  "toExclusive_of rq = midnight (day_of (rq_DateTo rq) + 1)"
  by (simp_all add: fromTS_of_def toExclusive_of_def start_of_day_def)

subsection \<open>The summary and a second run\<close>

lemma filter_affected_result:
  assumes "d' = d\<lparr>db_snapshots := snapshots_outside rq d @ rebuilt_snapshots rq dim now rid d\<rparr>"
  shows "filter (affected_snapshot (rq_ReportSlug rq) (rq_Window rq) (fromTS_of rq) (toExclusive_of rq))
      (db_snapshots d') = rebuilt_snapshots rq dim now rid d"
    and "snapshots_outside rq d' = snapshots_outside rq d"
  using aggregated_affected
  by (auto simp: assms snapshots_outside_def rebuilt_snapshots_def filter_empty_conv filter_id_conv)

lemma map_rebuilt_bucket:
  "map sn_bucket_start (rebuilt_snapshots rq dim now rid d) =
     map fst (remdups (event_groups (rq_ReportSlug rq) (rq_Window rq) (fromTS_of rq) (toExclusive_of rq) d))"
  by (simp add: rebuilt_snapshots_def aggregated_def group_counts_def comp_def case_prod_unfold)

lemma length_rebuilt:
  "length (rebuilt_snapshots rq dim now rid d) =
     card (set (event_groups (rq_ReportSlug rq) (rq_Window rq) (fromTS_of rq) (toExclusive_of rq) d))"
  using arg_cong [OF map_rebuilt_bucket, of length] by (simp add: length_remdups_card_conv)

lemma set_event_groups:
  assumes "db_consistent d"
  shows "set (event_groups (rq_ReportSlug rq) win (fromTS_of rq) (toExclusive_of rq) d) =
    {(b, v) | b v e. e \<in> set (db_events d) \<and> in_range rq e \<and> date_trunc win (ev_occurred_at e) = b \<and>
       event_dimension d (rq_ReportSlug rq) e = Some v}"
  unfolding event_groups_dimension [OF assms]
  using event_dimension_total [OF assms] by (fastforce simp: events_between_def in_range_def)

lemma recompute_tx_summary:
  assumes tx: "recompute_tx pg rq runID now d = Inr (d', summary)"
  shows "sum_RowsInserted summary = int (card (set
      (event_groups (rq_ReportSlug rq) (rq_Window rq) (fromTS_of rq) (toExclusive_of rq) d)))"
    and "sum_BucketCount summary = int (card (fst ` set
      (event_groups (rq_ReportSlug rq) (rq_Window rq) (fromTS_of rq) (toExclusive_of rq) d)))"
    and "int (length (db_snapshots d')) =
      int (length (db_snapshots d)) - sum_RowsDeleted summary + sum_RowsInserted summary"
proof -
  obtain dim rid where
    d': "d' = d\<lparr>db_snapshots := snapshots_outside rq d @ rebuilt_snapshots rq dim now rid d\<rparr>"
    and n: "sum_RowsDeleted summary = int (length (db_snapshots d)) - int (length (snapshots_outside rq d))"
      "sum_RowsInserted summary = int (length (rebuilt_snapshots rq dim now rid d))"
      "sum_BucketCount summary =
        sql_count_buckets (rq_ReportSlug rq) (rq_Window rq) (fromTS_of rq) (toExclusive_of rq) d'"
    using tx by (rule recompute_tx_Inr)
  show "sum_RowsInserted summary = int (card (set
      (event_groups (rq_ReportSlug rq) (rq_Window rq) (fromTS_of rq) (toExclusive_of rq) d)))"
    by (simp add: n length_rebuilt)
  show "sum_BucketCount summary = int (card (fst ` set
      (event_groups (rq_ReportSlug rq) (rq_Window rq) (fromTS_of rq) (toExclusive_of rq) d)))"
    by (simp add: n sql_count_buckets_def filter_affected_result(1) [OF d'] map_rebuilt_bucket
        length_remdups_card_conv)
  show "int (length (db_snapshots d')) =
      int (length (db_snapshots d)) - sum_RowsDeleted summary + sum_RowsInserted summary"
    by (simp add: n) (simp add: d')
qed

lemma event_groups_same:
  "db_events d' = db_events d \<Longrightarrow> db_sources d' = db_sources d \<Longrightarrow>
    event_groups slug win f t d' = event_groups slug win f t d"
  by (simp add: event_groups_def events_between_def)

lemma recompute_tx_keeps:
  assumes "recompute_tx pg rq runID now d = Inr (d', summary)"
  shows "\<exists>S. d' = d\<lparr>db_snapshots := S\<rparr>"
  using assms by (rule recompute_tx_Inr) auto

lemma recompute_tx_twice_deleted:
  assumes tx: "recompute_tx pg rq runID now d = Inr (d', summary)"
    and again: "recompute_tx pg rq runID2 now2 d' = Inr (d'', summary2)"
  shows "sum_RowsDeleted summary2 = sum_RowsInserted summary"
  using tx
proof (rule recompute_tx_Inr)
  fix dim rid
  assume d': "d' = d\<lparr>db_snapshots := snapshots_outside rq d @ rebuilt_snapshots rq dim now rid d\<rparr>"
    and ins: "sum_RowsInserted summary = int (length (rebuilt_snapshots rq dim now rid d))"
  have "sum_RowsDeleted summary2 = int (length (db_snapshots d')) - int (length (snapshots_outside rq d'))"
    using again by (rule recompute_tx_Inr)
  then show ?thesis by (simp add: filter_affected_result(2) [OF d'] ins) (simp add: d')
qed

end
