(* ===== verification/Report_Service.thy ===== *)
theory Report_Service
  imports Ports
begin

section \<open>The report service\<close>

text \<open>
  \<open>internal/application/report_service.go\<close>. The service reads a report definition, checks
  the parameters, serves the cached result of the current cache generation when there is
  one, and otherwise runs the report's query and stores the result. Log lines have no
  effect on the state and are left out.

  \<open>runtime\<close> holds what the services take from Go's runtime: the clock (\<open>time.Now\<close>) and
  the hexadecimal SHA-256 digest of a text. The digest is a parameter; statements about
  keys hold for every digest function and name a collision where one is possible.
\<close>

record 'w runtime =
  rt_now :: "'w \<Rightarrow> gotime"
  rt_sha256_hex :: "string \<Rightarrow> string"

record 'w ReportService =
  rs_repo :: "'w ReportRepository"
  rs_cache :: "'w ReportCache option"
  rs_maxRangeDays :: int

definition NewReportService ::
    "'w ReportRepository \<Rightarrow> 'w ReportCache option \<Rightarrow> int \<Rightarrow> 'w ReportService" where
  "NewReportService repo cache maxRangeDays =
     \<lparr>rs_repo = repo, rs_cache = cache, rs_maxRangeDays = maxRangeDays\<rparr>"

subsection \<open>Listing and detail\<close>

definition ReportService_ListReports ::
    "'w ReportService \<Rightarrow> ctx \<Rightarrow> ReportListFilter \<Rightarrow> ('w, ReportDefinition list \<times> Pagination) io" where
  "ReportService_ListReports s ctx flt w =
     (case ListReportDefinitions (rs_repo s) ctx flt w of
        (w1, Inl err) \<Rightarrow> (w1, Inl (WrapAppError ErrCodeInternal ''failed to list reports'' err))
      | (w1, Inr (reports, cnt)) \<Rightarrow>
          (w1, Inr (reports, \<lparr>pg_Limit = lf_Limit flt, pg_Offset = lf_Offset flt, pg_Total = cnt\<rparr>)))"

definition ReportService_GetReport ::
    "'w ReportService \<Rightarrow> ctx \<Rightarrow> string \<Rightarrow> ('w, ReportDefinition) io" where
  "ReportService_GetReport s ctx slug w =
     (case GetReportDefinition (rs_repo s) ctx slug w of
        (w1, Inl err) \<Rightarrow> (w1, Inl err)
      | (w1, Inr report) \<Rightarrow> (w1, Inr report))"

subsection \<open>Validation\<close>

definition validateRunParams :: "'w ReportService \<Rightarrow> ReportRunParams \<Rightarrow> go_error option" where
  "validateRunParams s p =
     (if rp_Window p \<noteq> WindowDay \<and> rp_Window p \<noteq> WindowWeek
        then Some (NewAppError ErrCodeInvalid ''window must be either day or week'')
      else if rp_DateTo p < rp_DateFrom p
        then Some (NewAppError ErrCodeInvalid ''date_from must be on or before date_to'')
      else if rs_maxRangeDays s < range_days (rp_DateFrom p) (rp_DateTo p)
        then Some (NewAppError ErrCodeInvalid
               (''date range exceeds '' @ int_dec (rs_maxRangeDays s) @ '' days''))
      else if rp_Breakdown p \<noteq> '''' \<and> rp_Breakdown p \<noteq> ''source'' \<and> rp_Breakdown p \<noteq> ''status''
              \<and> rp_Breakdown p \<noteq> ''period''
        then Some (NewAppError ErrCodeInvalid ''breakdown must be one of source, status, period'')
      else if rp_Limit p < 1 \<or> 100 < rp_Limit p
        then Some (NewAppError ErrCodeInvalid ''limit must be between 1 and 100'')
      else if rp_Offset p < 0
        then Some (NewAppError ErrCodeInvalid ''offset must be non-negative'')
      else None)"

subsection \<open>The query of a report\<close>

definition executeReportQuery ::
    "'w ReportService \<Rightarrow> ctx \<Rightarrow> string \<Rightarrow> ReportRunParams \<Rightarrow> ('w, report_row list) io" where
  "executeReportQuery s ctx slug params w =
     (if slug = ''volume-by-period'' then
        (case RunVolumeReport (rs_repo s) ctx params w of
           (w1, Inl err) \<Rightarrow> (w1, Inl (WrapAppError ErrCodeInternal ''failed to run volume report'' err))
         | (w1, Inr rows) \<Rightarrow> (w1, Inr rows))
      else if slug = ''status-counts'' then
        (case RunStatusCountsReport (rs_repo s) ctx params w of
           (w1, Inl err) \<Rightarrow> (w1, Inl (WrapAppError ErrCodeInternal ''failed to run status report'' err))
         | (w1, Inr rows) \<Rightarrow> (w1, Inr rows))
      else if slug = ''top-entities'' then
        (case RunTopEntitiesReport (rs_repo s) ctx params w of
           (w1, Inl err) \<Rightarrow>
             (w1, Inl (WrapAppError ErrCodeInternal ''failed to run top entities report'' err))
         | (w1, Inr rows) \<Rightarrow> (w1, Inr rows))
      else (w, Inl (NewAppError ErrCodeNotFound ''report was not found'')))"

subsection \<open>The cache key\<close>

text \<open>The JSON text that is hashed; \<open>json.Marshal\<close> writes the keys of a map in order.\<close>

definition params_blob :: "ReportRunParams \<Rightarrow> string" where
  "params_blob p = json_flat_object
     [(''breakdown'', JStr (rp_Breakdown p)),
      (''date_from'', JStr (FormatDate (rp_DateFrom p))),
      (''date_to'', JStr (FormatDate (rp_DateTo p))),
      (''limit'', JNum (rp_Limit p)),
      (''offset'', JNum (rp_Offset p)),
      (''source'', JStr (rp_Source p)),
      (''status'', JStr (rp_Status p)),
      (''window'', JStr (rp_Window p))]"

definition cache_key_text :: "string \<Rightarrow> int \<Rightarrow> string \<Rightarrow> string" where
  "cache_key_text slug version digest =
     ''report:'' @ slug @ '':v'' @ int_dec version @ '':'' @ digest"

definition cacheKey ::
    "'w runtime \<Rightarrow> 'w ReportService \<Rightarrow> ctx \<Rightarrow> string \<Rightarrow> ReportRunParams \<Rightarrow> ('w, string) io" where
  "cacheKey rt s ctx slug params w =
     (case rs_cache s of
        None \<Rightarrow> (w, Inr '''')
      | Some cache \<Rightarrow>
          (case GetVersion cache ctx slug w of
             (w1, Inl err) \<Rightarrow> (w1, Inl err)
           | (w1, Inr version) \<Rightarrow>
               (w1, Inr (cache_key_text slug version (rt_sha256_hex rt (params_blob params))))))"

subsection \<open>The cached document\<close>

definition result_json :: "ReportResult \<Rightarrow> json" where
  "result_json r = JObj
     [(''report_slug'', JStr (rr_ReportSlug r)),
      (''window'', JStr (rr_Window r)),
      (''date_from'', JStr (rr_DateFrom r)),
      (''date_to'', JStr (rr_DateTo r)),
      (''generated_at'', JTime (rr_GeneratedAt r)),
      (''rows'', JArr (map (\<lambda>row. json_of_goval (GMap row)) (rr_Rows r))),
      (''cache_hit'', JBool (rr_CacheHit r)),
      (''row_count'', JNum (rr_RowCount r)),
      (''execution_ms'', JNum (rr_ExecutionMS r)),
      (''source_system'', JStr (rr_SourceSystem r))]"

definition marshal_result :: "ReportResult \<Rightarrow> bytes" where
  "marshal_result r = Doc (result_json r)"

text \<open>
  \<open>json.Unmarshal\<close> into a \<open>ReportResult\<close>: an absent field or \<open>null\<close> leaves the zero value,
  a value of another type is an error.
\<close>

definition field_or :: "'a \<Rightarrow> (json \<Rightarrow> 'a option) \<Rightarrow> string \<Rightarrow> json \<Rightarrow> 'a option" where
  "field_or zero dec k j =
     (case obj_field k j of None \<Rightarrow> Some zero | Some JNull \<Rightarrow> Some zero | Some v \<Rightarrow> dec v)"

fun dec_str :: "json \<Rightarrow> string option" where
  "dec_str (JStr s) = Some s" | "dec_str _ = None"
fun dec_num :: "json \<Rightarrow> int option" where
  "dec_num (JNum n) = Some n" | "dec_num _ = None"
fun dec_bool :: "json \<Rightarrow> bool option" where
  "dec_bool (JBool b) = Some b" | "dec_bool _ = None"
fun dec_time :: "json \<Rightarrow> gotime option" where
  "dec_time (JTime t) = Some t" | "dec_time _ = None"
fun dec_row :: "json \<Rightarrow> report_row option" where
  "dec_row (JObj kvs) = Some (map (\<lambda>(k, v). (k, goval_of_json v)) kvs)" | "dec_row _ = None"
fun dec_rows :: "json \<Rightarrow> report_row list option" where
  "dec_rows (JArr xs) = those (map dec_row xs)" | "dec_rows _ = None"

definition unmarshal_result :: "bytes \<Rightarrow> go_error + ReportResult" where
  "unmarshal_result b =
     (case b of
        Text _ \<Rightarrow> Inl (PlainError ''json: cannot unmarshal'')
      | Doc j \<Rightarrow>
          (case (field_or '''' dec_str ''report_slug'' j, field_or '''' dec_str ''window'' j,
                 field_or '''' dec_str ''date_from'' j, field_or '''' dec_str ''date_to'' j,
                 field_or 0 dec_time ''generated_at'' j, field_or [] dec_rows ''rows'' j,
                 field_or False dec_bool ''cache_hit'' j, field_or 0 dec_num ''row_count'' j,
                 field_or 0 dec_num ''execution_ms'' j, field_or '''' dec_str ''source_system'' j) of
             (Some sl, Some wi, Some df, Some dt, Some ga, Some rows, Some ch, Some rc, Some ms, Some ss) \<Rightarrow>
               Inr \<lparr>rr_ReportSlug = sl, rr_Window = wi, rr_DateFrom = df, rr_DateTo = dt,
                    rr_GeneratedAt = ga, rr_Rows = rows, rr_CacheHit = ch, rr_RowCount = rc,
                    rr_ExecutionMS = ms, rr_SourceSystem = ss\<rparr>
           | _ \<Rightarrow> Inl (PlainError ''json: cannot unmarshal'')))"

definition getCachedResult ::
    "'w runtime \<Rightarrow> 'w ReportService \<Rightarrow> ctx \<Rightarrow> string \<Rightarrow> ReportRunParams \<Rightarrow> ('w, ReportResult option) io" where
  "getCachedResult rt s ctx slug params w =
     (case rs_cache s of
        None \<Rightarrow> (w, Inr None)
      | Some cache \<Rightarrow>
          (case cacheKey rt s ctx slug params w of
             (w1, Inl err) \<Rightarrow> (w1, Inl err)
           | (w1, Inr key) \<Rightarrow>
               (case Cache_Get cache ctx key w1 of
                  (w2, Inl err) \<Rightarrow> (w2, Inl err)
                | (w2, Inr None) \<Rightarrow> (w2, Inr None)
                | (w2, Inr (Some payload)) \<Rightarrow>
                    (case unmarshal_result payload of
                       Inl err \<Rightarrow> (w2, Inl err)
                     | Inr result \<Rightarrow> (w2, Inr (Some result))))))"

definition storeCachedResult ::
    "'w runtime \<Rightarrow> 'w ReportService \<Rightarrow> ctx \<Rightarrow> string \<Rightarrow> ReportRunParams \<Rightarrow> ReportResult \<Rightarrow> duration
     \<Rightarrow> ('w, unit) io" where
  "storeCachedResult rt s ctx slug params result ttl w =
     (case rs_cache s of
        None \<Rightarrow> (w, Inr ())
      | Some cache \<Rightarrow>
          (case cacheKey rt s ctx slug params w of
             (w1, Inl err) \<Rightarrow> (w1, Inl err)
           | (w1, Inr key) \<Rightarrow> Cache_Set cache ctx key (marshal_result result) ttl w1))"

subsection \<open>Running a report\<close>

text \<open>The cached result, if caching is on, the read succeeds and there is one.\<close>

definition cached_or_miss ::
    "'w runtime \<Rightarrow> 'w ReportService \<Rightarrow> ctx \<Rightarrow> string \<Rightarrow> ReportRunParams \<Rightarrow> duration \<Rightarrow> 'w
     \<Rightarrow> 'w \<times> ReportResult option" where
  "cached_or_miss rt s ctx slug params ttl w =
     (if 0 < ttl then
        (case getCachedResult rt s ctx slug params w of
           (w1, Inl cacheErr) \<Rightarrow> (w1, None)
         | (w1, Inr None) \<Rightarrow> (w1, None)
         | (w1, Inr (Some result)) \<Rightarrow>
             (w1, Some (result\<lparr>rr_CacheHit := True, rr_SourceSystem := ''redis''\<rparr>)))
      else (w, None))"

definition fresh_result ::
    "string \<Rightarrow> ReportRunParams \<Rightarrow> report_row list \<Rightarrow> gotime \<Rightarrow> gotime \<Rightarrow> ReportResult" where
  "fresh_result slug params rows started now =
     \<lparr>rr_ReportSlug = slug, rr_Window = rp_Window params,
      rr_DateFrom = FormatDate (rp_DateFrom params), rr_DateTo = FormatDate (rp_DateTo params),
      rr_GeneratedAt = now, rr_Rows = rows, rr_CacheHit = False, rr_RowCount = int (length rows),
      rr_ExecutionMS = (now - started) div 1000000, rr_SourceSystem = ''postgres''\<rparr>"

definition ReportService_RunReport ::
    "'w runtime \<Rightarrow> 'w ReportService \<Rightarrow> ctx \<Rightarrow> string \<Rightarrow> ReportRunParams \<Rightarrow> ('w, ReportResult) io" where
  "ReportService_RunReport rt s ctx slug params w =
     (case GetReportDefinition (rs_repo s) ctx slug w of
        (w1, Inl err) \<Rightarrow> (w1, Inl err)
      | (w1, Inr report) \<Rightarrow>
          (case validateRunParams s params of
             Some err \<Rightarrow> (w1, Inl err)
           | None \<Rightarrow>
               (let cacheTTL = rd_CacheTTLSeconds report * ns_Second in
                case cached_or_miss rt s ctx slug params cacheTTL w1 of
                  (w2, Some result) \<Rightarrow> (w2, Inr result)
                | (w2, None) \<Rightarrow>
                    (case executeReportQuery s ctx slug params w2 of
                       (w3, Inl err) \<Rightarrow> (w3, Inl err)
                     | (w3, Inr rows) \<Rightarrow>
                         (let result = fresh_result slug params rows (rt_now rt w2) (rt_now rt w3) in
                          if 0 < cacheTTL
                          then (fst (storeCachedResult rt s ctx slug params result cacheTTL w3), Inr result)
                          else (w3, Inr result))))))"

subsection \<open>Validation accepts exactly the documented parameters\<close>

lemma validateRunParams_None_iff:
  "validateRunParams s p = None \<longleftrightarrow>
     rp_Window p \<in> {WindowDay, WindowWeek} \<and> rp_DateFrom p \<le> rp_DateTo p \<and>
     range_days (rp_DateFrom p) (rp_DateTo p) \<le> rs_maxRangeDays s \<and>
     rp_Breakdown p \<in> {'''', ''source'', ''status'', ''period''} \<and>
     1 \<le> rp_Limit p \<and> rp_Limit p \<le> 100 \<and> 0 \<le> rp_Offset p"
  unfolding validateRunParams_def by (auto split: if_splits)

lemma validateRunParams_code:
  "validateRunParams s p = Some err \<Longrightarrow> \<exists>msg. err = NewAppError ErrCodeInvalid msg"
  unfolding validateRunParams_def by (auto split: if_splits)

subsection \<open>Keys\<close>

lemma comma_not_in_int_dec [simp]: "CHR '','' \<notin> set (int_dec i)"
  by (simp add: int_dec_def not_digit_in_nat_dec is_digit_def)

lemma cache_key_text_inject:
  "cache_key_text slug v d = cache_key_text slug v' d' \<longleftrightarrow> v = v' \<and> d = d'"
  using append_sep_eq_prefix [of "CHR '':''" "int_dec v" "int_dec v'" d d']
  by (auto simp: cache_key_text_def)

lemma int_dec_comma: "int_dec i @ CHR '','' # r = int_dec j @ CHR '','' # s \<longleftrightarrow> i = j \<and> r = s"
  using append_sep_eq_prefix [of "CHR '',''" "int_dec i" "int_dec j" r s] by simp

definition same_query :: "ReportRunParams \<Rightarrow> ReportRunParams \<Rightarrow> bool" where
  "same_query p q \<longleftrightarrow>
     rp_Window p = rp_Window q \<and> day_of (rp_DateFrom p) = day_of (rp_DateFrom q) \<and>
     day_of (rp_DateTo p) = day_of (rp_DateTo q) \<and> rp_Breakdown p = rp_Breakdown q \<and>
     rp_Limit p = rp_Limit q \<and> rp_Offset p = rp_Offset q \<and> rp_Source p = rp_Source q \<and>
     rp_Status p = rp_Status q"

lemma json_quote_eq: "json_quote s = json_quote t \<longleftrightarrow> s = t"
  using json_quote_inject [of s "[]" t "[]"] by simp

lemma params_blob_inject: "params_blob p = params_blob q \<longleftrightarrow> same_query p q"
  unfolding params_blob_def json_flat_object_def
  by (auto simp: json_quote_inject json_quote_eq int_dec_comma FormatDate_inject same_query_def)

subsection \<open>The cached document decodes to the stored result\<close>

definition decoded_rows :: "report_row list \<Rightarrow> report_row list" where
  "decoded_rows = map (map (\<lambda>(k, v). (k, goval_of_json (json_of_goval v))))"

lemma those_map_Some: "those (map (\<lambda>x. Some (f x)) xs) = Some (map f xs)"
  by (induction xs) auto

lemma dec_rows_marshal:
  "dec_rows (JArr (map (\<lambda>row. json_of_goval (GMap row)) rows)) = Some (decoded_rows rows)"
  using those_map_Some [of "map (\<lambda>(k, v). (k, goval_of_json (json_of_goval v)))" rows]
  by (simp add: decoded_rows_def comp_def case_prod_unfold)

lemma unmarshal_marshal:
  "unmarshal_result (marshal_result r) = Inr (r\<lparr>rr_Rows := decoded_rows (rr_Rows r)\<rparr>)"
  using dec_rows_marshal [of "rr_Rows r"]
  by (simp add: unmarshal_result_def marshal_result_def result_json_def field_or_def obj_field_def)

text \<open>The ways through \<open>RunReport\<close>, in the order of its calls.\<close>

lemma RunReport_cases [consumes 1, case_names unknown invalid hit failed fresh]:
  assumes "ReportService_RunReport rt s ctx slug p w = (w', x)"
  obtains (unknown) err where "GetReportDefinition (rs_repo s) ctx slug w = (w', Inl err)" "x = Inl err"
  | (invalid) rep err where "GetReportDefinition (rs_repo s) ctx slug w = (w', Inr rep)"
      "validateRunParams s p = Some err" "x = Inl err"
  | (hit) w1 rep res where "GetReportDefinition (rs_repo s) ctx slug w = (w1, Inr rep)" "validateRunParams s p = None"
      "cached_or_miss rt s ctx slug p (rd_CacheTTLSeconds rep * ns_Second) w1 = (w', Some res)" "x = Inr res"
  | (failed) w1 rep w2 err where "GetReportDefinition (rs_repo s) ctx slug w = (w1, Inr rep)" "validateRunParams s p = None"
      "cached_or_miss rt s ctx slug p (rd_CacheTTLSeconds rep * ns_Second) w1 = (w2, None)"
      "executeReportQuery s ctx slug p w2 = (w', Inl err)" "x = Inl err"
  | (fresh) w1 rep w2 w3 rows where "GetReportDefinition (rs_repo s) ctx slug w = (w1, Inr rep)" "validateRunParams s p = None"
      "cached_or_miss rt s ctx slug p (rd_CacheTTLSeconds rep * ns_Second) w1 = (w2, None)"
      "executeReportQuery s ctx slug p w2 = (w3, Inr rows)" "x = Inr (fresh_result slug p rows (rt_now rt w2) (rt_now rt w3))"
  using assms
  by (auto simp: ReportService_RunReport_def Let_def split: prod.splits sum.splits option.splits if_splits)

end
