(* ===== verification/Recompute_Service.thy ===== *)
theory Recompute_Service
  imports Report_Service
begin

section \<open>The recompute service\<close>

text \<open>
  \<open>internal/application/recompute_service.go\<close>: a trigger checks a request, takes the Redis
  lock of its scope, records a pending run and puts a job on the buffered channel; a worker
  takes jobs from the channel and processes them. The channel is the list of jobs waiting
  in it, oldest first, next to the stores' state: a send goes through when fewer than
  \<open>queueSize\<close> jobs wait. A random token (\<open>uuid.NewString\<close>) is an argument of the trigger.
\<close>

record recomputeJob =
  job_runID :: string
  job_request :: RecomputeRequest
  job_lockKey :: string
  job_lockToken :: string

record 'w RecomputeService =
  rcs_reports :: "'w ReportRepository"
  rcs_runs :: "'w RecomputeRunRepository"
  rcs_audits :: "'w AuditRepository"
  rcs_locks :: "'w RecomputeLock"
  rcs_cache :: "'w ReportCache option"
  rcs_maxRangeDays :: int
  rcs_lockTTL :: duration
  rcs_queueSize :: nat

definition NewRecomputeService ::
    "'w ReportRepository \<Rightarrow> 'w RecomputeRunRepository \<Rightarrow> 'w AuditRepository \<Rightarrow> 'w RecomputeLock
     \<Rightarrow> 'w ReportCache option \<Rightarrow> int \<Rightarrow> duration \<Rightarrow> nat \<Rightarrow> 'w RecomputeService" where
  "NewRecomputeService reports runs audits locks cache maxRangeDays lockTTL queueSize =
     \<lparr>rcs_reports = reports, rcs_runs = runs, rcs_audits = audits, rcs_locks = locks,
      rcs_cache = cache, rcs_maxRangeDays = maxRangeDays, rcs_lockTTL = lockTTL,
      rcs_queueSize = queueSize\<rparr>"

subsection \<open>The key of a scope\<close>

definition lockKey :: "RecomputeRequest \<Rightarrow> string" where
  "lockKey rq =
     ''recompute:lock:'' @ rq_ReportSlug rq @ '':'' @ rq_Window rq @ '':''
       @ FormatCompact (rq_DateFrom rq) @ '':'' @ FormatCompact (rq_DateTo rq)"

definition same_scope :: "RecomputeRequest \<Rightarrow> RecomputeRequest \<Rightarrow> bool" where
  "same_scope a b \<longleftrightarrow>
     rq_ReportSlug a = rq_ReportSlug b \<and> rq_Window a = rq_Window b \<and>
     day_of (rq_DateFrom a) = day_of (rq_DateFrom b) \<and> day_of (rq_DateTo a) = day_of (rq_DateTo b)"

subsection \<open>Triggering a run\<close>

definition checkRequest :: "'w RecomputeService \<Rightarrow> RecomputeRequest \<Rightarrow> go_error option" where
  "checkRequest s rq =
     (if rq_Window rq \<noteq> WindowDay \<and> rq_Window rq \<noteq> WindowWeek
        then Some (NewAppError ErrCodeInvalid ''window must be day or week'')
      else if rq_DateTo rq < rq_DateFrom rq
        then Some (NewAppError ErrCodeInvalid ''date_from must be on or before date_to'')
      else if rcs_maxRangeDays s < range_days (rq_DateFrom rq) (rq_DateTo rq)
        then Some (NewAppError ErrCodeInvalid
               (''date range exceeds '' @ int_dec (rcs_maxRangeDays s) @ '' days''))
      else None)"

definition defaultRequester :: "RecomputeRequest \<Rightarrow> RecomputeRequest" where
  "defaultRequester rq =
     rq\<lparr>rq_RequestedBy := (if rq_RequestedBy rq = '''' then ''management-api'' else rq_RequestedBy rq),
        rq_RequestedVia := (if rq_RequestedVia rq = '''' then ''http'' else rq_RequestedVia rq)\<rparr>"

definition blankEntry :: AuditEntry where
  "blankEntry = \<lparr>au_ID = 0, au_Actor = '''', au_Action = '''', au_ResourceType = '''',
     au_ResourceID = '''', au_Metadata = [], au_CreatedAt = 0\<rparr>"

definition triggeredEntry :: "RecomputeRequest \<Rightarrow> string \<Rightarrow> AuditEntry" where
  "triggeredEntry rq runID =
     blankEntry\<lparr>au_Actor := rq_RequestedBy rq, au_Action := ''recompute.triggered'',
       au_ResourceType := ''recompute_run'', au_ResourceID := runID,
       au_Metadata :=
         [(''report_slug'', GStr (rq_ReportSlug rq)), (''window'', GStr (rq_Window rq)),
          (''date_from'', GStr (FormatDate (rq_DateFrom rq))),
          (''date_to'', GStr (FormatDate (rq_DateTo rq))),
          (''requested_via'', GStr (rq_RequestedVia rq))]\<rparr>"

text \<open>The non-blocking send of \<open>select { case s.queue <- job: ... default: ... }\<close>.\<close>

definition trySend :: "nat \<Rightarrow> recomputeJob \<Rightarrow> recomputeJob list \<Rightarrow> recomputeJob list option" where
  "trySend n job q = (if length q < n then Some (q @ [job]) else None)"

definition RecomputeService_Trigger ::
    "'w RecomputeService \<Rightarrow> ctx \<Rightarrow> string \<Rightarrow> RecomputeRequest \<Rightarrow> ('w \<times> recomputeJob list, RecomputeRun) io"
  where
  "RecomputeService_Trigger s ctx lockToken request0 wq =
     (let (w, q) = wq in
      case checkRequest s request0 of
        Some err \<Rightarrow> ((w, q), Inl err)
      | None \<Rightarrow>
     (case GetReportDefinition (rcs_reports s) ctx (rq_ReportSlug request0) w of
        (w1, Inl err) \<Rightarrow> ((w1, q), Inl err)
      | (w1, Inr _) \<Rightarrow>
     (let request = defaultRequester request0; key = lockKey request in
      case TryAcquire (rcs_locks s) ctx key lockToken (rcs_lockTTL s) w1 of
        (w2, Inl err) \<Rightarrow>
          ((w2, q), Inl (WrapAppError ErrCodeInternal ''failed to acquire recompute lock'' err))
      | (w2, Inr False) \<Rightarrow>
          ((w2, q), Inl (NewAppError ErrCodeConflict
             ''a recompute run for this scope is already in progress''))
      | (w2, Inr True) \<Rightarrow>
     (case CreateRun (rcs_runs s) ctx request RunStatusPending w2 of
        (w3, Inl err) \<Rightarrow>
          ((fst (Release (rcs_locks s) ctx key lockToken w3), q),
           Inl (WrapAppError ErrCodeInternal ''failed to create recompute run'' err))
      | (w3, Inr run) \<Rightarrow>
     (let w4 = fst (CreateEntry (rcs_audits s) ctx (triggeredEntry request (run_ID run)) w3);
          job = \<lparr>job_runID = run_ID run, job_request = request, job_lockKey = key,
                 job_lockToken = lockToken\<rparr> in
      case trySend (rcs_queueSize s) job q of
        Some q' \<Rightarrow> ((w4, q'), Inr run)
      | None \<Rightarrow>
          (let w5 = fst (MarkRunFailed (rcs_runs s) ctx (run_ID run) ''worker queue is full'' w4);
               w6 = fst (Release (rcs_locks s) ctx key lockToken w5)
           in ((w6, q), Inl (NewAppError ErrCodeUnavailable ''recompute queue is full''))))))))"

definition RecomputeService_GetRun ::
    "'w RecomputeService \<Rightarrow> ctx \<Rightarrow> string \<Rightarrow> ('w, RecomputeRun) io" where
  "RecomputeService_GetRun s ctx runID w =
     (case GetRun (rcs_runs s) ctx runID w of
        (w1, Inl err) \<Rightarrow> (w1, Inl err)
      | (w1, Inr run) \<Rightarrow> (w1, Inr run))"

subsection \<open>Processing a job\<close>

definition failedEntry :: "recomputeJob \<Rightarrow> go_error \<Rightarrow> AuditEntry" where
  "failedEntry job err =
     blankEntry\<lparr>au_Actor := ''recompute-worker'', au_Action := ''recompute.failed'',
       au_ResourceType := ''recompute_run'', au_ResourceID := job_runID job,
       au_Metadata :=
         [(''report_slug'', GStr (rq_ReportSlug (job_request job))),
          (''window'', GStr (rq_Window (job_request job))), (''error'', GStr (Error err))]\<rparr>"

definition completedEntry :: "recomputeJob \<Rightarrow> RecomputeSummary \<Rightarrow> AuditEntry" where
  "completedEntry job summary =
     blankEntry\<lparr>au_Actor := ''recompute-worker'', au_Action := ''recompute.completed'',
       au_ResourceType := ''recompute_run'', au_ResourceID := job_runID job,
       au_Metadata :=
         [(''report_slug'', GStr (rq_ReportSlug (job_request job))),
          (''window'', GStr (rq_Window (job_request job))),
          (''rows_deleted'', GInt (sum_RowsDeleted summary)),
          (''rows_inserted'', GInt (sum_RowsInserted summary)),
          (''bucket_count'', GInt (sum_BucketCount summary))]\<rparr>"

definition bumpCache :: "'w RecomputeService \<Rightarrow> ctx \<Rightarrow> string \<Rightarrow> 'w \<Rightarrow> 'w" where
  "bumpCache s ctx slug w =
     (case rcs_cache s of None \<Rightarrow> w | Some cache \<Rightarrow> fst (BumpVersion cache ctx slug w))"

definition processJob ::
    "'w runtime \<Rightarrow> 'w RecomputeService \<Rightarrow> ctx \<Rightarrow> recomputeJob \<Rightarrow> 'w \<Rightarrow> 'w" where
  "processJob rt s ctx job w =
     (let workerCtx = WithTimeout ctx (rt_now rt w) (2 * ns_Minute) in
      case MarkRunRunning (rcs_runs s) workerCtx (job_runID job) w of
        (w1, Inl err) \<Rightarrow> fst (Release (rcs_locks s) workerCtx (job_lockKey job) (job_lockToken job) w1)
      | (w1, Inr _) \<Rightarrow>
     (case RecomputeReport (rcs_reports s) workerCtx (job_request job) (job_runID job) w1 of
        (w2, Inl err) \<Rightarrow>
          (let w3 = fst (MarkRunFailed (rcs_runs s) workerCtx (job_runID job) (Error err) w2);
               w4 = fst (CreateEntry (rcs_audits s) workerCtx (failedEntry job err) w3)
           in fst (Release (rcs_locks s) workerCtx (job_lockKey job) (job_lockToken job) w4))
      | (w2, Inr summary) \<Rightarrow>
          (let w3 = fst (MarkRunCompleted (rcs_runs s) workerCtx (job_runID job) summary w2);
               w4 = bumpCache s workerCtx (rq_ReportSlug (job_request job)) w3;
               w5 = fst (CreateEntry (rcs_audits s) workerCtx (completedEntry job summary) w4)
           in fst (Release (rcs_locks s) workerCtx (job_lockKey job) (job_lockToken job) w5))))"

text \<open>
  One turn of a worker's loop that finds a job: it is taken from the front of the channel
  and processed. (A worker that finds its context done returns; one that finds the channel
  empty waits.)
\<close>

fun workerTurn ::
    "'w runtime \<Rightarrow> 'w RecomputeService \<Rightarrow> ctx \<Rightarrow> 'w \<times> recomputeJob list \<Rightarrow> 'w \<times> recomputeJob list" where
  "workerTurn rt s ctx (w, []) = (w, [])"
| "workerTurn rt s ctx (w, job # q) = (processJob rt s ctx job w, q)"

definition effectiveWorkers :: "int \<Rightarrow> int" where
  "effectiveWorkers workers = (if workers < 1 then 1 else workers)"

subsection \<open>Facts on requests and keys\<close>

lemma checkRequest_None_iff:
  "checkRequest s rq = None \<longleftrightarrow>
     rq_Window rq \<in> {WindowDay, WindowWeek} \<and> rq_DateFrom rq \<le> rq_DateTo rq \<and>
     range_days (rq_DateFrom rq) (rq_DateTo rq) \<le> rcs_maxRangeDays s"
  unfolding checkRequest_def by (auto split: if_splits)

lemma checkRequest_code:
  "checkRequest s rq = Some err \<Longrightarrow> \<exists>msg. err = NewAppError ErrCodeInvalid msg"
  unfolding checkRequest_def by (auto split: if_splits)

lemma defaultRequester_simps [simp]:
  "rq_ReportSlug (defaultRequester rq) = rq_ReportSlug rq"
  "rq_Window (defaultRequester rq) = rq_Window rq"
  "rq_DateFrom (defaultRequester rq) = rq_DateFrom rq"
  "rq_DateTo (defaultRequester rq) = rq_DateTo rq"
  by (simp_all add: defaultRequester_def)

lemma lockKey_defaultRequester [simp]: "lockKey (defaultRequester rq) = lockKey rq"
  by (simp add: lockKey_def)

lemma colon_not_in_window: "win \<in> {WindowDay, WindowWeek} \<Longrightarrow> CHR '':'' \<notin> set win"
  by (auto simp: window_defs)

text \<open>
  The slug may hold colons; the window and the dates do not, so the key is cut from its end.
\<close>

lemma lockKey_inject:
  assumes "rq_Window a \<in> {WindowDay, WindowWeek}" and "rq_Window b \<in> {WindowDay, WindowWeek}"
  shows "lockKey a = lockKey b \<longleftrightarrow> same_scope a b"
proof -
  note w = colon_not_in_window [OF assms(1)] colon_not_in_window [OF assms(2)]
  have "lockKey a = lockKey b \<longleftrightarrow>
    ((rq_ReportSlug a @ '':'' @ rq_Window a @ '':'' @ FormatCompact (rq_DateFrom a)) @ CHR '':'' # FormatCompact (rq_DateTo a)) =
    ((rq_ReportSlug b @ '':'' @ rq_Window b @ '':'' @ FormatCompact (rq_DateFrom b)) @ CHR '':'' # FormatCompact (rq_DateTo b))"
    by (simp add: lockKey_def)
  also have "\<dots> \<longleftrightarrow> (rq_ReportSlug a @ '':'' @ rq_Window a) @ CHR '':'' # FormatCompact (rq_DateFrom a) =
      (rq_ReportSlug b @ '':'' @ rq_Window b) @ CHR '':'' # FormatCompact (rq_DateFrom b) \<and>
      day_of (rq_DateTo a) = day_of (rq_DateTo b)"
    by (subst append_sep_eq_suffix) (simp_all add: FormatCompact_inject)
  also have "\<dots> \<longleftrightarrow> rq_ReportSlug a @ CHR '':'' # rq_Window a = rq_ReportSlug b @ CHR '':'' # rq_Window b \<and>
      day_of (rq_DateFrom a) = day_of (rq_DateFrom b) \<and> day_of (rq_DateTo a) = day_of (rq_DateTo b)"
    by (subst append_sep_eq_suffix) (simp_all add: FormatCompact_inject)
  also have "\<dots> \<longleftrightarrow> same_scope a b"
    by (subst append_sep_eq_suffix) (auto simp: w same_scope_def)
  finally show ?thesis .
qed

lemma trySend_Some_iff:
  "trySend n job q = Some q' \<longleftrightarrow> length q < n \<and> q' = q @ [job]"
  by (auto simp: trySend_def)

lemma trySend_None_iff: "trySend n job q = None \<longleftrightarrow> n \<le> length q"
  by (auto simp: trySend_def)

lemma blankEntry_simps [simp]:
  "au_Action (triggeredEntry rq i) = ''recompute.triggered''" "au_ResourceID (triggeredEntry rq i) = i"
  "au_Action (failedEntry job e) = ''recompute.failed''" "au_ResourceID (failedEntry job e) = job_runID job"
  "au_Action (completedEntry job m) = ''recompute.completed''"
  "au_ResourceID (completedEntry job m) = job_runID job"
  by (simp_all add: triggeredEntry_def failedEntry_def completedEntry_def)

text \<open>The ways through \<open>Trigger\<close>, in the order of its calls.\<close>

lemma Trigger_cases [consumes 1, case_names invalid unknown unlocked uncreated queued full]:
  assumes "RecomputeService_Trigger s ctx tok rq (w, q) = ((w', q'), r)"
  obtains (invalid) err where "checkRequest s rq = Some err" "w' = w" "q' = q" "r = Inl err"
  | (unknown) err where "checkRequest s rq = None"
      "GetReportDefinition (rcs_reports s) ctx (rq_ReportSlug rq) w = (w', Inl err)" "q' = q" "r = Inl err"
  | (unlocked) w1 rep a err where "checkRequest s rq = None"
      "GetReportDefinition (rcs_reports s) ctx (rq_ReportSlug rq) w = (w1, Inr rep)"
      "TryAcquire (rcs_locks s) ctx (lockKey rq) tok (rcs_lockTTL s) w1 = (w', a)" "a \<noteq> Inr True" "q' = q"
      "r = Inl err" "err = (case a of
        Inl e \<Rightarrow> WrapAppError ErrCodeInternal ''failed to acquire recompute lock'' e
      | Inr _ \<Rightarrow> NewAppError ErrCodeConflict ''a recompute run for this scope is already in progress'')"
  | (uncreated) w1 rep w2 w3 e where "checkRequest s rq = None"
      "GetReportDefinition (rcs_reports s) ctx (rq_ReportSlug rq) w = (w1, Inr rep)"
      "TryAcquire (rcs_locks s) ctx (lockKey rq) tok (rcs_lockTTL s) w1 = (w2, Inr True)"
      "CreateRun (rcs_runs s) ctx (defaultRequester rq) RunStatusPending w2 = (w3, Inl e)"
      "w' = fst (Release (rcs_locks s) ctx (lockKey rq) tok w3)" "q' = q"
      "r = Inl (WrapAppError ErrCodeInternal ''failed to create recompute run'' e)"
  | (queued) w1 rep w2 w3 run where "checkRequest s rq = None"
      "GetReportDefinition (rcs_reports s) ctx (rq_ReportSlug rq) w = (w1, Inr rep)"
      "TryAcquire (rcs_locks s) ctx (lockKey rq) tok (rcs_lockTTL s) w1 = (w2, Inr True)"
      "CreateRun (rcs_runs s) ctx (defaultRequester rq) RunStatusPending w2 = (w3, Inr run)"
      "w' = fst (CreateEntry (rcs_audits s) ctx (triggeredEntry (defaultRequester rq) (run_ID run)) w3)"
      "length q < rcs_queueSize s" "r = Inr run"
      "q' = q @ [\<lparr>job_runID = run_ID run, job_request = defaultRequester rq, job_lockKey = lockKey rq,
                 job_lockToken = tok\<rparr>]"
  | (full) w1 rep w2 w3 run w4 w5 where "checkRequest s rq = None"
      "GetReportDefinition (rcs_reports s) ctx (rq_ReportSlug rq) w = (w1, Inr rep)"
      "TryAcquire (rcs_locks s) ctx (lockKey rq) tok (rcs_lockTTL s) w1 = (w2, Inr True)"
      "CreateRun (rcs_runs s) ctx (defaultRequester rq) RunStatusPending w2 = (w3, Inr run)"
      "w4 = fst (CreateEntry (rcs_audits s) ctx (triggeredEntry (defaultRequester rq) (run_ID run)) w3)"
      "w5 = fst (MarkRunFailed (rcs_runs s) ctx (run_ID run) ''worker queue is full'' w4)"
      "w' = fst (Release (rcs_locks s) ctx (lockKey rq) tok w5)" "q' = q" "rcs_queueSize s \<le> length q"
      "r = Inl (NewAppError ErrCodeUnavailable ''recompute queue is full'')"
  using assms
  by (auto simp: RecomputeService_Trigger_def Let_def trySend_Some_iff trySend_None_iff
      split: option.splits prod.splits sum.splits bool.splits)

end
