(* ===== verification/Contracts.thy ===== *)
theory Contracts
  imports Report_Service Recompute_Service
begin

section \<open>What the services rely on\<close>

text \<open>
  The contracts behind the interfaces of \<open>internal/application/ports.go\<close>, as locales: a lock
  that is a lease with an owner's token (\<open>RecomputeLock\<close>), a cache with generations
  (\<open>ReportCache\<close>) and a registry of runs (\<open>RecomputeRunRepository\<close>). A law says what a call can
  have done when it returns, an error included: a call that fails may still have taken
  effect. The lemmas the services need are proved here once, from the laws.
\<close>

subsection \<open>The lock\<close>

text \<open>\<open>lease t w k\<close> is the entry of the lock \<open>k\<close> that has not expired at \<open>t\<close>.\<close>

locale lease_lock =
  fixes locks :: "'w RecomputeLock"
    and clock :: "'w \<Rightarrow> gotime"
    and lease :: "gotime \<Rightarrow> 'w \<Rightarrow> string \<Rightarrow> entry option"
  assumes lease_later: "s \<le> t \<Longrightarrow> lease t w k = alive t (lease s w k)"
    and acquire_law: "valid_ttl d \<Longrightarrow> TryAcquire locks ctx k tok d w = (w', r) \<Longrightarrow>
      clock w \<le> clock w' \<and>
      (lease (clock w') w' = lease (clock w') w \<and> r \<noteq> Inr True \<and>
         (r = Inr False \<longrightarrow> lease (clock w') w k \<noteq> None) \<or>
       lease (clock w') w k = None \<and> r \<noteq> Inr False \<and>
         lease (clock w') w' = (lease (clock w') w)(k \<mapsto> (Text tok, expiry (clock w') d)))"
    and release_law: "Release locks ctx k tok w = (w', u) \<Longrightarrow>
      clock w \<le> clock w' \<and>
      (lease (clock w') w' = lease (clock w') w \<and>
         (u = Inr () \<longrightarrow> (\<forall>x. lease (clock w') w k \<noteq> Some (Text tok, x))) \<or>
       (\<exists>x. lease (clock w') w k = Some (Text tok, x)) \<and>
         lease (clock w') w' = (lease (clock w') w)(k := None))"

text \<open>A sequence of calls on the lock by any clients.\<close>

datatype lock_op =
    AcquireOp ctx string string duration
  | ReleaseOp ctx string string

fun lock_step :: "'w RecomputeLock \<Rightarrow> lock_op \<Rightarrow> 'w \<Rightarrow> 'w" where
  "lock_step locks (AcquireOp ctx k tok d) w = fst (TryAcquire locks ctx k tok d w)"
| "lock_step locks (ReleaseOp ctx k tok) w = fst (Release locks ctx k tok w)"

definition lock_steps :: "'w RecomputeLock \<Rightarrow> lock_op list \<Rightarrow> 'w \<Rightarrow> 'w" where
  "lock_steps locks ops w = fold (lock_step locks) ops w"

fun op_ttl_ok :: "lock_op \<Rightarrow> bool" where
  "op_ttl_ok (AcquireOp ctx k tok d) = valid_ttl d"
| "op_ttl_ok (ReleaseOp ctx k tok) = True"

text \<open>A call that is not the owner's release of \<open>k\<close>.\<close>

fun not_release_of :: "string \<Rightarrow> string \<Rightarrow> lock_op \<Rightarrow> bool" where
  "not_release_of k tok (AcquireOp ctx k' tok' d) = True"
| "not_release_of k tok (ReleaseOp ctx k' tok') = (k' \<noteq> k \<or> tok' \<noteq> tok)"

context lease_lock begin

lemma acquired:
  assumes "TryAcquire locks ctx k tok d w = (w', Inr True)" and "valid_ttl d"
  shows "lease (clock w') w k = None"
    and "lease (clock w') w' = (lease (clock w') w)(k \<mapsto> (Text tok, expiry (clock w') d))"
  using acquire_law [OF assms(2,1)] by auto

lemma acquire_held:
  assumes "TryAcquire locks ctx k tok d w = (w', r)" and "valid_ttl d"
    and "lease (clock w') w k \<noteq> None"
  shows "r \<noteq> Inr True" and "lease (clock w') w' = lease (clock w') w"
  using acquire_law [OF assms(2,1)] assms(3) by auto

lemma release_other:
  assumes "Release locks ctx k tok w = (w', r)" and "lease (clock w') w k' = Some (Text tok', x)"
    and "k' \<noteq> k \<or> tok' \<noteq> tok"
  shows "lease (clock w') w' k' = Some (Text tok', x)"
  using release_law [OF assms(1)] assms(2,3) by auto

lemma released:
  assumes "Release locks ctx k tok w = (w', Inr ())"
  shows "\<forall>x. lease (clock w') w' k \<noteq> Some (Text tok, x)"
  using release_law [OF assms] by auto

lemma lock_step_time: "op_ttl_ok a \<Longrightarrow> clock w \<le> clock (lock_step locks a w)"
  using acquire_law release_law by (cases a) (fastforce simp: prod_eq_iff)+

lemma lock_steps_time: "list_all op_ttl_ok ops \<Longrightarrow> clock w \<le> clock (lock_steps locks ops w)"
proof (induction ops arbitrary: w)
  case (Cons a ops)
  have "clock w \<le> clock (lock_step locks a w)" using Cons.prems by (intro lock_step_time) simp
  with Cons.IH [of "lock_step locks a w"] Cons.prems show ?case by (simp add: lock_steps_def)
qed (simp add: lock_steps_def)

lemma lease_step:
  assumes "lease (clock w) w k = Some (Text tok, Some x)" and "clock (lock_step locks a w) < x"
    and "op_ttl_ok a" and "not_release_of k tok a"
  shows "lease (clock (lock_step locks a w)) (lock_step locks a w) k = Some (Text tok, Some x)"
proof -
  let ?w' = "lock_step locks a w"
  have held: "lease (clock ?w') w k = Some (Text tok, Some x)"
    using lease_later [OF lock_step_time [OF assms(3), of w], of w k] assms(1,2) by (simp add: alive_def)
  show ?thesis
  proof (cases a)
    case (AcquireOp ctx k' tok' d)
    then obtain r where "TryAcquire locks ctx k' tok' d w = (?w', r)" by (auto simp: prod_eq_iff)
    from acquire_law [OF _ this] AcquireOp assms(3) held show ?thesis by auto
  next
    case (ReleaseOp ctx k' tok')
    then obtain r where "Release locks ctx k' tok' w = (?w', r)" by (auto simp: prod_eq_iff)
    from release_other [OF this held] ReleaseOp assms(4) show ?thesis by auto
  qed
qed

lemma lease_persists:
  assumes "lease (clock w) w k = Some (Text tok, Some x)" and "clock (lock_steps locks ops w) < x"
    and "list_all op_ttl_ok ops" and "list_all (not_release_of k tok) ops"
  shows "lease (clock (lock_steps locks ops w)) (lock_steps locks ops w) k = Some (Text tok, Some x)"
  using assms
proof (induction ops arbitrary: w)
  case (Cons a ops)
  let ?w' = "lock_step locks a w"
  have "clock ?w' \<le> clock (lock_steps locks ops ?w')"
    using Cons.prems(3) by (intro lock_steps_time) simp
  then have "clock ?w' < x" using Cons.prems(2) by (simp add: lock_steps_def)
  with Cons.prems have "lease (clock ?w') ?w' k = Some (Text tok, Some x)"
    by (intro lease_step) simp_all
  with Cons.IH [of ?w'] Cons.prems show ?case by (simp add: lock_steps_def)
qed (simp add: lock_steps_def)

text \<open>Mutual exclusion: until its lease ends or its owner releases it, a lock is not granted again.\<close>

lemma exclusive_while_leased:
  assumes acq: "TryAcquire locks ctx k tok d w = (w1, Inr True)" and d: "valid_ttl d" "0 < d"
    and ops: "list_all op_ttl_ok ops" "list_all (not_release_of k tok) ops"
    and again: "TryAcquire locks ctx' k tok' d' (lock_steps locks ops w1) = (w2, r)" and d': "valid_ttl d'"
    and early: "clock w2 < clock w1 + d"
  shows "r \<noteq> Inr True"
proof -
  let ?v = "lock_steps locks ops w1"
  have le: "clock ?v \<le> clock w2" using acquire_law [OF d' again] by simp
  have "lease (clock w1) w1 k = Some (Text tok, Some (clock w1 + d))"
    using acquired(2) [OF acq d(1)] d(2) by (simp add: expiry_def)
  then have "lease (clock ?v) ?v k = Some (Text tok, Some (clock w1 + d))"
    using ops le early by (intro lease_persists) simp_all
  then have "lease (clock w2) ?v k \<noteq> None"
    using lease_later [OF le, of ?v k] early by (simp add: alive_def)
  then show ?thesis by (rule acquire_held(1) [OF again d'])
qed

end

subsection \<open>The cache\<close>

text \<open>
  \<open>live t w k\<close> is the entry of \<open>k\<close> that has not expired at \<open>t\<close>, \<open>gen_key\<close> the key of a
  report's generation counter. A generation read is the counter's value, which the read
  creates at 1 where there is none.
\<close>

definition gen_of :: "entry option \<Rightarrow> int option" where
  "gen_of e = (case e of Some (Text s, x) \<Rightarrow> ParseInt64 s | _ \<Rightarrow> None)"

locale versioned_cache =
  fixes cache :: "'w ReportCache"
    and clock :: "'w \<Rightarrow> gotime"
    and live :: "gotime \<Rightarrow> 'w \<Rightarrow> string \<Rightarrow> entry option"
    and gen_key :: "string \<Rightarrow> string"
  assumes live_later: "s \<le> t \<Longrightarrow> live t w k = alive t (live s w k)"
    and get_law: "Cache_Get cache ctx k w = (w', g) \<Longrightarrow>
      clock w \<le> clock w' \<and> live (clock w') w' = live (clock w') w \<and>
      (\<forall>v. g = Inr v \<longrightarrow> v = map_option fst (live (clock w') w k))"
    and set_law: "valid_ttl d \<Longrightarrow> Cache_Set cache ctx k v d w = (w', u) \<Longrightarrow>
      clock w \<le> clock w' \<and>
      (live (clock w') w' = live (clock w') w \<and> u \<noteq> Inr () \<or>
       live (clock w') w' = (live (clock w') w)(k \<mapsto> (v, expiry (clock w') d)))"
    and version_law: "GetVersion cache ctx slug w = (w', n) \<Longrightarrow>
      clock w \<le> clock w' \<and>
      (live (clock w') w' = live (clock w') w \<or>
       live (clock w') w (gen_key slug) = None \<and>
         live (clock w') w' = (live (clock w') w)(gen_key slug \<mapsto> (Text ''1'', None))) \<and>
      (\<forall>i. n = Inr i \<longrightarrow> gen_of (live (clock w') w' (gen_key slug)) = Some i)"
    and bump_law: "BumpVersion cache ctx slug w = (w', n) \<Longrightarrow>
      live (clock w') w (gen_key slug) = Some (Text (int_dec i), x) \<Longrightarrow>
      min_int64 \<le> i \<Longrightarrow> i < max_int64 \<Longrightarrow>
      clock w \<le> clock w' \<and>
      (live (clock w') w' = live (clock w') w \<and> (\<forall>m. n \<noteq> Inr m) \<or>
       live (clock w') w' = (live (clock w') w)(gen_key slug \<mapsto> (Text (int_dec (i + 1)), x)) \<and>
         (\<forall>m. n = Inr m \<longrightarrow> m = i + 1))"

context versioned_cache begin

lemma cacheKey_Inr:
  assumes "cacheKey rt s ctx slug p w = (w', Inr key)" and "rs_cache s = Some cache"
  shows "\<exists>n. key = cache_key_text slug n (rt_sha256_hex rt (params_blob p)) \<and>
    gen_of (live (clock w') w' (gen_key slug)) = Some n \<and> clock w \<le> clock w' \<and>
    (\<forall>k. k \<noteq> gen_key slug \<longrightarrow> live (clock w') w' k = live (clock w') w k)"
proof -
  obtain w1 n where v: "GetVersion cache ctx slug w = (w1, n)" by fastforce
  with assms obtain i where "w1 = w'" "n = Inr i"
      "key = cache_key_text slug i (rt_sha256_hex rt (params_blob p))"
    by (auto simp: cacheKey_def split: sum.splits)
  with version_law [OF v] show ?thesis by (intro exI [of _ i]) auto
qed

text \<open>A hit is an entry of the generation that was read, under the key of the same query.\<close>

lemma cached_hit:
  assumes hit: "getCachedResult rt s ctx slug p w = (w', Inr (Some result))"
    and c: "rs_cache s = Some cache"
    and other: "\<And>n. cache_key_text slug n (rt_sha256_hex rt (params_blob p)) \<noteq> gen_key slug"
  shows "\<exists>n payload x w1. clock w \<le> clock w1 \<and> clock w1 \<le> clock w' \<and>
    gen_of (live (clock w1) w1 (gen_key slug)) = Some n \<and>
    live (clock w') w (cache_key_text slug n (rt_sha256_hex rt (params_blob p))) = Some (payload, x) \<and>
    unmarshal_result payload = Inr result"
proof -
  obtain w1 k where k: "cacheKey rt s ctx slug p w = (w1, k)" by fastforce
  with hit c obtain key where key: "k = Inr key" by (cases k) (auto simp: getCachedResult_def)
  obtain w2 g where g: "Cache_Get cache ctx key w1 = (w2, g)" by fastforce
  with hit c k key obtain payload where p: "w2 = w'" "g = Inr (Some payload)"
      "unmarshal_result payload = Inr result"
    by (auto simp: getCachedResult_def split: sum.splits option.splits)
  from cacheKey_Inr [OF k [unfolded key] c] obtain n where n:
      "key = cache_key_text slug n (rt_sha256_hex rt (params_blob p))"
      "gen_of (live (clock w1) w1 (gen_key slug)) = Some n" "clock w \<le> clock w1"
      "live (clock w1) w1 key = live (clock w1) w key"
    using other by blast
  from get_law [OF g] p have g': "clock w1 \<le> clock w'" "Some payload = map_option fst (live (clock w') w1 key)"
    by auto
  have "live (clock w') w1 key = live (clock w') w key"
    using live_later [OF g'(1), of w1 key] live_later [OF g'(1), of w key] n(4) by simp
  with g'(2) obtain x where "live (clock w') w key = Some (payload, x)"
    by (cases "live (clock w') w key") auto
  with g'(1) n p(3) show ?thesis by blast
qed

text \<open>So where the current generation has no entry for the query, there is no hit.\<close>

lemma miss_without_entry:
  assumes c: "rs_cache s = Some cache"
    and gen: "gen_of (live (clock w) w (gen_key slug)) = Some n" "live (clock w) w (gen_key slug) = Some (v, None)"
    and none: "live (clock w) w (cache_key_text slug n (rt_sha256_hex rt (params_blob p))) = None"
    and other: "\<And>n. cache_key_text slug n (rt_sha256_hex rt (params_blob p)) \<noteq> gen_key slug"
  shows "\<forall>result. snd (getCachedResult rt s ctx slug p w) \<noteq> Inr (Some result)"
proof (intro allI notI)
  fix result
  assume "snd (getCachedResult rt s ctx slug p w) = Inr (Some result)"
  then obtain w' where hit: "getCachedResult rt s ctx slug p w = (w', Inr (Some result))"
    by (cases "getCachedResult rt s ctx slug p w") auto
  obtain w1 k where k: "cacheKey rt s ctx slug p w = (w1, k)" by fastforce
  with hit c obtain key where key: "k = Inr key" by (cases k) (auto simp: getCachedResult_def)
  obtain w2 g where g: "Cache_Get cache ctx key w1 = (w2, g)" by fastforce
  with hit c k key obtain payload where p: "w2 = w'" "g = Inr (Some payload)"
    by (auto simp: getCachedResult_def split: sum.splits option.splits)
  obtain v1 m where v: "GetVersion cache ctx slug w = (v1, m)" by fastforce
  with k key c obtain i where i: "v1 = w1" "m = Inr i"
      "key = cache_key_text slug i (rt_sha256_hex rt (params_blob p))"
    by (auto simp: cacheKey_def split: sum.splits)
  from version_law [OF v] i have le: "clock w \<le> clock w1"
    and same: "live (clock w1) w1 = live (clock w1) w \<or> live (clock w1) w (gen_key slug) = None"
    and gi: "gen_of (live (clock w1) w1 (gen_key slug)) = Some i" by auto
  have "live (clock w1) w (gen_key slug) = Some (v, None)"
    using live_later [OF le, of w "gen_key slug"] gen(2) by (simp add: alive_def)
  with same gi gen have "i = n" "live (clock w1) w1 = live (clock w1) w" by auto
  moreover have "live (clock w1) w key = None"
    using live_later [OF le, of w key] none i(3) \<open>i = n\<close> by simp
  moreover have "clock w1 \<le> clock w'" "Some payload = map_option fst (live (clock w') w1 key)"
    using get_law [OF g] p by auto
  ultimately show False using live_later [of "clock w1" "clock w'" w1 key] by simp
qed

text \<open>What the service stores is found again, up to the numbers' types, until it expires.\<close>

lemma set_then_get:
  assumes "Cache_Set cache ctx k v d w = (w1, Inr ())" and "valid_ttl d"
    and "Cache_Get cache ctx' k w1 = (w2, Inr r)" and "d = 0 \<or> clock w2 < clock w1 + d"
  shows "r = Some v"
proof -
  have "live (clock w1) w1 k = Some (v, expiry (clock w1) d)" using set_law [OF assms(2,1)] by auto
  moreover have "clock w1 \<le> clock w2" "r = map_option fst (live (clock w2) w1 k)"
    using get_law [OF assms(3)] by auto
  ultimately show ?thesis
    using live_later [of "clock w1" "clock w2" w1 k] assms(4) by (auto simp: alive_def expiry_def)
qed

end

subsection \<open>The registry of runs\<close>

text \<open>
  \<open>status w i\<close> is the state of the run \<open>i\<close>, if it exists; \<open>canon\<close> gives the identifier a text
  denotes. A failing call may have taken effect.
\<close>

locale run_registry =
  fixes runs :: "'w RecomputeRunRepository"
    and status :: "'w \<Rightarrow> string \<Rightarrow> string option"
    and canon :: "string \<Rightarrow> string option"
  assumes create_law: "CreateRun runs ctx rq st w = (w', c) \<Longrightarrow>
      status w' = status w \<and> (\<forall>run. c \<noteq> Inr run) \<or>
      (\<exists>i. status w i = None \<and> canon i = Some i \<and> status w' = (status w)(i \<mapsto> st) \<and>
         (\<forall>run. c = Inr run \<longrightarrow> run_ID run = i \<and> run_Status run = st))"
    and get_run_law: "GetRun runs ctx i w = (w', g) \<Longrightarrow> status w' = status w \<and>
      (\<forall>run. g = Inr run \<longrightarrow> canon i = Some (run_ID run) \<and> status w (run_ID run) = Some (run_Status run))"
    and running_law: "MarkRunRunning runs ctx i w = (w', u) \<Longrightarrow>
      status w' = status w \<and> u \<noteq> Inr () \<or>
      (\<exists>c. canon i = Some c \<and>
         status w' = (status w)(c := map_option (\<lambda>_. RunStatusRunning) (status w c)))"
    and completed_law: "MarkRunCompleted runs ctx i m w = (w', u) \<Longrightarrow>
      status w' = status w \<and> u \<noteq> Inr () \<or>
      (\<exists>c. canon i = Some c \<and>
         status w' = (status w)(c := map_option (\<lambda>_. RunStatusCompleted) (status w c)))"
    and failed_law: "MarkRunFailed runs ctx i msg w = (w', u) \<Longrightarrow>
      status w' = status w \<and> u \<noteq> Inr () \<or>
      (\<exists>c. canon i = Some c \<and>
         status w' = (status w)(c := map_option (\<lambda>_. RunStatusFailed) (status w c)))"

text \<open>The service over a registry, with ports that leave the runs alone.\<close>

locale job_service = run_registry runs status canon
  for runs :: "'w RecomputeRunRepository"
    and status :: "'w \<Rightarrow> string \<Rightarrow> string option"
    and canon :: "string \<Rightarrow> string option" +
  fixes s :: "'w RecomputeService"
  assumes runs_of: "rcs_runs s = runs"
    and lookup_frame: "status (fst (GetReportDefinition (rcs_reports s) ctx slug w)) = status w"
    and report_frame: "status (fst (RecomputeReport (rcs_reports s) ctx rq i w)) = status w"
    and audit_frame: "status (fst (CreateEntry (rcs_audits s) ctx e w)) = status w"
    and acquire_frame: "status (fst (TryAcquire (rcs_locks s) ctx k tok d w)) = status w"
    and release_frame: "status (fst (Release (rcs_locks s) ctx k tok w)) = status w"
    and bump_frame: "rcs_cache s = Some cache \<Longrightarrow> status (fst (BumpVersion cache ctx slug w)) = status w"

text \<open>The states a run may be in after one mark.\<close>

definition marked :: "(string \<Rightarrow> string option) \<Rightarrow> string option \<Rightarrow> string set \<Rightarrow> (string \<Rightarrow> string option) \<Rightarrow> bool" where
  "marked old c states new \<longleftrightarrow>
     new = old \<or> (\<exists>i st. c = Some i \<and> st \<in> states \<and> new = old(i := map_option (\<lambda>_. st) (old i)))"

lemma marked_refl [simp]: "marked old c states old"
  by (simp add: marked_def)

lemma marked_trans:
  "marked a c S b \<Longrightarrow> marked b c T e \<Longrightarrow> S \<subseteq> U \<Longrightarrow> T \<subseteq> U \<Longrightarrow> marked a c U e"
  unfolding marked_def
  by (elim disjE exE conjE) (auto simp: option.map_comp comp_def)

lemma marked_other: "marked old c states new \<Longrightarrow> c \<noteq> Some i \<Longrightarrow> new i = old i"
  by (auto simp: marked_def split: if_splits)

lemma marked_own:
  "marked old c states new \<Longrightarrow> old i = Some st \<Longrightarrow> \<exists>st'. new i = Some st' \<and> (st' = st \<or> st' \<in> states)"
  by (auto simp: marked_def)

lemma marked_None: "marked old c states new \<Longrightarrow> new i = None \<longleftrightarrow> old i = None"
  by (auto simp: marked_def split: if_splits)

lemma marked_new:
  assumes "marked (old(i \<mapsto> st)) (Some i) {st'} new"
  shows "\<exists>st'' \<in> {st, st'}. new = old(i \<mapsto> st'')"
  using assms by (auto simp: marked_def)

context job_service begin

lemma mark_running: "marked (status w) (canon i) {RunStatusRunning} (status (fst (MarkRunRunning runs ctx i w)))"
  using running_law [of ctx i w] by (cases "MarkRunRunning runs ctx i w") (auto simp: marked_def)

lemma mark_completed:
  "marked (status w) (canon i) {RunStatusCompleted} (status (fst (MarkRunCompleted runs ctx i m w)))"
  using completed_law [of ctx i m w] by (cases "MarkRunCompleted runs ctx i m w") (auto simp: marked_def)

lemma mark_failed:
  "marked (status w) (canon i) {RunStatusFailed} (status (fst (MarkRunFailed runs ctx i msg w)))"
  using failed_law [of ctx i msg w] by (cases "MarkRunFailed runs ctx i msg w") (auto simp: marked_def)

lemma bumpCache_frame: "status (bumpCache s ctx slug w) = status w"
  by (simp add: bumpCache_def bump_frame split: option.split)

lemmas frames = report_frame audit_frame release_frame bumpCache_frame

text \<open>A worker changes the state of its own run only, and only to running, completed or failed.\<close>

lemma processJob_status:
  "marked (status w) (canon (job_runID job)) {RunStatusRunning, RunStatusCompleted, RunStatusFailed}
     (status (processJob rt s ctx job w))"
proof -
  let ?ctx = "WithTimeout ctx (rt_now rt w) (2 * ns_Minute)"
  let ?id = "job_runID job" and ?U = "{RunStatusRunning, RunStatusCompleted, RunStatusFailed}"
  obtain w1 u where m: "MarkRunRunning runs ?ctx ?id w = (w1, u)" by fastforce
  obtain w2 v where r: "RecomputeReport (rcs_reports s) ?ctx (job_request job) ?id w1 = (w2, v)" by fastforce
  have first: "marked (status w) (canon ?id) {RunStatusRunning} (status w1)"
    using mark_running [of w ?id ?ctx] by (simp add: m)
  have same: "status w2 = status w1" using report_frame [of ?ctx "job_request job" ?id w1] by (simp add: r)
  show ?thesis
  proof (cases u)
    case (Inl err)
    then show ?thesis
      using marked_trans [OF first marked_refl [where states = "{}"], of ?U]
      by (simp add: processJob_def Let_def runs_of m frames)
  next
    case (Inr x)
    show ?thesis
    proof (cases v)
      case (Inl err)
      have "marked (status w) (canon ?id) ?U (status (fst (MarkRunFailed runs ?ctx ?id (Error err) w2)))"
        using first mark_failed [of w2 ?id ?ctx "Error err"] unfolding same by (rule marked_trans) auto
      with Inl Inr show ?thesis by (simp add: processJob_def Let_def runs_of m r frames)
    next
      case summary: (Inr summary)
      have "marked (status w) (canon ?id) ?U (status (fst (MarkRunCompleted runs ?ctx ?id summary w2)))"
        using first mark_completed [of w2 ?id ?ctx summary] unfolding same by (rule marked_trans) auto
      with summary Inr show ?thesis by (simp add: processJob_def Let_def runs_of m r frames)
    qed
  qed
qed

text \<open>
  A trigger adds at most one run. Where it returns a run, that run is pending and its job is
  at the end of the channel; where it adds one and returns an error, the run may be left
  pending (its creation reported failed) or be marked failed (the channel was full).
\<close>

lemma Trigger_status:
  assumes t: "RecomputeService_Trigger s ctx tok rq (w, q) = ((w', q'), r)"
  shows "status w' = status w \<and> q' = q \<and> (\<forall>run. r \<noteq> Inr run) \<or>
    (\<exists>i st. status w i = None \<and> status w' = (status w)(i \<mapsto> st) \<and>
       (st = RunStatusPending \<or> st = RunStatusFailed) \<and>
       (\<forall>run. r = Inr run \<longrightarrow> run_ID run = i \<and> run_Status run = RunStatusPending \<and> st = RunStatusPending \<and>
          length q < rcs_queueSize s \<and>
          q' = q @ [\<lparr>job_runID = i, job_request = defaultRequester rq, job_lockKey = lockKey rq,
                     job_lockToken = tok\<rparr>]) \<and>
       ((\<forall>run. r \<noteq> Inr run) \<longrightarrow> q' = q))"
proof -
  have look: "status w1 = status w" if "GetReportDefinition (rcs_reports s) ctx (rq_ReportSlug rq) w = (w1, d)" for w1 d
    using lookup_frame [of ctx "rq_ReportSlug rq" w] by (simp add: that)
  have acq: "status w2 = status w1" if "TryAcquire (rcs_locks s) ctx (lockKey rq) tok (rcs_lockTTL s) w1 = (w2, a)" for w1 w2 a
    using acquire_frame [of ctx "lockKey rq" tok "rcs_lockTTL s" w1] by (simp add: that)
  from t show ?thesis
  proof (cases rule: Trigger_cases)
    case (uncreated w1 rep w2 w3 e)
    then have "status w2 = status w" using look acq by metis
    with create_law [OF uncreated(4) [unfolded runs_of]] uncreated(5-7) show ?thesis by (auto simp: release_frame)
  next
    case (queued w1 rep w2 w3 run)
    then have "status w2 = status w" using look acq by metis
    with create_law [OF queued(4) [unfolded runs_of]] queued(5-8) show ?thesis by (auto simp: audit_frame)
  next
    case (full w1 rep w2 w3 run w4 w5)
    then have "status w2 = status w" using look acq by metis
    with create_law [OF full(4) [unfolded runs_of]] obtain i where i: "status w i = None" "canon i = Some i"
        "status w3 = (status w)(i \<mapsto> RunStatusPending)" "run_ID run = i" by auto
    then have "\<exists>st \<in> {RunStatusPending, RunStatusFailed}. status w5 = (status w)(i \<mapsto> st)"
      using mark_failed [of w4 i ctx] unfolding full(5,6) runs_of by (intro marked_new) (simp add: audit_frame)
    with i(1) full(7,8,10) show ?thesis by (auto simp: release_frame)
  next
    case (unknown err)
    with look [OF unknown(2)] show ?thesis by simp
  next
    case (unlocked w1 rep a err)
    with look [OF unlocked(2)] acq [OF unlocked(3)] show ?thesis by simp
  qed simp
qed

end

end
