(* ===== verification/Redis_Store.thy ===== *)
theory Redis_Store
  imports Backend Contracts
begin

section \<open>The Redis store\<close>

text \<open>
  \<open>internal/infrastructure/redis/store.go\<close>. The Redis server is not part of the source: it
  is a parameter, a record of the commands the store sends, each a function of the server's
  time and state. The locale \<open>redis_protocol\<close> states the documented behaviour of those
  commands on the live entries (\<open>view\<close>: what an entry holds and when it expires, for the
  entries that have not expired at a given time); \<open>keyspace_server\<close>, a map with expiry
  times, is one server that has it. The release script is source, and modelled.
\<close>

record 'r redis_server =
  srv_get :: "gotime \<Rightarrow> string \<Rightarrow> 'r \<Rightarrow> bytes option"
  srv_set :: "gotime \<Rightarrow> string \<Rightarrow> bytes \<Rightarrow> duration \<Rightarrow> 'r \<Rightarrow> 'r"
  srv_setnx :: "gotime \<Rightarrow> string \<Rightarrow> bytes \<Rightarrow> duration \<Rightarrow> 'r \<Rightarrow> 'r \<times> (go_error + bool)"
  srv_incr :: "gotime \<Rightarrow> string \<Rightarrow> 'r \<Rightarrow> 'r \<times> (go_error + int)"
  srv_del :: "gotime \<Rightarrow> string \<Rightarrow> 'r \<Rightarrow> 'r \<times> int"
  srv_flush :: "'r \<Rightarrow> 'r"

subsection \<open>The methods of the store\<close>

definition RedisStore_PingCache :: "'r redis_server \<Rightarrow> ctx \<Rightarrow> (('d, 'r) world, unit) io" where
  "RedisStore_PingCache srv ctx = rd_call ctx (\<lambda>now r. (r, Inr ()))"

definition RedisStore_FlushAll :: "'r redis_server \<Rightarrow> ctx \<Rightarrow> (('d, 'r) world, unit) io" where
  "RedisStore_FlushAll srv ctx = rd_call ctx (\<lambda>now r. (srv_flush srv r, Inr ()))"

text \<open>The client's \<open>Get\<close>: the error \<open>redis.Nil\<close> where there is no entry.\<close>

definition client_Get :: "'r redis_server \<Rightarrow> ctx \<Rightarrow> string \<Rightarrow> (('d, 'r) world, bytes) io" where
  "client_Get srv ctx key = rd_call ctx (\<lambda>now r.
     (r, case srv_get srv now key r of None \<Rightarrow> Inl RedisNil | Some v \<Rightarrow> Inr v))"

definition client_Set :: "'r redis_server \<Rightarrow> ctx \<Rightarrow> string \<Rightarrow> bytes \<Rightarrow> duration \<Rightarrow> (('d, 'r) world, unit) io"
  where
  "client_Set srv ctx key v ttl = rd_call ctx (\<lambda>now r. (srv_set srv now key v ttl r, Inr ()))"

definition RedisStore_Get :: "'r redis_server \<Rightarrow> ctx \<Rightarrow> string \<Rightarrow> (('d, 'r) world, bytes option) io" where
  "RedisStore_Get srv ctx key w =
     (case client_Get srv ctx key w of
        (w1, Inl err) \<Rightarrow> if err = RedisNil then (w1, Inr None) else (w1, Inl err)
      | (w1, Inr v) \<Rightarrow> (w1, Inr (Some v)))"

definition RedisStore_Set ::
    "'r redis_server \<Rightarrow> ctx \<Rightarrow> string \<Rightarrow> bytes \<Rightarrow> duration \<Rightarrow> (('d, 'r) world, unit) io" where
  "RedisStore_Set srv ctx key v ttl = client_Set srv ctx key v ttl"

definition versionKey :: "string \<Rightarrow> string" where
  "versionKey slug = ''report:version:'' @ slug"

definition parse_version :: "bytes \<Rightarrow> int option" where
  "parse_version v = (case v of Text s \<Rightarrow> ParseInt64 s | Doc _ \<Rightarrow> None)"

definition RedisStore_GetVersion :: "'r redis_server \<Rightarrow> ctx \<Rightarrow> string \<Rightarrow> (('d, 'r) world, int) io" where
  "RedisStore_GetVersion srv ctx slug w =
     (let key = versionKey slug in
      case client_Get srv ctx key w of
        (w1, Inl err) \<Rightarrow>
          if err = RedisNil then
            (case client_Set srv ctx key (Text ''1'') 0 w1 of
               (w2, Inl e) \<Rightarrow> (w2, Inl e)
             | (w2, Inr _) \<Rightarrow> (w2, Inr 1))
          else (w1, Inl err)
      | (w1, Inr v) \<Rightarrow>
          (case parse_version v of
             None \<Rightarrow> (w1, Inl (PlainError ''strconv.ParseInt''))
           | Some version \<Rightarrow> (w1, Inr version)))"

definition RedisStore_BumpVersion :: "'r redis_server \<Rightarrow> ctx \<Rightarrow> string \<Rightarrow> (('d, 'r) world, int) io" where
  "RedisStore_BumpVersion srv ctx slug = rd_call ctx (\<lambda>now r. srv_incr srv now (versionKey slug) r)"

definition RedisStore_TryAcquire ::
    "'r redis_server \<Rightarrow> ctx \<Rightarrow> string \<Rightarrow> string \<Rightarrow> duration \<Rightarrow> (('d, 'r) world, bool) io" where
  "RedisStore_TryAcquire srv ctx key token ttl =
     rd_call ctx (\<lambda>now r. srv_setnx srv now key (Text token) ttl r)"

text \<open>The Lua script, which the server runs atomically.\<close>

definition releaseLockScript :: "'r redis_server \<Rightarrow> gotime \<Rightarrow> string \<Rightarrow> string \<Rightarrow> 'r \<Rightarrow> 'r \<times> int" where
  "releaseLockScript srv now key token r =
     (if srv_get srv now key r = Some (Text token) then srv_del srv now key r else (r, 0))"

definition RedisStore_Release ::
    "'r redis_server \<Rightarrow> ctx \<Rightarrow> string \<Rightarrow> string \<Rightarrow> (('d, 'r) world, unit) io" where
  "RedisStore_Release srv ctx key token w =
     (case rd_call ctx (\<lambda>now r. case releaseLockScript srv now key token r of (r', n) \<Rightarrow> (r', Inr n)) w of
        (w1, Inl err) \<Rightarrow> if err = RedisNil then (w1, Inr ()) else (w1, Inl err)
      | (w1, Inr _) \<Rightarrow> (w1, Inr ()))"

definition redis_cache :: "'r redis_server \<Rightarrow> ('d, 'r) world ReportCache" where
  "redis_cache srv =
     \<lparr>Cache_Get = RedisStore_Get srv, Cache_Set = RedisStore_Set srv,
      GetVersion = RedisStore_GetVersion srv, BumpVersion = RedisStore_BumpVersion srv\<rparr>"

definition redis_locks :: "'r redis_server \<Rightarrow> ('d, 'r) world RecomputeLock" where
  "redis_locks srv = \<lparr>TryAcquire = RedisStore_TryAcquire srv, Release = RedisStore_Release srv\<rparr>"

lemmas redis_port_simps [port_simps] = redis_cache_def redis_locks_def

subsection \<open>The documented behaviour of the server\<close>

locale redis_protocol =
  fixes srv :: "'r redis_server"
    and view :: "gotime \<Rightarrow> 'r \<Rightarrow> string \<Rightarrow> entry option"
  assumes view_later: "s \<le> t \<Longrightarrow> view t r k = alive t (view s r k)"
    and get_law: "srv_get srv t k r = map_option fst (view t r k)"
    and set_law: "valid_ttl d \<Longrightarrow> view t (srv_set srv t k v d r) = (view t r)(k \<mapsto> (v, expiry t d))"
    and setnx_free: "valid_ttl d \<Longrightarrow> view t r k = None \<Longrightarrow>
      \<exists>r'. srv_setnx srv t k v d r = (r', Inr True) \<and> view t r' = (view t r)(k \<mapsto> (v, expiry t d))"
    and setnx_taken: "valid_ttl d \<Longrightarrow> view t r k \<noteq> None \<Longrightarrow>
      \<exists>r'. srv_setnx srv t k v d r = (r', Inr False) \<and> view t r' = view t r"
    and incr_new: "view t r k = None \<Longrightarrow>
      \<exists>r'. srv_incr srv t k r = (r', Inr 1) \<and> view t r' = (view t r)(k \<mapsto> (Text ''1'', None))"
    and incr_law: "view t r k = Some (Text (int_dec n), x) \<Longrightarrow> min_int64 \<le> n \<Longrightarrow> n < max_int64 \<Longrightarrow>
      \<exists>r'. srv_incr srv t k r = (r', Inr (n + 1)) \<and> view t r' = (view t r)(k \<mapsto> (Text (int_dec (n + 1)), x))"
    and incr_other: "k' \<noteq> k \<Longrightarrow> view t (fst (srv_incr srv t k r)) k' = view t r k'"
    and del_law: "view t (fst (srv_del srv t k r)) = (view t r)(k := None)"
    and flush_law: "view t (srv_flush srv r) = Map.empty"

subsection \<open>The store keeps the contracts of the lock and of the cache\<close>

context redis_protocol begin

lemma view_same_later: "view s r' = view s r \<Longrightarrow> s \<le> t \<Longrightarrow> view t r' = view t r"
  by (simp add: fun_eq_iff view_later)

lemma TryAcquire_law:
  assumes "valid_ttl d" and "RedisStore_TryAcquire srv ctx k tok d w = (w', r)"
  shows "w_now w \<le> w_now w' \<and>
    (view (w_now w') (w_rd w') = view (w_now w') (w_rd w) \<and> r \<noteq> Inr True \<and>
       (r = Inr False \<longrightarrow> view (w_now w') (w_rd w) k \<noteq> None) \<or>
     view (w_now w') (w_rd w) k = None \<and> r \<noteq> Inr False \<and>
       view (w_now w') (w_rd w') = (view (w_now w') (w_rd w))(k \<mapsto> (Text tok, expiry (w_now w') d)))"
proof -
  note free = setnx_free [OF assms(1), of "w_now w'" "w_rd w" k "Text tok"]
  note taken = setnx_taken [OF assms(1), of "w_now w'" "w_rd w" k "Text tok"]
  from assms(2) [unfolded RedisStore_TryAcquire_def] show ?thesis
    by (cases rule: rd_call_cases; cases "view (w_now w') (w_rd w) k = None")
      (use free taken in auto)
qed

lemma Release_law:
  assumes "RedisStore_Release srv ctx k tok w = (w', u)"
  shows "w_now w \<le> w_now w' \<and>
    (view (w_now w') (w_rd w') = view (w_now w') (w_rd w) \<and>
       (u = Inr () \<longrightarrow> (\<forall>x. view (w_now w') (w_rd w) k \<noteq> Some (Text tok, x))) \<or>
     (\<exists>x. view (w_now w') (w_rd w) k = Some (Text tok, x)) \<and>
       view (w_now w') (w_rd w') = (view (w_now w') (w_rd w))(k := None))"
proof -
  let ?g = "\<lambda>now r. case releaseLockScript srv now k tok r of (r', n) \<Rightarrow> (r', Inr n)"
  obtain w1 n where c: "rd_call ctx ?g w = (w1, n)" by fastforce
  have script: "view t r' = (view t r)(k := None) \<and> (\<exists>x. view t r k = Some (Text tok, x)) \<or>
      r' = r \<and> (\<forall>x. view t r k \<noteq> Some (Text tok, x))"
    if "releaseLockScript srv t k tok r = (r', m)" for t r r' m
    using that del_law [of t k r] by (auto simp: releaseLockScript_def get_law split: if_splits)
  have res: "w' = w1" "u = Inr () \<longleftrightarrow> (\<exists>v. n = Inr v) \<or> n = Inl RedisNil"
    using assms c by (auto simp: RedisStore_Release_def split: sum.splits if_splits)
  from c show ?thesis
  proof (cases rule: rd_call_cases)
    case no_effect
    with res show ?thesis by auto
  next
    case (served r')
    then show ?thesis using res script [of "w_now w1" "w_rd w"] by (auto split: prod.splits)
  next
    case (reply_lost r' n')
    then show ?thesis using res script [of "w_now w1" "w_rd w"] by (auto split: prod.splits)
  qed
qed

lemma Get_law:
  assumes "RedisStore_Get srv ctx k w = (w', g)"
  shows "w_now w \<le> w_now w' \<and> view (w_now w') (w_rd w') = view (w_now w') (w_rd w) \<and>
    (\<forall>v. g = Inr v \<longrightarrow> v = map_option fst (view (w_now w') (w_rd w) k))"
proof -
  obtain w1 x where c: "client_Get srv ctx k w = (w1, x)" by fastforce
  with assms have "w' = w1" "g = (case x of Inl err \<Rightarrow> if err = RedisNil then Inr None else Inl err | Inr v \<Rightarrow> Inr (Some v))"
    by (auto simp: RedisStore_Get_def split: sum.splits if_splits)
  moreover from c [unfolded client_Get_def] have "w_now w \<le> w_now w1 \<and> w_rd w1 = w_rd w \<and>
      (\<forall>v. x = Inr v \<longrightarrow> view (w_now w1) (w_rd w) k \<noteq> None \<and> Some v = map_option fst (view (w_now w1) (w_rd w) k)) \<and>
      (x = Inl RedisNil \<longrightarrow> view (w_now w1) (w_rd w) k = None)"
    by (cases rule: rd_call_cases) (auto simp: get_law split: option.splits)
  ultimately show ?thesis by (auto split: sum.splits if_splits)
qed

lemma Set_law:
  assumes "valid_ttl d" and "RedisStore_Set srv ctx k v d w = (w', u)"
  shows "w_now w \<le> w_now w' \<and>
    (view (w_now w') (w_rd w') = view (w_now w') (w_rd w) \<and> u \<noteq> Inr () \<or>
     view (w_now w') (w_rd w') = (view (w_now w') (w_rd w))(k \<mapsto> (v, expiry (w_now w') d)))"
  using assms(2) [unfolded RedisStore_Set_def client_Set_def]
  by (cases rule: rd_call_cases) (auto simp: set_law [OF assms(1)])

lemma Bump_law:
  assumes "RedisStore_BumpVersion srv ctx slug w = (w', n)"
    and "view (w_now w') (w_rd w) (versionKey slug) = Some (Text (int_dec i), x)"
    and "min_int64 \<le> i" and "i < max_int64"
  shows "w_now w \<le> w_now w' \<and>
    (view (w_now w') (w_rd w') = view (w_now w') (w_rd w) \<and> (\<forall>m. n \<noteq> Inr m) \<or>
     view (w_now w') (w_rd w') = (view (w_now w') (w_rd w))(versionKey slug \<mapsto> (Text (int_dec (i + 1)), x)) \<and>
       (\<forall>m. n = Inr m \<longrightarrow> m = i + 1))"
  using assms(1) [unfolded RedisStore_BumpVersion_def] incr_law [OF assms(2-4)]
  by (cases rule: rd_call_cases) auto

lemma GetVersion_law:
  assumes "RedisStore_GetVersion srv ctx slug w = (w', n)"
  shows "w_now w \<le> w_now w' \<and>
    (view (w_now w') (w_rd w') = view (w_now w') (w_rd w) \<or>
     view (w_now w') (w_rd w) (versionKey slug) = None \<and>
       view (w_now w') (w_rd w') = (view (w_now w') (w_rd w))(versionKey slug \<mapsto> (Text ''1'', None))) \<and>
    (\<forall>i. n = Inr i \<longrightarrow> gen_of (view (w_now w') (w_rd w') (versionKey slug)) = Some i)"
proof -
  let ?k = "versionKey slug"
  have ttl: "valid_ttl 0" by (simp add: valid_ttl_def)
  have one: "ParseInt64 ''1'' = Some 1" by code_simp
  obtain w1 x where c: "client_Get srv ctx ?k w = (w1, x)" by fastforce
  from c [unfolded client_Get_def] have get: "w_now w \<le> w_now w1" "w_rd w1 = w_rd w"
      "x = Inr v \<Longrightarrow> map_option fst (view (w_now w1) (w_rd w) ?k) = Some v"
      "x = Inl RedisNil \<Longrightarrow> view (w_now w1) (w_rd w) ?k = None" for v
    by (cases rule: rd_call_cases; auto simp: get_law split: option.splits)+
  show ?thesis
  proof (cases "x = Inl RedisNil")
    case True
    obtain w2 u where s: "client_Set srv ctx ?k (Text ''1'') 0 w1 = (w2, u)" by fastforce
    with c True assms have w': "w' = w2" "n = (case u of Inl e \<Rightarrow> Inl e | Inr _ \<Rightarrow> Inr 1)"
      by (auto simp: RedisStore_GetVersion_def Let_def split: sum.splits)
    from Set_law [OF ttl s [folded RedisStore_Set_def]] have le: "w_now w1 \<le> w_now w2"
      and eff: "view (w_now w2) (w_rd w2) = view (w_now w2) (w_rd w) \<and> u \<noteq> Inr () \<or>
        view (w_now w2) (w_rd w2) = (view (w_now w2) (w_rd w))(?k \<mapsto> (Text ''1'', None))"
      by (auto simp: expiry_def get(2))
    have "view (w_now w2) (w_rd w) ?k = None"
      using view_later [OF le, of "w_rd w" ?k] get(4) [OF True] by simp
    with eff le get(1) w' one show ?thesis by (auto simp: gen_of_def split: sum.splits)
  next
    case False
    then have "w' = w1" "n = Inr i \<Longrightarrow> \<exists>v. x = Inr v \<and> parse_version v = Some i" for i
      using c assms by (auto simp: RedisStore_GetVersion_def Let_def split: sum.splits option.splits if_splits)
    with get show ?thesis
      by (fastforce simp: gen_of_def parse_version_def split: option.splits bytes.splits)
  qed
qed

end

sublocale redis_protocol \<subseteq> lock: lease_lock "redis_locks srv :: ('d, 'r) world RecomputeLock" w_now
    "\<lambda>t w. view t (w_rd w)"
  by unfold_locales (auto simp: port_simps view_later dest: TryAcquire_law Release_law)

sublocale redis_protocol \<subseteq> cache: versioned_cache "redis_cache srv :: ('d, 'r) world ReportCache" w_now
    "\<lambda>t w. view t (w_rd w)" versionKey
  by unfold_locales
    (auto simp: port_simps view_later dest: Get_law Set_law GetVersion_law Bump_law)

context redis_protocol begin

lemmas lock_exclusive = lock.exclusive_while_leased
lemmas cache_hit = cache.cached_hit
lemmas cache_miss = cache.miss_without_entry
lemmas cache_set_get = cache.set_then_get
lemmas cache_key = cache.cacheKey_Inr

end

subsection \<open>A server that behaves so: a key space with expiry times\<close>

type_synonym keyspace = "string \<Rightarrow> entry option"

definition ks_view :: "gotime \<Rightarrow> keyspace \<Rightarrow> string \<Rightarrow> entry option" where
  "ks_view t r k = alive t (r k)"

definition ks_incr :: "gotime \<Rightarrow> string \<Rightarrow> keyspace \<Rightarrow> keyspace \<times> (go_error + int)" where
  "ks_incr t k r =
     (case ks_view t r k of
        None \<Rightarrow> (r(k \<mapsto> (Text ''1'', None)), Inr 1)
      | Some (v, x) \<Rightarrow>
          (case parse_version v of
             None \<Rightarrow> (r, Inl (PlainError ''ERR value is not an integer or out of range''))
           | Some n \<Rightarrow>
               if n < max_int64 then (r(k \<mapsto> (Text (int_dec (n + 1)), x)), Inr (n + 1))
               else (r, Inl (PlainError ''ERR increment or decrement would overflow''))))"

definition keyspace_server :: "keyspace redis_server" where
  "keyspace_server =
     \<lparr>srv_get = (\<lambda>t k r. map_option fst (ks_view t r k)),
      srv_set = (\<lambda>t k v d r. r(k \<mapsto> (v, expiry t d))),
      srv_setnx = (\<lambda>t k v d r.
        if d < 0 then (r, Inl (PlainError ''ERR invalid expire time in 'set' command''))
        else if ks_view t r k = None then (r(k \<mapsto> (v, expiry t d)), Inr True) else (r, Inr False)),
      srv_incr = ks_incr,
      srv_del = (\<lambda>t k r. (r(k := None), if ks_view t r k = None then 0 else 1)),
      srv_flush = (\<lambda>r. Map.empty)\<rparr>"

lemma ks_view_upd: "0 \<le> d \<Longrightarrow> ks_view t (r(k \<mapsto> (v, expiry t d))) = (ks_view t r)(k \<mapsto> (v, expiry t d))"
  by (auto simp: ks_view_def fun_eq_iff alive_def not_expired_expiry)

lemma ks_view_upd_live:
  "\<not> expired t x \<Longrightarrow> ks_view t (r(k \<mapsto> (v, x))) = (ks_view t r)(k \<mapsto> (v, x))"
  by (auto simp: ks_view_def fun_eq_iff alive_def)

interpretation ks: redis_protocol keyspace_server ks_view
proof (unfold_locales, goal_cases)
  case (1 s t r k)
  then show ?case by (simp add: ks_view_def alive_alive)
next
  case (7 t r k n x)
  then have "\<not> expired t x" by (simp add: ks_view_def alive_Some_iff)
  with 7 show ?case
    by (simp add: keyspace_server_def ks_incr_def parse_version_def ParseInt64_int_dec ks_view_upd_live)
next
  case (8 k' k t r)
  then show ?case
    by (auto simp: keyspace_server_def ks_incr_def ks_view_def split: option.split prod.split)
next
  case (9 t k r)
  show ?case by (auto simp: keyspace_server_def ks_view_def fun_eq_iff)
next
  case (10 t r)
  show ?case by (auto simp: keyspace_server_def ks_view_def fun_eq_iff)
qed (auto simp: keyspace_server_def valid_ttl_def ks_view_upd ks_view_upd_live ks_incr_def)

end
