(* ===== verification/Pg_Catalog.thy ===== *)
theory Pg_Catalog
  imports Pg_Schema
begin

section \<open>The report catalog\<close>

text \<open>
  \<open>Store.ListReportDefinitions\<close>, \<open>Store.GetReportDefinition\<close> and \<open>scanReportDefinition\<close> of
  \<open>internal/infrastructure/postgres/store.go\<close>: the list with its search, the allowlist of
  sort fields and the page, and the detail. The count and the page are two statements, each
  with its own view of the table.
\<close>

subsection \<open>Rows\<close>

text \<open>\<open>ARRAY_AGG(aw.window_name ORDER BY CASE aw.window_name WHEN 'day' THEN 1 ELSE 2 END)\<close>.\<close>

definition window_rank :: "string \<Rightarrow> int" where
  "window_rank u = (if u = ''day'' then 1 else 2)"

definition allowed_windows :: "pgdb \<Rightarrow> string \<Rightarrow> string list" where
  "allowed_windows d slug =
     sort_by (\<lambda>a b. window_rank a \<le> window_rank b)
       (map aw_window_name (filter (\<lambda>aw. aw_report_slug aw = slug) (db_windows d)))"

text \<open>\<open>json.Unmarshal\<close> into a \<open>map[string]string\<close>: \<open>null\<close> gives no map, a member \<open>null\<close> the empty text.\<close>

fun filter_member :: "string \<times> json \<Rightarrow> (string \<times> string) option" where
  "filter_member (k, JStr s) = Some (k, s)"
| "filter_member (k, JNull) = Some (k, '''')"
| "filter_member (k, _) = None"

fun decode_filters :: "json \<Rightarrow> go_error + (string \<times> string) list" where
  "decode_filters JNull = Inr []"
| "decode_filters (JObj kvs) =
     (case those (map filter_member kvs) of
        None \<Rightarrow> Inl (PlainError ''json: cannot unmarshal'')
      | Some m \<Rightarrow> Inr m)"
| "decode_filters _ = Inl (PlainError ''json: cannot unmarshal'')"

definition scanReportDefinition :: "pgdb \<Rightarrow> definition_row \<Rightarrow> go_error + ReportDefinition" where
  "scanReportDefinition d r =
     (case decode_filters (df_supported_filters r) of
        Inl err \<Rightarrow> Inl err
      | Inr filters \<Rightarrow>
          Inr \<lparr>rd_Slug = df_slug r, rd_Name = df_name r, rd_Description = df_description r,
               rd_CacheTTLSeconds = df_cache_ttl_seconds r, rd_DefaultWindow = df_default_window r,
               rd_AllowedWindows = allowed_windows d (df_slug r), rd_SupportedFilters = filters\<rparr>)"

text \<open>The loop over the rows, which stops at the first error.\<close>

fun scan_rows :: "('a \<Rightarrow> go_error + 'b) \<Rightarrow> 'a list \<Rightarrow> go_error + 'b list" where
  "scan_rows f [] = Inr []"
| "scan_rows f (x # xs) =
     (case f x of
        Inl err \<Rightarrow> Inl err
      | Inr y \<Rightarrow> (case scan_rows f xs of Inl err \<Rightarrow> Inl err | Inr ys \<Rightarrow> Inr (y # ys)))"

subsection \<open>The list\<close>

definition clampListFilter :: "ReportListFilter \<Rightarrow> ReportListFilter" where
  "clampListFilter flt =
     (let f1 = (if lf_Limit flt < 1 then flt\<lparr>lf_Limit := 20\<rparr> else flt);
          f2 = (if 100 < lf_Limit f1 then f1\<lparr>lf_Limit := 100\<rparr> else f1)
      in if lf_Offset f2 < 0 then f2\<lparr>lf_Offset := 0\<rparr> else f2)"

definition sortField :: "ReportListFilter \<Rightarrow> string" where
  "sortField flt =
     (if lf_Sort flt \<in> set [''slug'', ''name'', ''updated_at'', ''cache_ttl_seconds'']
      then lf_Sort flt else ''name'')"

definition descending :: "ReportListFilter \<Rightarrow> bool" where
  "descending flt = EqualFold (lf_Order flt) ''desc''"

definition catalog_matches :: "string \<Rightarrow> definition_row \<Rightarrow> bool" where
  "catalog_matches search r \<longleftrightarrow>
     df_is_public r \<and>
     (search = '''' \<or> ILIKE (df_slug r) (''%'' @ search @ ''%'') \<or> ILIKE (df_name r) (''%'' @ search @ ''%''))"

text \<open>\<open>ORDER BY field\<close>, one case per column of the allowlist.\<close>

definition field_le :: "pg_server \<Rightarrow> string \<Rightarrow> definition_row \<Rightarrow> definition_row \<Rightarrow> bool" where
  "field_le pg field a b =
     (if field = ''slug'' then pgs_text_le pg (df_slug a) (df_slug b)
      else if field = ''updated_at'' then df_updated_at a \<le> df_updated_at b
      else if field = ''cache_ttl_seconds'' then df_cache_ttl_seconds a \<le> df_cache_ttl_seconds b
      else pgs_text_le pg (df_name a) (df_name b))"

definition catalog_le :: "pg_server \<Rightarrow> ReportListFilter \<Rightarrow> definition_row \<Rightarrow> definition_row \<Rightarrow> bool" where
  "catalog_le pg flt a b =
     (if descending flt then field_le pg (sortField flt) b a else field_le pg (sortField flt) a b)"

definition catalog_page :: "pg_server \<Rightarrow> ReportListFilter \<Rightarrow> pgdb \<Rightarrow> go_error + definition_row list" where
  "catalog_page pg flt d =
     (case limit_offset (lf_Limit flt) (lf_Offset flt)
             (sort_by (catalog_le pg flt) (filter (catalog_matches (lf_Search flt)) (db_definitions d))) of
        Inl msg \<Rightarrow> Inl (pg_error msg)
      | Inr rows \<Rightarrow> Inr rows)"

definition Store_ListReportDefinitions ::
    "pg_server \<Rightarrow> ctx \<Rightarrow> ReportListFilter \<Rightarrow> ((pgdb, 'r) world, ReportDefinition list \<times> int) io" where
  "Store_ListReportDefinitions pg ctx flt0 w =
     (let flt = clampListFilter flt0 in
      case db_call ctx (\<lambda>now d.
             (d, Inr (int (length (filter (catalog_matches (lf_Search flt)) (db_definitions d)))))) w of
        (w1, Inl err) \<Rightarrow> (w1, Inl err)
      | (w1, Inr cnt) \<Rightarrow>
     (case db_call ctx (\<lambda>now d.
             (d, case catalog_page pg flt d of
                   Inl err \<Rightarrow> Inl err
                 | Inr rows \<Rightarrow> scan_rows (scanReportDefinition d) rows)) w1 of
        (w2, Inl err) \<Rightarrow> (w2, Inl err)
      | (w2, Inr reports) \<Rightarrow> (w2, Inr (reports, cnt))))"

subsection \<open>The detail\<close>

definition Store_GetReportDefinition ::
    "pg_server \<Rightarrow> ctx \<Rightarrow> string \<Rightarrow> ((pgdb, 'r) world, ReportDefinition) io" where
  "Store_GetReportDefinition pg ctx slug w =
     (case db_call ctx (\<lambda>now d.
             (d, case filter (\<lambda>r. df_slug r = slug \<and> df_is_public r) (db_definitions d) of
                   [] \<Rightarrow> Inl ErrNoRows
                 | r # _ \<Rightarrow> scanReportDefinition d r)) w of
        (w1, Inl err) \<Rightarrow>
          if err = ErrNoRows then (w1, Inl (NewAppError ErrCodeNotFound ''report was not found''))
          else (w1, Inl err)
      | (w1, Inr report) \<Rightarrow> (w1, Inr report))"

subsection \<open>Facts\<close>

lemma clampListFilter_bounds:
  "1 \<le> lf_Limit (clampListFilter f)" "lf_Limit (clampListFilter f) \<le> 100"
  "0 \<le> lf_Offset (clampListFilter f)"
  by (auto simp: clampListFilter_def Let_def)

lemma clampListFilter_simps [simp]:
  "lf_Search (clampListFilter f) = lf_Search f" "lf_Sort (clampListFilter f) = lf_Sort f"
  "lf_Order (clampListFilter f) = lf_Order f"
  by (auto simp: clampListFilter_def Let_def)

lemma clampListFilter_id:
  "1 \<le> lf_Limit f \<Longrightarrow> lf_Limit f \<le> 100 \<Longrightarrow> 0 \<le> lf_Offset f \<Longrightarrow> clampListFilter f = f"
  by (simp add: clampListFilter_def)

lemma limit_offset_ok: "0 \<le> lim \<Longrightarrow> 0 \<le> off \<Longrightarrow> limit_offset lim off rows = Inr (page lim off rows)"
  by (simp add: limit_offset_def)

lemma catalog_page_clamped:
  "catalog_page pg (clampListFilter f) d =
     Inr (page (lf_Limit (clampListFilter f)) (lf_Offset (clampListFilter f))
       (sort_by (catalog_le pg (clampListFilter f)) (filter (catalog_matches (lf_Search f)) (db_definitions d))))"
  using clampListFilter_bounds [of f] by (simp add: catalog_page_def limit_offset_ok)

lemma scan_rows_Inr_iff:
  "scan_rows f xs = Inr ys \<longleftrightarrow> list_all2 (\<lambda>x y. f x = Inr y) xs ys"
proof (induction xs arbitrary: ys)
  case (Cons x xs)
  show ?case by (cases ys) (auto simp: Cons.IH [symmetric] split: sum.splits)
qed auto

lemma scan_rows_Inl: "scan_rows f xs = Inl e \<Longrightarrow> \<exists>x \<in> set xs. f x = Inl e"
  by (induction xs) (auto split: sum.splits)

lemma scan_slug: "scanReportDefinition d r = Inr rep \<Longrightarrow> rd_Slug rep = df_slug r"
  by (auto simp: scanReportDefinition_def split: sum.splits)

lemma scan_never_no_rows: "scanReportDefinition d r \<noteq> Inl ErrNoRows"
proof -
  have "decode_filters j \<noteq> Inl ErrNoRows" for j
    by (cases j) (auto split: option.splits)
  then show ?thesis by (auto simp: scanReportDefinition_def split: sum.splits)
qed

lemma scan_error: "scanReportDefinition d r = Inl e \<Longrightarrow> errors_As e = None"
proof -
  have "decode_filters j = Inl e \<Longrightarrow> errors_As e = None" for j
    by (cases j) (auto split: option.splits if_splits)
  then show "scanReportDefinition d r = Inl e \<Longrightarrow> errors_As e = None"
    by (auto simp: scanReportDefinition_def split: sum.splits)
qed

text \<open>The detail fails as not found only where the catalog has no public report of the slug.\<close>

lemma GetReportDefinition_Inl:
  assumes "Store_GetReportDefinition pg ctx slug w = (w', Inl e)"
  shows "errors_As e = None \<or>
    e = NewAppError ErrCodeNotFound ''report was not found'' \<and>
    (\<forall>r \<in> set (db_definitions (w_db w)). df_slug r = slug \<longrightarrow> \<not> df_is_public r)"
proof -
  let ?g = "\<lambda>now d. (d, case filter (\<lambda>r. df_slug r = slug \<and> df_is_public r) (db_definitions d) of
                   [] \<Rightarrow> Inl ErrNoRows | r # _ \<Rightarrow> scanReportDefinition d r)"
  obtain w1 x where c: "db_call ctx ?g w = (w1, x)" by fastforce
  with assms obtain e' where x: "x = Inl e'"
    by (cases x) (auto simp: Store_GetReportDefinition_def)
  show ?thesis
    using db_call_Inl [OF c [unfolded x]] assms c x scan_error scan_never_no_rows
    by (auto simp: Store_GetReportDefinition_def filter_empty_conv split: if_splits list.splits)
qed

text \<open>A call that only reads leaves both stores alone.\<close>

definition reads_only :: "(('d, 'r) world, 'a) io \<Rightarrow> bool" where
  "reads_only f \<longleftrightarrow> (\<forall>w. w_db (fst (f w)) = w_db w \<and> w_rd (fst (f w)) = w_rd w \<and> w_now w \<le> w_now (fst (f w)))"

lemma reads_onlyD:
  assumes "reads_only f" and "f w = (w', r)"
  shows "w_db w' = w_db w" "w_rd w' = w_rd w" "w_now w \<le> w_now w'"
  using assms by (auto simp: reads_only_def dest: spec [of _ w])

lemma db_call_reads:
  assumes "db_call ctx g w = (w', r)" and "\<And>t d. fst (g t d) = d"
  shows "w_db w' = w_db w \<and> w_rd w' = w_rd w \<and> w_now w \<le> w_now w'"
  using db_call_read [of g ctx w] db_call_frame [of ctx g w] db_call_time [of w ctx g] assms by simp

lemma reads_only_ListReportDefinitions: "reads_only (Store_ListReportDefinitions pg ctx flt)"
  unfolding reads_only_def Store_ListReportDefinitions_def Let_def
  by (auto split: prod.split sum.split dest!: db_call_reads)

lemma reads_only_GetReportDefinition: "reads_only (Store_GetReportDefinition pg ctx slug)"
  unfolding reads_only_def Store_GetReportDefinition_def
  by (auto split: prod.split sum.split dest!: db_call_reads)

lemma GetReportDefinition_Inr:
  assumes "Store_GetReportDefinition pg ctx slug w = (w', Inr report)"
  shows "rd_Slug report = slug \<and> (\<exists>r \<in> set (db_definitions (w_db w)).
    df_slug r = slug \<and> df_is_public r \<and> rd_CacheTTLSeconds report = df_cache_ttl_seconds r)"
  using assms
  by (auto simp: Store_GetReportDefinition_def scanReportDefinition_def filter_eq_Cons_iff
      split: prod.splits sum.splits if_splits list.splits dest!: db_call_Inr(1))

end
