(* ===== verification/Sample_Data.thy ===== *)
theory Sample_Data
  imports Pg_Schema Redis_Store Pg_Catalog
begin

section \<open>A small database and server for the worked instances\<close>

text \<open>
  Concrete inputs at which the hypotheses of the properties hold: a database with the three
  reports of \<open>0002_reference_data.sql\<close>, two sources and four events on the days 10 to 12, a
  PostgreSQL server whose UUIDs are numbered, an empty Redis key space and an undisturbed
  network.
\<close>

fun bytes_le :: "string \<Rightarrow> string \<Rightarrow> bool" where
  "bytes_le [] t = True"
| "bytes_le (c # s) [] = False"
| "bytes_le (c # s) (d # t) =
     (of_char c < (of_char d :: nat) \<or> of_char c = (of_char d :: nat) \<and> bytes_le s t)"

definition uuid_of :: "nat \<Rightarrow> string" where
  "uuid_of n = ''00000000-0000-4000-8000-'' @ zpad 12 n"

definition sample_pg :: pg_server where
  "sample_pg =
     \<lparr>pgs_uuid = uuid_of, pgs_uuid_text = (\<lambda>s. if length s < 36 then None else Some s),
      pgs_text_le = bytes_le\<rparr>"

lemma bytes_le_order: "total_preorder bytes_le"
proof -
  have "bytes_le x y \<or> bytes_le y x" for x y
    by (induction x y rule: bytes_le.induct) auto
  moreover have "bytes_le x y \<Longrightarrow> bytes_le y z \<Longrightarrow> bytes_le x z" for x y z
  proof (induction x arbitrary: y z)
    case (Cons c x)
    then show ?case by (cases y; cases z) auto
  qed simp
  ultimately show ?thesis unfolding total_preorder_def by blast
qed

lemma uuid_of_inject: "uuid_of m = uuid_of n \<longleftrightarrow> m = n"
  by (simp add: uuid_of_def)

definition sample_event :: "int \<Rightarrow> string \<Rightarrow> string \<Rightarrow> string \<Rightarrow> gotime \<Rightarrow> event_row" where
  "sample_event source ref entity st t =
     \<lparr>ev_source_id = source, ev_external_ref = ref, ev_entity_id = entity, ev_status = st,
      ev_processing_ms = 90, ev_amount_cents = 100, ev_occurred_at = t, ev_payload = JObj []\<rparr>"

definition sample_definition :: "string \<Rightarrow> string \<Rightarrow> int \<Rightarrow> definition_row" where
  "sample_definition slug nm ttl =
     \<lparr>df_slug = slug, df_name = nm, df_description = nm, df_cache_ttl_seconds = ttl,
      df_default_window = ''day'', df_is_public = True, df_supported_filters = JObj [],
      df_updated_at = 0\<rparr>"

definition sample_run :: "string \<Rightarrow> string \<Rightarrow> run_row" where
  "sample_run rid st =
     \<lparr>rn_id = rid, rn_report_slug = ''status-counts'', rn_window_name = ''day'', rn_date_from = 10,
      rn_date_to = 10, rn_requested_by = ''ops'', rn_status = st, rn_requested_at = midnight 12,
      rn_started_at = None, rn_finished_at = None, rn_error_message = None, rn_summary = JObj []\<rparr>"

definition sample_run_id :: string where
  "sample_run_id = ''00000000-0000-4000-8000-000000000000''"

definition sample_snapshot :: "int \<Rightarrow> string \<Rightarrow> int \<Rightarrow> snapshot_row" where
  "sample_snapshot day v n =
     \<lparr>sn_report_slug = ''status-counts'', sn_window_name = ''day'', sn_bucket_start = midnight day,
      sn_dimension_key = ''status'', sn_dimension_value = v, sn_metric_name = ''event_count'',
      sn_metric_value = n, sn_computed_at = midnight 12, sn_run_id = None\<rparr>"

definition sample_db :: pgdb where
  "sample_db =
     \<lparr>db_sources = [\<lparr>src_id = 1, src_slug = ''stripe'', src_is_active = True\<rparr>,
                    \<lparr>src_id = 2, src_slug = ''adyen'', src_is_active = True\<rparr>],
      db_events =
        [sample_event 1 ''evt-1'' ''entity-1'' ''success'' (midnight 10 + 5),
         sample_event 2 ''evt-2'' ''entity-1'' ''success'' (midnight 10 + 9),
         sample_event 1 ''evt-3'' ''entity-2'' ''failed'' (midnight 10 + 12),
         sample_event 2 ''evt-4'' ''entity-2'' ''success'' (midnight 11 + 7)],
      db_definitions =
        [sample_definition ''volume-by-period'' ''Volume by Period'' 120,
         sample_definition ''status-counts'' ''Status Counts'' 90,
         sample_definition ''top-entities'' ''Top Entities'' 45],
      db_windows =
        [\<lparr>aw_report_slug = ''status-counts'', aw_window_name = ''week'', aw_retention_days = 730,
          aw_refresh_interval_minutes = 240, aw_is_default = False\<rparr>,
         \<lparr>aw_report_slug = ''status-counts'', aw_window_name = ''day'', aw_retention_days = 365,
          aw_refresh_interval_minutes = 60, aw_is_default = True\<rparr>],
      db_runs = [sample_run sample_run_id ''pending''],
      db_snapshots = [sample_snapshot 10 ''success'' 1, sample_snapshot 11 ''success'' 1],
      db_audits = [],
      db_uuids = 1,
      db_audit_seq = 1\<rparr>"

definition sample_world :: "(pgdb, keyspace) world" where
  "sample_world = \<lparr>w_now = midnight 12, w_script = [], w_db = sample_db, w_rd = Map.empty\<rparr>"

definition sample_request :: "string \<Rightarrow> RecomputeRequest" where
  "sample_request win =
     \<lparr>rq_ReportSlug = ''status-counts'', rq_Window = win, rq_DateFrom = midnight 10,
      rq_DateTo = midnight 10, rq_RequestedBy = ''ops'', rq_RequestedVia = ''http''\<rparr>"

lemmas sample_defs = sample_db_def sample_event_def sample_definition_def sample_run_def
  sample_snapshot_def

lemma day_of_midnight_numeral [simp]:
  "(numeral k :: int) < 86400000000000 \<Longrightarrow> day_of (midnight n + numeral k) = n"
  by (simp add: ns_Day_eq)

lemma midnight_numeral_less [simp]:
  "(numeral k :: int) < 86400000000000 \<Longrightarrow> midnight m + numeral k < midnight n \<longleftrightarrow> m < n"
  by (metis day_of_less_iff day_of_midnight_numeral)

lemma midnight_le_numeral [simp]:
  "(numeral k :: int) < 86400000000000 \<Longrightarrow> midnight n \<le> midnight m + numeral k \<longleftrightarrow> n \<le> m"
  by (metis le_day_of_iff day_of_midnight_numeral)

lemma midnight_eq_iff [simp]: "midnight m = midnight n \<longleftrightarrow> m = n"
  by (simp add: midnight_def)

lemma sample_undisturbed [simp]: "undisturbed None sample_world"
  by (simp add: undisturbed_def sample_world_def)

lemma sample_world_simps [simp]:
  "w_now sample_world = midnight 12" "w_script sample_world = []" "w_db sample_world = sample_db"
  "w_rd sample_world = Map.empty"
  by (simp_all add: sample_world_def)

lemma sample_consistent: "db_consistent sample_db"
  by (simp add: db_consistent_def sample_defs event_ok_def event_status_ok_def status_ok_def
      snapshot_ok_def snapshot_key_def report_exists_def window_ok_def midnight_def)

interpretation sample: postgres_server sample_pg
proof
  fix n m s c
  have "36 \<le> length (uuid_of n)"
    by (simp add: uuid_of_def zpad_def)
  then show "pgs_uuid_text sample_pg (pgs_uuid sample_pg n) = Some (pgs_uuid sample_pg n)"
    by (simp add: sample_pg_def)
  show "pgs_uuid sample_pg m = pgs_uuid sample_pg n \<Longrightarrow> m = n"
    by (simp add: sample_pg_def uuid_of_inject)
  show "pgs_uuid_text sample_pg s = Some c \<Longrightarrow> pgs_uuid_text sample_pg c = Some c"
    by (auto simp: sample_pg_def split: if_splits)
  show "total_preorder (pgs_text_le sample_pg)" by (simp add: sample_pg_def bytes_le_order)
qed

lemma uuid_values: "uuid_of 0 = sample_run_id" "uuid_of 1 = ''00000000-0000-4000-8000-000000000001''"
proof -
  have "zpad 12 0 = ''000000000000''" "zpad 12 1 = ''000000000001''" by code_simp+
  then show "uuid_of 0 = sample_run_id" "uuid_of 1 = ''00000000-0000-4000-8000-000000000001''"
    by (simp_all add: uuid_of_def sample_run_id_def)
qed

lemma sample_lookup:
  "undisturbed ctx sample_world \<Longrightarrow>
     \<exists>rep. snd (Store_GetReportDefinition pg ctx ''status-counts'' sample_world) = Inr rep"
  by (simp add: Store_GetReportDefinition_def db_call_undisturbed sample_db_def sample_definition_def
      scanReportDefinition_def)

end
