(* ===== verification/Recompute_Properties.thy ===== *)
theory Recompute_Properties
  imports Snapshot_Facts Sample_Data
begin

section \<open>Properties of the snapshot rebuild\<close>

text \<open>
  The contract of \<open>Store.RecomputeReport\<close> against the raw events, on every network: which
  counts are right afterwards, which are lost, what is left alone, atomicity, the schema's
  constraints, the summary, and a second run.
\<close>

lemma Store_RecomputeReport_Inr:
  assumes "Store_RecomputeReport pg ctx rq runID w = (w', Inr summary)"
  shows "\<exists>t. recompute_tx pg rq runID t (w_db w) = Inr (w_db w', summary)"
  using Store_RecomputeReport_atomic [OF assms] by auto

lemma Store_RecomputeReport_counts:
  assumes "Store_RecomputeReport pg ctx rq runID w = (w', Inr summary)" and "db_consistent (w_db w)"
    and "affected_bucket (rq_Window rq) (fromTS_of rq) (toExclusive_of rq) b"
  shows "stored_count (w_db w') (rq_ReportSlug rq) (rq_Window rq) b v =
    int (length (filter (in_range rq) (bucket_events (w_db w') (rq_ReportSlug rq) (rq_Window rq) b v)))"
proof -
  obtain t where tx: "recompute_tx pg rq runID t (w_db w) = Inr (w_db w', summary)"
    using Store_RecomputeReport_Inr [OF assms(1)] by blast
  obtain S where "w_db w' = (w_db w)\<lparr>db_snapshots := S\<rparr>" using recompute_tx_keeps [OF tx] by blast
  with recompute_tx_counts [OF tx assms(2,3)] show ?thesis by simp
qed

lemma sample_recompute:
  assumes "win \<in> {''day'', ''week''}"
  shows "\<exists>w' summary. Store_RecomputeReport sample_pg None (sample_request win) sample_run_id sample_world =
    (w', Inr summary)"
proof -
  have "\<exists>d' summary. recompute_tx sample_pg (sample_request win) sample_run_id (midnight 12) sample_db =
      Inr (d', summary)"
    using assms sample_consistent
    by (intro recompute_tx_succeeds)
      (auto simp: db_consistent_def sample_request_def sample_defs report_exists_def window_ok_def
        dimension_key_of_def sample_pg_def sample_run_id_def run_exists_def)
  then show ?thesis
    by (auto simp: Store_RecomputeReport_undisturbed)
qed

text \<open>C1: After a successful recompute of daily snapshots, each day of the requested range holds
  for every value of the report's dimension the number of raw events of that day with the
  value: the counts of the range are right whatever was stored before.\<close>

theorem recompute_days_exact:
  assumes "Store_RecomputeReport pg ctx rq runID w = (w', Inr summary)" and "db_consistent (w_db w)"
    and "rq_Window rq = WindowDay"
    and "day_of (rq_DateFrom rq) \<le> n" and "n \<le> day_of (rq_DateTo rq)"
  shows "stored_count (w_db w') (rq_ReportSlug rq) WindowDay (midnight n) v =
    int (length (bucket_events (w_db w') (rq_ReportSlug rq) WindowDay (midnight n) v))"
proof -
  have len: "midnight n + window_length WindowDay = midnight (n + 1)"
    by (simp add: window_length_def WindowDay_def midnight_add)
  have whole: "fromTS_of rq \<le> midnight n" "midnight n + window_length WindowDay \<le> toExclusive_of rq"
    using assms(4,5) by (simp_all add: len range_of_midnights midnight_mono)
  show ?thesis
    using Store_RecomputeReport_counts [OF assms(1,2), of "midnight n" v] affected_whole [OF whole]
      bucket_events_whole [OF whole] by (simp add: assms(3))
qed

theorem recompute_days_exact_witness:
  "\<exists>w' summary.
     Store_RecomputeReport sample_pg None (sample_request ''day'') sample_run_id sample_world =
       (w', Inr summary) \<and>
     stored_count (w_db w') ''status-counts'' WindowDay (midnight 10) ''success'' = 2"
proof -
  obtain w' summary where run:
    "Store_RecomputeReport sample_pg None (sample_request ''day'') sample_run_id sample_world =
       (w', Inr summary)"
    using sample_recompute [of "''day''"] by auto
  obtain S where "w_db w' = sample_db\<lparr>db_snapshots := S\<rparr>"
    using Store_RecomputeReport_Inr [OF run] recompute_tx_keeps by fastforce
  then show ?thesis
    using run recompute_days_exact [OF run, of 10 "''success''"] sample_consistent
    by (simp add: sample_request_def window_defs bucket_events_def sample_defs event_dimension_def
        date_trunc_def start_of_day_def)
qed

text \<open>C3: For day and week windows alike, a successful recompute leaves in every bucket it affects
  the number of the bucket's events inside the requested days. A week that the range cuts is
  therefore counted only in part: the events of its other days are dropped from the count.\<close>

theorem recompute_counts_in_range:
  assumes "Store_RecomputeReport pg ctx rq runID w = (w', Inr summary)" and "db_consistent (w_db w)"
    and "affected_bucket (rq_Window rq) (fromTS_of rq) (toExclusive_of rq) b"
  shows "stored_count (w_db w') (rq_ReportSlug rq) (rq_Window rq) b v =
    int (length (filter (in_range rq) (bucket_events (w_db w') (rq_ReportSlug rq) (rq_Window rq) b v)))"
  by (rule Store_RecomputeReport_counts [OF assms])

text \<open>The instance cuts a week: its three events of one status are stored as two.\<close>

theorem recompute_counts_in_range_witness:
  "\<exists>w' summary.
     Store_RecomputeReport sample_pg None (sample_request ''week'') sample_run_id sample_world =
       (w', Inr summary) \<and>
     stored_count (w_db w') ''status-counts'' ''week'' (midnight 7) ''success'' = 2 \<and>
     length (bucket_events (w_db w') ''status-counts'' ''week'' (midnight 7) ''success'') = 3"
proof -
  obtain w' summary where run:
    "Store_RecomputeReport sample_pg None (sample_request ''week'') sample_run_id sample_world =
       (w', Inr summary)"
    using sample_recompute [of "''week''"] by auto
  obtain S where db: "w_db w' = sample_db\<lparr>db_snapshots := S\<rparr>"
    using Store_RecomputeReport_Inr [OF run] recompute_tx_keeps by fastforce
  have aff: "affected_bucket (rq_Window (sample_request ''week'')) (fromTS_of (sample_request ''week''))
      (toExclusive_of (sample_request ''week'')) (midnight 7)"
    by (simp add: affected_bucket_def sample_request_def range_of_midnights date_trunc_def
        window_length_def)
  show ?thesis
    using run recompute_counts_in_range [OF run _ aff, of "''success''"] sample_consistent
    by (simp add: db sample_request_def bucket_events_def sample_defs event_dimension_def
        date_trunc_def in_range_def range_of_midnights)
qed

text \<open>C2: A recompute whose range ends on a bucket boundary erases the bucket after the range: the
  \<open>DELETE\<close> reaches one bucket further than the \<open>INSERT\<close> writes, so for daily snapshots the day
  after \<open>date_to\<close> reads zero afterwards, whatever events it has.\<close>

theorem recompute_erases_next_bucket:
  assumes "Store_RecomputeReport pg ctx rq runID w = (w', Inr summary)" and "db_consistent (w_db w)"
    and "rq_DateFrom rq \<le> rq_DateTo rq"
    and "date_trunc (rq_Window rq) (toExclusive_of rq) = toExclusive_of rq"
  shows "stored_count (w_db w') (rq_ReportSlug rq) (rq_Window rq) (toExclusive_of rq) v = 0"
  using Store_RecomputeReport_counts [OF assms(1,2), of "toExclusive_of rq" v]
    affected_next [OF assms(3), of "rq_Window rq"]
  by (simp add: assms(4) bucket_events_beyond)

theorem recompute_erases_next_bucket_witness:
  "stored_count sample_db ''status-counts'' ''day'' (midnight 11) ''success'' = 1 \<and>
   length (bucket_events sample_db ''status-counts'' ''day'' (midnight 11) ''success'') = 1 \<and>
   (\<exists>w' summary.
     Store_RecomputeReport sample_pg None (sample_request ''day'') sample_run_id sample_world =
       (w', Inr summary) \<and>
     stored_count (w_db w') ''status-counts'' ''day'' (midnight 11) ''success'' = 0)"
proof -
  obtain w' summary where run:
    "Store_RecomputeReport sample_pg None (sample_request ''day'') sample_run_id sample_world =
       (w', Inr summary)"
    using sample_recompute [of "''day''"] by auto
  have "stored_count (w_db w') ''status-counts'' ''day'' (midnight 11) ''success'' = 0"
    using recompute_erases_next_bucket [OF run, of "''success''"] sample_consistent
    by (simp add: sample_request_def range_of_midnights date_trunc_def)
  with run show ?thesis
    by (simp add: sample_defs stored_count_def dimension_key_of_def snapshot_key_def
        bucket_events_def event_dimension_def date_trunc_def start_of_day_def)
qed

text \<open>C40: A recompute changes no other report, no other window and no bucket outside the affected
  range, and of the database only the snapshot table; the run's own row, the events, the audit
  trail and Redis are left as they are.\<close>

theorem recompute_leaves_rest:
  assumes "Store_RecomputeReport pg ctx rq runID w = (w', r)"
  shows "w_rd w' = w_rd w \<and> (\<exists>S. w_db w' = (w_db w)\<lparr>db_snapshots := S\<rparr>) \<and>
    (slug \<noteq> rq_ReportSlug rq \<or> win \<noteq> rq_Window rq \<or>
       \<not> affected_bucket (rq_Window rq) (fromTS_of rq) (toExclusive_of rq) b \<longrightarrow>
     stored_count (w_db w') slug win b v = stored_count (w_db w) slug win b v)"
proof -
  have same: "\<exists>S. d = d\<lparr>db_snapshots := S\<rparr>" for d :: pgdb
    by (rule exI [of _ "db_snapshots d"]) simp
  show ?thesis
    using Store_RecomputeReport_atomic [OF assms] recompute_tx_keeps recompute_tx_frame same
    by metis
qed

theorem recompute_leaves_rest_witness:
  "\<exists>w' r. Store_RecomputeReport sample_pg None (sample_request ''day'') sample_run_id sample_world =
       (w', r) \<and>
     stored_count (w_db w') ''status-counts'' ''day'' (midnight 12) ''success'' = 0"
proof -
  obtain w' r where run:
    "Store_RecomputeReport sample_pg None (sample_request ''day'') sample_run_id sample_world = (w', r)"
    by fastforce
  have "stored_count (w_db w') ''status-counts'' ''day'' (midnight 12) ''success'' =
      stored_count sample_db ''status-counts'' ''day'' (midnight 12) ''success''"
    using recompute_leaves_rest [OF run, of "''status-counts''" "''day''" "midnight 12" "''success''"]
    by (simp add: sample_request_def affected_bucket_def range_of_midnights date_trunc_def
        window_length_def) (simp add: midnight_def ns_Day_eq)
  with run show ?thesis
    by (simp add: sample_defs stored_count_def dimension_key_of_def snapshot_key_def)
qed

text \<open>C9: A recompute is atomic on every network: either the database is unchanged and an error is
  returned, or it is the result of the whole transaction, and then the caller sees the summary,
  except where the reply to the \<open>COMMIT\<close> was lost. A report without a recompute statement is
  refused and changes nothing.\<close>

theorem recompute_atomic:
  assumes "Store_RecomputeReport pg ctx rq runID w = (w', r)"
  shows "w_db w' = w_db w \<and> (\<exists>e. r = Inl e) \<or>
    (\<exists>t d summary. recompute_tx pg rq runID t (w_db w) = Inr (d, summary) \<and> w_db w' = d \<and>
       (r = Inr summary \<or> (\<exists>m. r = Inl (PlainError m))))"
  using Store_RecomputeReport_atomic [OF assms] by blast

text \<open>In the instance the context ends while the \<open>INSERT\<close> is under way, after the \<open>DELETE\<close>.\<close>

definition sample_outage :: "(pgdb, keyspace) world" where
  "sample_outage = sample_world\<lparr>w_script := [(1, Served), (1, Served), (200, Served)]\<rparr>"

theorem recompute_atomic_witness:
  "\<exists>w'. Store_RecomputeReport sample_pg (Some (midnight 12 + 100)) (sample_request ''day'') sample_run_id
       sample_outage = (w', Inl CtxError) \<and> w_db w' = sample_db"
proof -
  obtain w' r where run:
    "Store_RecomputeReport sample_pg (Some (midnight 12 + 100)) (sample_request ''day'') sample_run_id
       sample_outage = (w', r)"
    by fastforce
  then have "r = Inl CtxError"
    by (auto simp: Store_RecomputeReport_def tx_call_def remote_def sample_outage_def sample_world_def
        next_outcome_def pass_time_def Let_def sql_delete_def dimension_key_of_def sample_request_def)
  with run recompute_atomic [OF run] show ?thesis by (simp add: sample_outage_def)
qed

text \<open>C19: On a consistent database the transaction goes through whenever the report, its recompute
  statement and the run exist: the rebuilt rows never collide with the rows that stay, and
  the result satisfies every constraint of the schema.\<close>

theorem recompute_never_conflicts:
  assumes "db_consistent d" and "report_exists d (rq_ReportSlug rq)" and "window_ok (rq_Window rq)"
    and "dimension_key_of (rq_ReportSlug rq) = Some dim"
    and "pgs_uuid_text pg runID = Some rid" and "run_exists d rid"
  shows "\<exists>d' summary. recompute_tx pg rq runID now d = Inr (d', summary) \<and> db_consistent d'"
  using recompute_tx_succeeds [OF _ assms(2-6)] recompute_tx_consistent [OF _ assms(1)] assms(1)
  by (fastforce simp: db_consistent_def)

theorem recompute_never_conflicts_witness:
  "\<exists>d' summary. recompute_tx sample_pg (sample_request ''week'') sample_run_id 0 sample_db =
     Inr (d', summary) \<and> db_consistent d'"
  by (rule recompute_never_conflicts [OF sample_consistent, where dim = "''status''" and rid = sample_run_id])
    (simp_all add: sample_request_def sample_defs report_exists_def window_ok_def dimension_key_of_def
      sample_pg_def sample_run_id_def run_exists_def)

text \<open>The summary counts the rows: \<open>rows_inserted\<close> is the number of pairs of a bucket and a
  dimension value that occur among the events of the requested days, \<open>bucket_count\<close> the number
  of those buckets, and the table grows by the difference of inserted and deleted.\<close>

theorem recompute_summary_counts:
  assumes "recompute_tx pg rq runID now d = Inr (d', summary)" and "db_consistent d"
  shows "sum_RowsInserted summary = int (card {(date_trunc (rq_Window rq) (ev_occurred_at e), v) | e v.
            e \<in> set (db_events d) \<and> in_range rq e \<and> event_dimension d (rq_ReportSlug rq) e = Some v}) \<and>
    sum_BucketCount summary = int (card {date_trunc (rq_Window rq) (ev_occurred_at e) | e.
            e \<in> set (db_events d) \<and> in_range rq e}) \<and>
    int (length (db_snapshots d')) =
      int (length (db_snapshots d)) - sum_RowsDeleted summary + sum_RowsInserted summary"
proof -
  let ?G = "set (event_groups (rq_ReportSlug rq) (rq_Window rq) (fromTS_of rq) (toExclusive_of rq) d)"
  have G: "?G = {(date_trunc (rq_Window rq) (ev_occurred_at e), v) | e v.
      e \<in> set (db_events d) \<and> in_range rq e \<and> event_dimension d (rq_ReportSlug rq) e = Some v}"
    unfolding set_event_groups [OF assms(2)] by blast
  have "fst ` ?G = {date_trunc (rq_Window rq) (ev_occurred_at e) | e.
      e \<in> set (db_events d) \<and> in_range rq e}"
    unfolding G using event_dimension_total [OF assms(2)] by force
  with G recompute_tx_summary [OF assms(1)] show ?thesis by simp
qed

theorem recompute_summary_counts_witness:
  "\<exists>d' summary. recompute_tx sample_pg (sample_request ''day'') sample_run_id 0 sample_db =
     Inr (d', summary) \<and> sum_BucketCount summary = 1"
proof -
  obtain d' summary where run: "recompute_tx sample_pg (sample_request ''day'') sample_run_id 0 sample_db =
      Inr (d', summary)"
    using recompute_tx_succeeds [of sample_db "sample_request ''day''" "''status''" sample_pg sample_run_id
        sample_run_id 0] sample_consistent
    by (auto simp: db_consistent_def sample_request_def sample_defs report_exists_def window_ok_def
        dimension_key_of_def sample_pg_def sample_run_id_def run_exists_def)
  have "{date_trunc (rq_Window (sample_request ''day'')) (ev_occurred_at e) | e.
      e \<in> set (db_events sample_db) \<and> in_range (sample_request ''day'') e} =
    (date_trunc ''day'' \<circ> ev_occurred_at) ` set (filter (in_range (sample_request ''day'')) (db_events sample_db))"
    by (auto simp: sample_request_def)
  also have "\<dots> = {midnight 10}"
    by (simp add: sample_defs in_range_def range_of_midnights sample_request_def date_trunc_def
        start_of_day_def)
  finally have "{date_trunc (rq_Window (sample_request ''day'')) (ev_occurred_at e) | e.
      e \<in> set (db_events sample_db) \<and> in_range (sample_request ''day'') e} = {midnight 10}" .
  with run recompute_summary_counts [OF run sample_consistent] show ?thesis by simp
qed

text \<open>C18: Recomputing the same range again gives the same counts everywhere: it deletes the rows the
  first run inserted and writes as many again.\<close>

theorem recompute_idempotent:
  assumes first: "recompute_tx pg rq runID now d = Inr (d', summary)" and "db_consistent d"
    and again: "recompute_tx pg rq runID2 now2 d' = Inr (d'', summary2)"
  shows "stored_count d'' slug win b v = stored_count d' slug win b v \<and>
    sum_RowsDeleted summary2 = sum_RowsInserted summary \<and>
    sum_RowsInserted summary2 = sum_RowsInserted summary \<and>
    sum_BucketCount summary2 = sum_BucketCount summary"
proof -
  obtain S where d': "d' = d\<lparr>db_snapshots := S\<rparr>" using recompute_tx_keeps [OF first] by blast
  have cons: "db_consistent d'" by (rule recompute_tx_consistent [OF first assms(2)])
  have "stored_count d'' slug win b v = stored_count d' slug win b v"
  proof (cases "slug = rq_ReportSlug rq \<and> win = rq_Window rq \<and>
      affected_bucket (rq_Window rq) (fromTS_of rq) (toExclusive_of rq) b")
    case True
    then show ?thesis
      using recompute_tx_counts [OF again cons, of b v] recompute_tx_counts [OF first assms(2), of b v]
      by (simp add: d')
  next
    case False
    then show ?thesis by (intro recompute_tx_frame [OF again]) blast
  qed
  moreover have "event_groups slug win f t d' = event_groups slug win f t d" for slug win f t
    by (simp add: d')
  ultimately show ?thesis
    using recompute_tx_summary [OF first] recompute_tx_summary [OF again]
      recompute_tx_twice_deleted [OF first again] by simp
qed

theorem recompute_idempotent_witness:
  "\<exists>d' s d'' s2. recompute_tx sample_pg (sample_request ''day'') sample_run_id 0 sample_db = Inr (d', s) \<and>
     recompute_tx sample_pg (sample_request ''day'') sample_run_id 1 d' = Inr (d'', s2) \<and>
     sum_RowsDeleted s2 = sum_RowsInserted s"
proof -
  note ok = recompute_tx_succeeds [of _ "sample_request ''day''" "''status''" sample_pg sample_run_id
      sample_run_id]
  note simps = sample_request_def sample_defs report_exists_def window_ok_def dimension_key_of_def
    sample_pg_def sample_run_id_def run_exists_def
  obtain d' s where first: "recompute_tx sample_pg (sample_request ''day'') sample_run_id 0 sample_db =
      Inr (d', s)"
    using ok [of sample_db 0] sample_consistent by (auto simp: db_consistent_def simps)
  obtain S where d': "d' = sample_db\<lparr>db_snapshots := S\<rparr>" using recompute_tx_keeps [OF first] by blast
  have cons: "db_consistent d'" by (rule recompute_tx_consistent [OF first sample_consistent])
  obtain d'' s2 where again: "recompute_tx sample_pg (sample_request ''day'') sample_run_id 1 d' =
      Inr (d'', s2)"
    using ok [of d' 1] cons by (auto simp: db_consistent_def simps d')
  show ?thesis
    using first again recompute_idempotent [OF first sample_consistent again] by blast
qed

end
