(* ===== verification/Pg_Reports.thy ===== *)
theory Pg_Reports
  imports Pg_Catalog
begin

section \<open>The report queries\<close>

text \<open>
  \<open>Store.RunVolumeReport\<close>, \<open>Store.RunStatusCountsReport\<close>, \<open>Store.RunTopEntitiesReport\<close>,
  \<open>collectRows\<close> and \<open>normalizeValue\<close> of \<open>internal/infrastructure/postgres/store.go\<close>. Every
  query selects snapshot rows, groups them, sums the metric, orders the groups and cuts a
  page. The \<open>::bigint\<close> cast of a sum fails when the sum does not fit.
\<close>

subsection \<open>Rows of the driver\<close>

fun normalizeValue :: "goval \<Rightarrow> goval" where
  "normalizeValue (GTime t) = GStr (FormatDate t)"
| "normalizeValue v = v"

text \<open>One value per column; a row of the result maps the columns to the values.\<close>

definition collectRows :: "string list \<Rightarrow> goval list list \<Rightarrow> report_row list" where
  "collectRows columns rows = map (\<lambda>vs. zip columns (map normalizeValue vs)) rows"

subsection \<open>Selection and grouping\<close>

text \<open>\<open>bucket_start >= $2::date AND bucket_start < ($3::date + INTERVAL '1 day')\<close> and the rest.\<close>

definition report_snapshot ::
    "string \<Rightarrow> string \<Rightarrow> ReportRunParams \<Rightarrow> string \<Rightarrow> snapshot_row \<Rightarrow> bool" where
  "report_snapshot slug dim params value r \<longleftrightarrow>
     sn_report_slug r = slug \<and> sn_window_name r = rp_Window params \<and>
     sn_metric_name r = ''event_count'' \<and> sn_dimension_key r = dim \<and>
     midnight (day_of (rp_DateFrom params)) \<le> sn_bucket_start r \<and>
     sn_bucket_start r < midnight (day_of (rp_DateTo params) + 1) \<and>
     (value = '''' \<or> sn_dimension_value r = value)"

definition selected ::
    "string \<Rightarrow> string \<Rightarrow> ReportRunParams \<Rightarrow> string \<Rightarrow> pgdb \<Rightarrow> snapshot_row list" where
  "selected slug dim params value d = filter (report_snapshot slug dim params value) (db_snapshots d)"

definition grouped_page ::
    "(snapshot_row \<Rightarrow> 'k) \<Rightarrow> ('k \<Rightarrow> goval list) \<Rightarrow> ('k \<times> int \<Rightarrow> 'k \<times> int \<Rightarrow> bool) \<Rightarrow> ReportRunParams
     \<Rightarrow> snapshot_row list \<Rightarrow> go_error + goval list list" where
  "grouped_page key cols le params rows =
     (let groups = group_sums key sn_metric_value rows in
      if \<not> list_all (\<lambda>(k, n). min_int64 \<le> n \<and> n \<le> max_int64) groups
        then Inl (pg_error ''bigint out of range'')
      else case limit_offset (rp_Limit params) (rp_Offset params) (sort_by le groups) of
        Inl msg \<Rightarrow> Inl (pg_error msg)
      | Inr gs \<Rightarrow> Inr (map (\<lambda>(k, n). cols k @ [GInt n]) gs))"

definition run_query ::
    "ctx \<Rightarrow> string list \<Rightarrow> (pgdb \<Rightarrow> go_error + goval list list) \<Rightarrow> ((pgdb, 'r) world, report_row list) io" where
  "run_query ctx columns q w =
     (case db_call ctx (\<lambda>now d. (d, q d)) w of
        (w1, Inl err) \<Rightarrow> (w1, Inl err)
      | (w1, Inr rows) \<Rightarrow> (w1, Inr (collectRows columns rows)))"

text \<open>The group keys and the orders: a day and a value, a day, and a value by descending count.\<close>

definition day_value :: "snapshot_row \<Rightarrow> int \<times> string" where
  "day_value r = (day_of (sn_bucket_start r), sn_dimension_value r)"

definition bucket_day :: "snapshot_row \<Rightarrow> int" where
  "bucket_day r = day_of (sn_bucket_start r)"

fun by_day_value :: "pg_server \<Rightarrow> (int \<times> string) \<times> int \<Rightarrow> (int \<times> string) \<times> int \<Rightarrow> bool" where
  "by_day_value pg ((a, u), m) ((b, v), n) \<longleftrightarrow> a < b \<or> a = b \<and> pgs_text_le pg u v"

fun by_day :: "int \<times> int \<Rightarrow> int \<times> int \<Rightarrow> bool" where
  "by_day (a, m) (b, n) \<longleftrightarrow> a \<le> b"

fun by_count :: "pg_server \<Rightarrow> string \<times> int \<Rightarrow> string \<times> int \<Rightarrow> bool" where
  "by_count pg (u, m) (v, n) \<longleftrightarrow> n < m \<or> n = m \<and> pgs_text_le pg u v"

definition Store_RunVolumeReport ::
    "pg_server \<Rightarrow> ctx \<Rightarrow> ReportRunParams \<Rightarrow> ((pgdb, 'r) world, report_row list) io" where
  "Store_RunVolumeReport pg ctx params =
     (if EqualFold (rp_Breakdown params) ''source'' then
        run_query ctx [''bucket_date'', ''source'', ''event_count'']
          (\<lambda>d. grouped_page day_value (\<lambda>(n, v). [GTime (midnight n), GStr v]) (by_day_value pg) params
                 (selected ''volume-by-period'' ''source'' params (rp_Source params) d))
      else
        run_query ctx [''bucket_date'', ''event_count'']
          (\<lambda>d. grouped_page bucket_day (\<lambda>n. [GTime (midnight n)]) by_day params
                 (selected ''volume-by-period'' ''source'' params (rp_Source params) d)))"

definition Store_RunStatusCountsReport ::
    "pg_server \<Rightarrow> ctx \<Rightarrow> ReportRunParams \<Rightarrow> ((pgdb, 'r) world, report_row list) io" where
  "Store_RunStatusCountsReport pg ctx params =
     (if EqualFold (rp_Breakdown params) ''period'' then
        run_query ctx [''bucket_date'', ''status'', ''event_count'']
          (\<lambda>d. grouped_page day_value (\<lambda>(n, v). [GTime (midnight n), GStr v]) (by_day_value pg) params
                 (selected ''status-counts'' ''status'' params (rp_Status params) d))
      else
        run_query ctx [''status'', ''event_count'']
          (\<lambda>d. grouped_page sn_dimension_value (\<lambda>v. [GStr v]) (by_count pg) params
                 (selected ''status-counts'' ''status'' params (rp_Status params) d)))"

definition Store_RunTopEntitiesReport ::
    "pg_server \<Rightarrow> ctx \<Rightarrow> ReportRunParams \<Rightarrow> ((pgdb, 'r) world, report_row list) io" where
  "Store_RunTopEntitiesReport pg ctx params =
     run_query ctx [''entity_id'', ''event_count'']
       (\<lambda>d. grouped_page sn_dimension_value (\<lambda>v. [GStr v]) (by_count pg) params
              (selected ''top-entities'' ''entity_id'' params '''' d))"

subsection \<open>Orders, pages and totals\<close>

lemma report_orders:
  assumes "total_preorder (pgs_text_le pg)"
  shows "total_preorder (by_day_value pg)" "total_preorder by_day" "total_preorder (by_count pg)"
proof -
  have tot: "pgs_text_le pg u v \<or> pgs_text_le pg v u" for u v
    using assms by (auto simp: total_preorder_def)
  have trans: "pgs_text_le pg u v \<Longrightarrow> pgs_text_le pg v x \<Longrightarrow> pgs_text_le pg u x" for u v x
    using assms by (auto simp: total_preorder_def)
  show "total_preorder (by_day_value pg)"
    unfolding total_preorder_def using tot by (auto intro: trans)
  show "total_preorder by_day" unfolding total_preorder_def by auto
  show "total_preorder (by_count pg)"
    unfolding total_preorder_def using tot by (auto intro: trans)
qed

lemma grouped_page_Inr_iff:
  "grouped_page key cols le params rows = Inr vs \<longleftrightarrow>
     list_all (\<lambda>(k, n). min_int64 \<le> n \<and> n \<le> max_int64) (group_sums key sn_metric_value rows) \<and>
     0 \<le> rp_Limit params \<and> 0 \<le> rp_Offset params \<and>
     vs = map (\<lambda>(k, n). cols k @ [GInt n])
       (page (rp_Limit params) (rp_Offset params) (sort_by le (group_sums key sn_metric_value rows)))"
  by (auto simp: grouped_page_def limit_offset_def Let_def)

lemma run_query_Inr:
  assumes "run_query ctx columns q w = (w', Inr rows)"
  shows "\<exists>vs. q (w_db w) = Inr vs \<and> rows = collectRows columns vs"
  using assms by (auto simp: run_query_def split: prod.splits sum.splits dest!: db_call_Inr(1))

lemma run_query_undisturbed:
  "undisturbed ctx w \<Longrightarrow> run_query ctx columns q w =
    (w, case q (w_db w) of Inl e \<Rightarrow> Inl e | Inr vs \<Rightarrow> Inr (collectRows columns vs))"
  by (simp add: run_query_def db_call_undisturbed split: sum.split)

lemma reads_only_run_query: "reads_only (run_query ctx columns q)"
  unfolding reads_only_def run_query_def
  by (auto split: prod.split sum.split dest!: db_call_reads)

lemma reads_only_reports:
  "reads_only (Store_RunVolumeReport pg ctx params)"
  "reads_only (Store_RunStatusCountsReport pg ctx params)"
  "reads_only (Store_RunTopEntitiesReport pg ctx params)"
  by (simp_all add: Store_RunVolumeReport_def Store_RunStatusCountsReport_def
      Store_RunTopEntitiesReport_def reads_only_run_query)

lemma selected_update:
  "db_snapshots d' = db_snapshots d \<Longrightarrow> selected slug dim params v d' = selected slug dim params v d"
  by (simp add: selected_def)

end
