(* ===== verification/Report_Facts.thy ===== *)
theory Report_Facts
  imports Snapshot_Facts Pg_Reports
begin

section \<open>Reports over rebuilt snapshots\<close>

text \<open>
  What the report queries return: the groups of a query are the totals of the selected rows,
  the orders determine the rows of a page, and after a recompute the selected rows are the
  rebuilt ones, so that the totals are counts of raw events.
\<close>

subsection \<open>Totals of rebuilt rows\<close>

lemma count_list_filter: "P k \<Longrightarrow> count_list (filter P ks) k = count_list ks k"
  by (induction ks) auto

lemma sum_counts_filter:
  "(\<Sum>k \<leftarrow> filter P (remdups ks). int (count_list ks k)) = int (length (filter P ks))"
proof -
  have "map (\<lambda>k. int (count_list ks k)) (filter P (remdups ks)) =
      map (\<lambda>k. int (count_list (filter P ks) k)) (remdups (filter P ks))"
    by (simp add: remdups_filter count_list_filter)
  then show ?thesis using sum_list_count_remdups [of "filter P ks"] by simp
qed

lemma aggregated_sum:
  assumes "\<And>r. P r \<longleftrightarrow> Q (sn_bucket_start r, sn_dimension_value r)"
  shows "(\<Sum>r \<leftarrow> filter P (aggregated slug dim win f t now rid d). sn_metric_value r) =
    int (length (filter Q (event_groups slug win f t d)))"
proof -
  let ?G = "event_groups slug win f t d"
  have "map sn_metric_value (filter P (aggregated slug dim win f t now rid d)) =
      map (\<lambda>k. int (count_list ?G k)) (filter Q (remdups ?G))"
    by (simp add: aggregated_def group_counts_def filter_map comp_def case_prod_unfold assms)
  then show ?thesis using sum_counts_filter [of ?G Q] by simp
qed

lemma aggregated_groups:
  "(\<lambda>r. (sn_bucket_start r, sn_dimension_value r)) ` set (aggregated slug dim win f t now rid d) =
     set (event_groups slug win f t d)"
  by (force simp: aggregated_rows image_iff)

text \<open>The rows a report selects after a recompute that covers its days.\<close>

definition covers :: "RecomputeRequest \<Rightarrow> ReportRunParams \<Rightarrow> bool" where
  "covers rq p \<longleftrightarrow> rp_Window p = rq_Window rq \<and> day_of (rq_DateFrom rq) \<le> day_of (rp_DateFrom p) \<and>
     day_of (rp_DateTo p) \<le> day_of (rq_DateTo rq)"

lemma covered_affected:
  assumes "covers rq p" and "report_snapshot (rq_ReportSlug rq) dim p v r"
  shows "affected_snapshot (rq_ReportSlug rq) (rq_Window rq) (fromTS_of rq) (toExclusive_of rq) r"
proof -
  have "fromTS_of rq \<le> midnight (day_of (rp_DateFrom p))" "midnight (day_of (rp_DateTo p) + 1) \<le> toExclusive_of rq"
    using assms(1) by (simp_all add: covers_def range_of_midnights midnight_mono)
  then show ?thesis
    using assms date_trunc_le [of "rq_Window rq" "fromTS_of rq"]
      less_date_trunc [of "toExclusive_of rq" "rq_Window rq"]
    by (auto simp: report_snapshot_def affected_snapshot_def affected_bucket_def covers_def)
qed

lemma selected_after_recompute:
  assumes "recompute_tx pg rq runID now d = Inr (d', summary)" and "covers rq p"
    and "dimension_key_of (rq_ReportSlug rq) = Some dim"
  shows "\<exists>rid. selected (rq_ReportSlug rq) dim p v d' =
    filter (\<lambda>r. midnight (day_of (rp_DateFrom p)) \<le> sn_bucket_start r \<and>
        sn_bucket_start r < midnight (day_of (rp_DateTo p) + 1) \<and> (v = '''' \<or> sn_dimension_value r = v))
      (rebuilt_snapshots rq dim now rid d)"
  using assms(1)
proof (rule recompute_tx_Inr)
  fix dim' rid
  assume "dimension_key_of (rq_ReportSlug rq) = Some dim'"
    and d': "d' = d\<lparr>db_snapshots := snapshots_outside rq d @ rebuilt_snapshots rq dim' now rid d\<rparr>"
  then have [simp]: "dim' = dim" using assms(3) by simp
  have "filter (report_snapshot (rq_ReportSlug rq) dim p v) (snapshots_outside rq d) = []"
    using covered_affected [OF assms(2)] by (auto simp: snapshots_outside_def filter_empty_conv)
  moreover have "filter (report_snapshot (rq_ReportSlug rq) dim p v) (rebuilt_snapshots rq dim now rid d) =
    filter (\<lambda>r. midnight (day_of (rp_DateFrom p)) \<le> sn_bucket_start r \<and>
        sn_bucket_start r < midnight (day_of (rp_DateTo p) + 1) \<and> (v = '''' \<or> sn_dimension_value r = v))
      (rebuilt_snapshots rq dim now rid d)"
    using assms(2) by (intro filter_cong refl)
      (auto simp: rebuilt_snapshots_def aggregated_rows report_snapshot_def covers_def)
  ultimately show ?thesis by (auto simp: selected_def d')
qed

subsection \<open>Daily volume\<close>

text \<open>The raw events of a day, of one source or of all.\<close>

definition day_events :: "pgdb \<Rightarrow> int \<Rightarrow> string \<Rightarrow> event_row list" where
  "day_events d n source =
     filter (\<lambda>e. day_of (ev_occurred_at e) = n \<and>
       (source = '''' \<or> event_dimension d ''volume-by-period'' e = Some source)) (db_events d)"

lemma day_groups_filter:
  assumes cons: "db_consistent d" and slug: "rq_ReportSlug rq = ''volume-by-period''"
    and day: "rq_Window rq = ''day''"
    and n: "day_of (rq_DateFrom rq) \<le> n" "n \<le> day_of (rq_DateTo rq)"
  shows "length (filter (\<lambda>(b, u). day_of b = n \<and> (v = '''' \<or> u = v))
      (event_groups (rq_ReportSlug rq) (rq_Window rq) (fromTS_of rq) (toExclusive_of rq) d)) =
    length (day_events d n v)"
proof -
  have "(the (event_dimension d ''volume-by-period'' e) = v) = (event_dimension d ''volume-by-period'' e = Some v)"
    if "e \<in> set (db_events d)" for e
    using event_dimension_total [OF cons that, of "''volume-by-period''"] by auto
  moreover have "fromTS_of rq \<le> ev_occurred_at e \<and> ev_occurred_at e < toExclusive_of rq"
    if "day_of (ev_occurred_at e) = n" for e
    using that n by (auto simp: range_of_midnights le_day_of_iff [symmetric] day_of_less_iff [symmetric])
  ultimately show ?thesis
    unfolding event_groups_dimension [OF cons] slug day
    by (auto simp: filter_map comp_def events_between_def date_trunc_def start_of_day_def day_events_def
        intro!: arg_cong [of _ _ length] filter_cong)
qed

lemma volume_day_groups:
  assumes tx: "recompute_tx pg rq runID now d = Inr (d', summary)" and cons: "db_consistent d"
    and slug: "rq_ReportSlug rq = ''volume-by-period''" and day: "rq_Window rq = ''day''"
    and cov: "covers rq p"
  shows "set (group_sums bucket_day sn_metric_value (selected ''volume-by-period'' ''source'' p v d')) =
    {(n, int (length (day_events d n v))) | n.
       day_of (rp_DateFrom p) \<le> n \<and> n \<le> day_of (rp_DateTo p) \<and> day_events d n v \<noteq> []}"
proof -
  let ?G = "event_groups (rq_ReportSlug rq) (rq_Window rq) (fromTS_of rq) (toExclusive_of rq) d"
  let ?a = "day_of (rp_DateFrom p)" and ?b = "day_of (rp_DateTo p)"
  have dim: "dimension_key_of (rq_ReportSlug rq) = Some ''source''" by (simp add: slug dimension_key_of_def)
  obtain rid where sel: "selected (rq_ReportSlug rq) ''source'' p v d' =
    filter (\<lambda>r. midnight ?a \<le> sn_bucket_start r \<and> sn_bucket_start r < midnight (?b + 1) \<and>
        (v = '''' \<or> sn_dimension_value r = v))
      (rebuilt_snapshots rq ''source'' now rid d)"
    using selected_after_recompute [OF tx cov dim] by blast
  let ?S = "selected ''volume-by-period'' ''source'' p v d'"
  have range: "midnight ?a \<le> t \<longleftrightarrow> ?a \<le> day_of t" "t < midnight (?b + 1) \<longleftrightarrow> day_of t \<le> ?b" for t
    by (auto simp: le_day_of_iff [symmetric] day_of_less_iff [symmetric])
  have total: "(\<Sum>r \<leftarrow> filter (\<lambda>r. bucket_day r = n) ?S. sn_metric_value r) = int (length (day_events d n v))"
    if "?a \<le> n" "n \<le> ?b" for n
  proof -
    have "filter (\<lambda>r. bucket_day r = n) ?S = filter (\<lambda>r. day_of (sn_bucket_start r) = n \<and>
        (v = '''' \<or> sn_dimension_value r = v)) (rebuilt_snapshots rq ''source'' now rid d)"
      unfolding sel [unfolded slug] using that by (auto simp: bucket_day_def range intro!: filter_cong)
    also have "(\<Sum>r \<leftarrow> \<dots>. sn_metric_value r) =
        int (length (filter (\<lambda>(b, u). day_of b = n \<and> (v = '''' \<or> u = v)) ?G))"
      unfolding rebuilt_snapshots_def by (rule aggregated_sum) simp
    also have "\<dots> = int (length (day_events d n v))"
      using day_groups_filter [OF cons slug day, of n v] that cov by (simp add: covers_def)
    finally show ?thesis .
  qed
  have days: "bucket_day ` set ?S = {n. ?a \<le> n \<and> n \<le> ?b \<and> day_events d n v \<noteq> []}"
  proof -
    have "bucket_day ` set ?S = {n. \<exists>b u. (b, u) \<in> set ?G \<and> day_of b = n \<and> ?a \<le> n \<and> n \<le> ?b \<and> (v = '''' \<or> u = v)}"
      unfolding sel [unfolded slug] rebuilt_snapshots_def aggregated_groups [symmetric, where dim = "''source''" and now = now and rid = rid]
      by (auto simp: range bucket_day_def image_iff set_eq_iff)
    also have "\<dots> = {n. ?a \<le> n \<and> n \<le> ?b \<and> day_events d n v \<noteq> []}"
    proof (rule Collect_cong)
      fix n
      have "filter (\<lambda>(b, u). day_of b = n \<and> (v = '''' \<or> u = v)) ?G = [] \<longleftrightarrow> day_events d n v = []"
        if "?a \<le> n \<and> n \<le> ?b"
      proof -
        have "length (filter (\<lambda>(b, u). day_of b = n \<and> (v = '''' \<or> u = v)) ?G) = length (day_events d n v)"
          using that cov by (intro day_groups_filter [OF cons slug day]) (auto simp: covers_def)
        then show ?thesis by (metis length_0_conv)
      qed
      then show "(\<exists>b u. (b, u) \<in> set ?G \<and> day_of b = n \<and> ?a \<le> n \<and> n \<le> ?b \<and> (v = '''' \<or> u = v)) \<longleftrightarrow>
          ?a \<le> n \<and> n \<le> ?b \<and> day_events d n v \<noteq> []"
        by (auto simp: filter_empty_conv)
    qed
    finally show ?thesis .
  qed
  show ?thesis unfolding set_group_sums days using total by auto
qed

end
