(* ===== verification/Pg_Runs.thy ===== *)
theory Pg_Runs
  imports Pg_Catalog Pg_Recompute Pg_Reports Contracts
begin

section \<open>Recompute runs and audit entries\<close>

text \<open>
  The remaining methods of \<open>internal/infrastructure/postgres/store.go\<close>: \<open>CreateRun\<close>,
  \<open>GetRun\<close>, the three updates of a run's state, \<open>CreateEntry\<close>, \<open>ListEntries\<close> and \<open>PingDB\<close>,
  and the store as the application's repositories.
\<close>

subsection \<open>Runs\<close>

text \<open>\<open>json.Unmarshal\<close> into a \<open>map[string]any\<close>; a nil map is replaced by an empty one.\<close>

fun decode_map :: "json \<Rightarrow> go_error + (string \<times> goval) list" where
  "decode_map JNull = Inr []"
| "decode_map (JObj kvs) = Inr (map (\<lambda>(k, v). (k, goval_of_json v)) kvs)"
| "decode_map _ = Inl (PlainError ''json: cannot unmarshal'')"

definition run_of_row :: "run_row \<Rightarrow> (string \<times> goval) list \<Rightarrow> RecomputeRun" where
  "run_of_row r summary =
     \<lparr>run_ID = rn_id r, run_ReportSlug = rn_report_slug r, run_Window = rn_window_name r,
      run_DateFrom = FormatDate (midnight (rn_date_from r)),
      run_DateTo = FormatDate (midnight (rn_date_to r)), run_RequestedBy = rn_requested_by r,
      run_Status = rn_status r, run_RequestedAt = rn_requested_at r, run_StartedAt = rn_started_at r,
      run_FinishedAt = rn_finished_at r,
      run_ErrorMessage = (case rn_error_message r of None \<Rightarrow> '''' | Some msg \<Rightarrow> msg),
      run_Summary = summary\<rparr>"

definition scan_run :: "run_row \<Rightarrow> go_error + RecomputeRun" where
  "scan_run r =
     (case decode_map (rn_summary r) of Inl err \<Rightarrow> Inl err | Inr m \<Rightarrow> Inr (run_of_row r m))"

definition new_run :: "pg_server \<Rightarrow> RecomputeRequest \<Rightarrow> string \<Rightarrow> gotime \<Rightarrow> pgdb \<Rightarrow> run_row" where
  "new_run pg rq status now d =
     \<lparr>rn_id = pgs_uuid pg (db_uuids d), rn_report_slug = rq_ReportSlug rq,
      rn_window_name = rq_Window rq, rn_date_from = day_of (rq_DateFrom rq),
      rn_date_to = day_of (rq_DateTo rq), rn_requested_by = rq_RequestedBy rq, rn_status = status,
      rn_requested_at = now, rn_started_at = None, rn_finished_at = None, rn_error_message = None,
      rn_summary = JObj []\<rparr>"

definition Store_CreateRun ::
    "pg_server \<Rightarrow> ctx \<Rightarrow> RecomputeRequest \<Rightarrow> string \<Rightarrow> ((pgdb, 'r) world, RecomputeRun) io" where
  "Store_CreateRun pg ctx rq status = db_call ctx (\<lambda>now d.
     let d0 = d\<lparr>db_uuids := db_uuids d + 1\<rparr> in
     case insert_run (new_run pg rq status now d) d0 of
       Inl err \<Rightarrow> (d0, Inl err)
     | Inr d1 \<Rightarrow> (d1, scan_run (new_run pg rq status now d)))"

definition Store_GetRun :: "pg_server \<Rightarrow> ctx \<Rightarrow> string \<Rightarrow> ((pgdb, 'r) world, RecomputeRun) io" where
  "Store_GetRun pg ctx runID w =
     (case db_call ctx (\<lambda>now d.
             (d, case pgs_uuid_text pg runID of
                   None \<Rightarrow> Inl (pg_error ''invalid input syntax for type uuid'')
                 | Some rid \<Rightarrow>
                     (case filter (\<lambda>r. rn_id r = rid) (db_runs d) of
                        [] \<Rightarrow> Inl ErrNoRows
                      | r # _ \<Rightarrow> scan_run r))) w of
        (w1, Inl err) \<Rightarrow>
          if err = ErrNoRows
          then (w1, Inl (NewAppError ErrCodeNotFound ''recompute run was not found''))
          else (w1, Inl err)
      | (w1, Inr run) \<Rightarrow> (w1, Inr run))"

text \<open>\<open>UPDATE recompute_runs SET ... WHERE id = $1\<close>; no row matching is not an error.\<close>

definition sql_update_run ::
    "pg_server \<Rightarrow> string \<Rightarrow> (run_row \<Rightarrow> run_row) \<Rightarrow> pgdb \<Rightarrow> pgdb \<times> (go_error + unit)" where
  "sql_update_run pg runID f d =
     (case pgs_uuid_text pg runID of
        None \<Rightarrow> (d, Inl (pg_error ''invalid input syntax for type uuid''))
      | Some rid \<Rightarrow> (d\<lparr>db_runs := map (\<lambda>r. if rn_id r = rid then f r else r) (db_runs d)\<rparr>, Inr ()))"

definition Store_MarkRunRunning :: "pg_server \<Rightarrow> ctx \<Rightarrow> string \<Rightarrow> ((pgdb, 'r) world, unit) io" where
  "Store_MarkRunRunning pg ctx runID = db_call ctx (\<lambda>now.
     sql_update_run pg runID (\<lambda>r. r\<lparr>rn_status := ''running'', rn_started_at := Some now\<rparr>))"

definition summary_json :: "RecomputeSummary \<Rightarrow> json" where
  "summary_json m = JObj
     [(''rows_deleted'', JNum (sum_RowsDeleted m)), (''rows_inserted'', JNum (sum_RowsInserted m)),
      (''bucket_count'', JNum (sum_BucketCount m))]"

definition Store_MarkRunCompleted ::
    "pg_server \<Rightarrow> ctx \<Rightarrow> string \<Rightarrow> RecomputeSummary \<Rightarrow> ((pgdb, 'r) world, unit) io" where
  "Store_MarkRunCompleted pg ctx runID summary = db_call ctx (\<lambda>now.
     sql_update_run pg runID (\<lambda>r.
       r\<lparr>rn_status := ''completed'', rn_finished_at := Some now, rn_error_message := None,
         rn_summary := summary_json summary\<rparr>))"

definition Store_MarkRunFailed ::
    "pg_server \<Rightarrow> ctx \<Rightarrow> string \<Rightarrow> string \<Rightarrow> ((pgdb, 'r) world, unit) io" where
  "Store_MarkRunFailed pg ctx runID msg = db_call ctx (\<lambda>now.
     sql_update_run pg runID (\<lambda>r.
       r\<lparr>rn_status := ''failed'', rn_finished_at := Some now, rn_error_message := Some msg\<rparr>))"

subsection \<open>Audit entries\<close>

definition Store_CreateEntry :: "ctx \<Rightarrow> AuditEntry \<Rightarrow> ((pgdb, 'r) world, unit) io" where
  "Store_CreateEntry ctx entry = db_call ctx (\<lambda>now d.
     (d\<lparr>db_audits := db_audits d @
          [\<lparr>ar_id = db_audit_seq d, ar_actor = au_Actor entry, ar_action = au_Action entry,
            ar_resource_type = au_ResourceType entry, ar_resource_id = Some (au_ResourceID entry),
            ar_metadata = json_of_goval (GMap (au_Metadata entry)), ar_created_at = now\<rparr>],
        db_audit_seq := db_audit_seq d + 1\<rparr>, Inr ()))"

definition scan_audit :: "audit_row \<Rightarrow> go_error + AuditEntry" where
  "scan_audit r =
     (case ar_resource_id r of
        None \<Rightarrow> Inl (PlainError ''cannot scan NULL into *string'')
      | Some res \<Rightarrow>
          (case decode_map (ar_metadata r) of
             Inl err \<Rightarrow> Inl err
           | Inr m \<Rightarrow>
               Inr \<lparr>au_ID = ar_id r, au_Actor = ar_actor r, au_Action = ar_action r,
                    au_ResourceType = ar_resource_type r, au_ResourceID = res, au_Metadata = m,
                    au_CreatedAt = ar_created_at r\<rparr>))"

definition audit_matches :: "AuditFilter \<Rightarrow> audit_row \<Rightarrow> bool" where
  "audit_matches flt r \<longleftrightarrow>
     (af_Action flt = '''' \<or> ar_action r = af_Action flt) \<and>
     (af_Actor flt = '''' \<or> ar_actor r = af_Actor flt)"

definition audit_page :: "AuditFilter \<Rightarrow> pgdb \<Rightarrow> go_error + audit_row list" where
  "audit_page flt d =
     (case limit_offset (af_Limit flt) (af_Offset flt)
             (sort_by (\<lambda>a b. ar_created_at b \<le> ar_created_at a) (filter (audit_matches flt) (db_audits d))) of
        Inl msg \<Rightarrow> Inl (pg_error msg)
      | Inr rows \<Rightarrow> Inr rows)"

definition Store_ListEntries ::
    "ctx \<Rightarrow> AuditFilter \<Rightarrow> ((pgdb, 'r) world, AuditEntry list \<times> int) io" where
  "Store_ListEntries ctx flt w =
     (case db_call ctx (\<lambda>now d. (d, Inr (int (length (filter (audit_matches flt) (db_audits d)))))) w of
        (w1, Inl err) \<Rightarrow> (w1, Inl err)
      | (w1, Inr cnt) \<Rightarrow>
     (case db_call ctx (\<lambda>now d.
             (d, case audit_page flt d of Inl err \<Rightarrow> Inl err | Inr rows \<Rightarrow> scan_rows scan_audit rows)) w1 of
        (w2, Inl err) \<Rightarrow> (w2, Inl err)
      | (w2, Inr entries) \<Rightarrow> (w2, Inr (entries, cnt))))"

definition Store_PingDB :: "ctx \<Rightarrow> ((pgdb, 'r) world, unit) io" where
  "Store_PingDB ctx = db_call ctx (\<lambda>now d. (d, Inr ()))"

subsection \<open>The store as the application's repositories\<close>

definition pg_reports :: "pg_server \<Rightarrow> (pgdb, 'r) world ReportRepository" where
  "pg_reports pg =
     \<lparr>ListReportDefinitions = Store_ListReportDefinitions pg,
      GetReportDefinition = Store_GetReportDefinition pg, RunVolumeReport = Store_RunVolumeReport pg,
      RunStatusCountsReport = Store_RunStatusCountsReport pg,
      RunTopEntitiesReport = Store_RunTopEntitiesReport pg, RecomputeReport = Store_RecomputeReport pg\<rparr>"

definition pg_runs :: "pg_server \<Rightarrow> (pgdb, 'r) world RecomputeRunRepository" where
  "pg_runs pg =
     \<lparr>CreateRun = Store_CreateRun pg, GetRun = Store_GetRun pg, MarkRunRunning = Store_MarkRunRunning pg,
      MarkRunCompleted = Store_MarkRunCompleted pg, MarkRunFailed = Store_MarkRunFailed pg\<rparr>"

definition pg_audits :: "(pgdb, 'r) world AuditRepository" where
  "pg_audits = \<lparr>CreateEntry = Store_CreateEntry, ListEntries = Store_ListEntries\<rparr>"

lemmas pg_port_simps [port_simps] = pg_reports_def pg_runs_def pg_audits_def

subsection \<open>What the operations do to a run\<close>

definition run_row_of :: "pgdb \<Rightarrow> string \<Rightarrow> run_row option" where
  "run_row_of d rid = find (\<lambda>r. rn_id r = rid) (db_runs d)"

definition run_status :: "pgdb \<Rightarrow> string \<Rightarrow> string option" where
  "run_status d rid = map_option rn_status (run_row_of d rid)"

lemma find_map_update:
  "find (\<lambda>r. rn_id r = i) (map (\<lambda>r. if rn_id r = rid then f r else r) rs) =
     (if i = rid then map_option f (find (\<lambda>r. rn_id r = i) rs) else find (\<lambda>r. rn_id r = i) rs)"
  if "\<And>r. rn_id (f r) = rn_id r" for f
  using that by (induction rs) auto

lemma run_row_of_update:
  assumes "sql_update_run pg runID f d = (d', Inr u)" and "\<And>r. rn_id (f r) = rn_id r"
  shows "\<exists>rid. pgs_uuid_text pg runID = Some rid \<and> (\<exists>R. d' = d\<lparr>db_runs := R\<rparr>) \<and>
    (\<forall>i. run_row_of d' i = (if i = rid then map_option f (run_row_of d i) else run_row_of d i))"
  using assms find_map_update [of f]
  by (auto simp: sql_update_run_def run_row_of_def split: option.splits)

lemma sql_update_run_fails:
  "sql_update_run pg runID f d = (d', Inl e) \<Longrightarrow> d' = d"
  by (auto simp: sql_update_run_def split: option.splits)

lemma update_ids:
  "(\<And>r. rn_id (f r) = rn_id r) \<Longrightarrow>
    map rn_id (map (\<lambda>r. if rn_id r = rid then f r else r) rs) = map rn_id rs"
  by (induction rs) auto

lemma snapshot_ok_runs:
  "map rn_id (db_runs d') = map rn_id (db_runs d) \<Longrightarrow> db_definitions d' = db_definitions d \<Longrightarrow>
    snapshot_ok d' = snapshot_ok d"
  by (rule ext) (simp add: snapshot_ok_def report_exists_def run_exists_def split: option.split)

lemma snapshot_ok_more_runs:
  "set (map rn_id (db_runs d)) \<subseteq> set (map rn_id (db_runs d')) \<Longrightarrow> db_definitions d' = db_definitions d \<Longrightarrow>
    snapshot_ok d r \<Longrightarrow> snapshot_ok d' r"
  by (auto simp: snapshot_ok_def report_exists_def run_exists_def split: option.splits)

lemma sql_update_run_consistent:
  assumes "sql_update_run pg runID f d = (d', r)" and "db_consistent d"
    and "\<And>r. rn_id (f r) = rn_id r" and "\<And>r. status_ok (rn_status (f r))"
  shows "db_consistent d'"
proof (cases "pgs_uuid_text pg runID")
  case None
  with assms show ?thesis by (simp add: sql_update_run_def)
next
  case (Some rid)
  let ?R = "map (\<lambda>r. if rn_id r = rid then f r else r) (db_runs d)"
  have d': "d' = d\<lparr>db_runs := ?R\<rparr>" using assms(1) Some by (simp add: sql_update_run_def)
  have ids: "map rn_id ?R = map rn_id (db_runs d)" by (rule update_ids) (rule assms(3))
  have "snapshot_ok d' = snapshot_ok d" unfolding d' by (rule snapshot_ok_runs) (simp_all add: ids del: map_map)
  with assms(2,4) ids show ?thesis
    by (auto simp: db_consistent_def d' list_all_iff simp del: map_map)
qed

lemma insert_run_consistent:
  assumes "insert_run r d = Inr d'" and "db_consistent d"
  shows "db_consistent d'"
proof -
  have d': "d' = d\<lparr>db_runs := db_runs d @ [r]\<rparr>" and r: "status_ok (rn_status r)" "\<not> run_exists d (rn_id r)"
    using assms(1) by (auto simp: insert_run_Inr_iff)
  have "snapshot_ok (d\<lparr>db_runs := db_runs d @ [r]\<rparr>) s" if "snapshot_ok d s" for s
    by (rule snapshot_ok_more_runs [OF _ _ that]) auto
  then have "list_all (snapshot_ok (d\<lparr>db_runs := db_runs d @ [r]\<rparr>)) (db_snapshots d)"
    using assms(2) by (auto simp: db_consistent_def list_all_iff)
  with assms(2) r show ?thesis by (simp add: db_consistent_def d' run_exists_def)
qed

lemma snapshot_ok_other [simp]:
  "snapshot_ok (d\<lparr>db_uuids := n\<rparr>) = snapshot_ok d"
  "snapshot_ok (d\<lparr>db_audits := A, db_audit_seq := s\<rparr>) = snapshot_ok d"
  by (rule snapshot_ok_runs; simp)+

lemma consistent_update [simp]:
  "db_consistent (d\<lparr>db_uuids := n\<rparr>) = db_consistent d"
  "db_consistent (d\<lparr>db_audits := A, db_audit_seq := s\<rparr>) = db_consistent d"
  by (simp_all add: db_consistent_def)

subsection \<open>The store keeps the registry's contract\<close>

lemma run_status_append:
  "run_status (d\<lparr>db_runs := db_runs d @ [r]\<rparr>) =
     (if run_exists d (rn_id r) then run_status d else (run_status d)(rn_id r \<mapsto> rn_status r))"
proof -
  have app: "find P (xs @ [r]) = (case find P xs of None \<Rightarrow> if P r then Some r else None | Some y \<Rightarrow> Some y)" for P xs
    by (induction xs) auto
  have none: "find (\<lambda>r. rn_id r = i) (db_runs d) = None \<longleftrightarrow> \<not> run_exists d i" for i
    by (auto simp: find_None_iff run_exists_def)
  show ?thesis
  proof (cases "run_exists d (rn_id r)")
    case True
    then show ?thesis
      using none by (auto simp: run_status_def run_row_of_def app fun_eq_iff split: option.split)
  next
    case False
    then have "find (\<lambda>x. rn_id x = rn_id r) (db_runs d) = None" by (simp add: none)
    with False show ?thesis
      by (auto simp: run_status_def run_row_of_def app fun_eq_iff split: option.split)
  qed
qed

lemma run_status_None: "run_status d i = None \<longleftrightarrow> \<not> run_exists d i"
  by (auto simp: run_status_def run_row_of_def find_None_iff run_exists_def)

lemma run_status_same_runs: "db_runs d' = db_runs d \<Longrightarrow> run_status d' = run_status d"
  by (simp add: run_status_def run_row_of_def fun_eq_iff)

lemma run_status_updates [simp]:
  "run_status (d\<lparr>db_uuids := n\<rparr>) = run_status d"
  "run_status (d\<lparr>db_snapshots := S\<rparr>) = run_status d"
  "run_status (d\<lparr>db_audits := A, db_audit_seq := s\<rparr>) = run_status d"
  by (rule run_status_same_runs, simp)+

lemma update_status:
  assumes "sql_update_run pg runID f d = (d', u)" and "\<And>r. rn_id (f r) = rn_id r"
    and "\<And>r. rn_status (f r) = st"
  shows "run_status d' = run_status d \<and> u \<noteq> Inr () \<or>
    (\<exists>c. pgs_uuid_text pg runID = Some c \<and>
       run_status d' = (run_status d)(c := map_option (\<lambda>_. st) (run_status d c)))"
proof (cases u)
  case (Inl e)
  with assms(1) show ?thesis by (auto dest: sql_update_run_fails)
next
  case (Inr x)
  from run_row_of_update [OF assms(1) [unfolded Inr] assms(2)] obtain c where
    c: "pgs_uuid_text pg runID = Some c"
    and rows: "\<And>i. run_row_of d' i = (if i = c then map_option f (run_row_of d i) else run_row_of d i)"
    by blast
  have "run_status d' = (run_status d)(c := map_option (\<lambda>_. st) (run_status d c))"
    by (rule ext) (simp add: run_status_def rows option.map_comp comp_def assms(3))
  with c show ?thesis by blast
qed

lemma mark_law:
  assumes "db_call ctx (\<lambda>now. sql_update_run pg runID (f now)) w = (w', u)"
    and "\<And>now r. rn_id (f now r) = rn_id r" and "\<And>now r. rn_status (f now r) = st"
  shows "run_status (w_db w') = run_status (w_db w) \<and> u \<noteq> Inr () \<or>
    (\<exists>c. pgs_uuid_text pg runID = Some c \<and>
       run_status (w_db w') = (run_status (w_db w))(c := map_option (\<lambda>_. st) (run_status (w_db w) c)))"
  using assms(1)
proof (cases rule: db_call_cases)
  case no_effect
  then show ?thesis by auto
next
  case (served d)
  then show ?thesis using update_status [OF served(1) assms(2,3)] by simp
next
  case (reply_lost d r')
  then show ?thesis using update_status [OF reply_lost(1) assms(2,3)] by auto
qed

context postgres_server begin

lemma CreateRun_law:
  assumes "Store_CreateRun pg ctx rq st w = (w', c)"
  shows "run_status (w_db w') = run_status (w_db w) \<and> (\<forall>run. c \<noteq> Inr run) \<or>
    (\<exists>i. run_status (w_db w) i = None \<and> pgs_uuid_text pg i = Some i \<and>
       run_status (w_db w') = (run_status (w_db w))(i \<mapsto> st) \<and>
       (\<forall>run. c = Inr run \<longrightarrow> run_ID run = i \<and> run_Status run = st))"
proof -
  let ?g = "\<lambda>now d. let d0 = d\<lparr>db_uuids := db_uuids d + 1\<rparr> in
     case insert_run (new_run pg rq st now d) d0 of
       Inl err \<Rightarrow> (d0, Inl err) | Inr d1 \<Rightarrow> (d1, scan_run (new_run pg rq st now d))"
  have eff: "run_status d' = run_status d \<and> (\<forall>run. c \<noteq> Inr run) \<or>
      (\<exists>i. run_status d i = None \<and> pgs_uuid_text pg i = Some i \<and> run_status d' = (run_status d)(i \<mapsto> st) \<and>
         (\<forall>run. c = Inr run \<longrightarrow> run_ID run = i \<and> run_Status run = st))"
    if g: "?g now d = (d', c)" for now d d' c
  proof (cases "insert_run (new_run pg rq st now d) (d\<lparr>db_uuids := db_uuids d + 1\<rparr>)")
    case (Inl e)
    with g show ?thesis by (auto simp: Let_def)
  next
    case (Inr d1)
    let ?d0 = "d\<lparr>db_uuids := db_uuids d + 1\<rparr>" and ?r = "new_run pg rq st now d"
    from Inr have d1: "d1 = ?d0\<lparr>db_runs := db_runs ?d0 @ [?r]\<rparr>" and new: "\<not> run_exists ?d0 (rn_id ?r)"
      unfolding insert_run_Inr_iff by simp_all
    have same: "run_status ?d0 = run_status d" by simp
    have "run_status d1 = (run_status d)(rn_id ?r \<mapsto> st)"
      unfolding d1 run_status_append using new by (simp add: same) (simp add: new_run_def)
    moreover have "run_status d (rn_id ?r) = None" using new same run_status_None by metis
    moreover have "pgs_uuid_text pg (rn_id ?r) = Some (rn_id ?r)" by (simp add: new_run_def uuid_text)
    moreover have "d' = d1" "c = scan_run ?r" using g Inr by (simp_all add: Let_def)
    ultimately show ?thesis
      by (auto simp: scan_run_def new_run_def run_of_row_def intro!: exI [of _ "rn_id ?r"])
  qed
  from assms [unfolded Store_CreateRun_def] show ?thesis
  proof (cases rule: db_call_cases)
    case no_effect
    then show ?thesis by auto
  next
    case (served d)
    then show ?thesis using eff [OF served(1)] by simp
  next
    case (reply_lost d r')
    then show ?thesis using eff [OF reply_lost(1)] by auto
  qed
qed

lemma GetRun_law:
  assumes "Store_GetRun pg ctx i w = (w', g)"
  shows "run_status (w_db w') = run_status (w_db w) \<and>
    (\<forall>run. g = Inr run \<longrightarrow> pgs_uuid_text pg i = Some (run_ID run) \<and>
       run_status (w_db w) (run_ID run) = Some (run_Status run))"
proof -
  have row: "run_status d rid = Some (rn_status r) \<and> rn_id r = rid"
    if "filter (\<lambda>r. rn_id r = rid) (db_runs d) = r # rs" for d rid r rs
  proof -
    have "find P xs = Some r" if "filter P xs = r # rs" for P xs
      using that by (induction xs) (auto split: if_splits)
    with that show ?thesis by (auto simp: run_status_def run_row_of_def filter_eq_Cons_iff)
  qed
  obtain w1 x where c: "db_call ctx (\<lambda>now d.
      (d, case pgs_uuid_text pg i of
            None \<Rightarrow> Inl (pg_error ''invalid input syntax for type uuid'')
          | Some rid \<Rightarrow>
              (case filter (\<lambda>r. rn_id r = rid) (db_runs d) of
                 [] \<Rightarrow> Inl ErrNoRows
               | r # _ \<Rightarrow> scan_run r))) w = (w1, x)" by fastforce
  have same: "w_db w1 = w_db w" using db_call_reads [OF c] by simp
  have res: "w' = w1" "g = Inr run \<Longrightarrow> x = Inr run" for run
    using assms c by (auto simp: Store_GetRun_def split: sum.splits if_splits)
  have "pgs_uuid_text pg i = Some (run_ID run) \<and> run_status (w_db w) (run_ID run) = Some (run_Status run)"
    if "x = Inr run" for run
    using db_call_Inr(1) [OF c [unfolded that]]
    by (auto simp: scan_run_def run_of_row_def split: option.splits list.splits sum.splits dest!: row)
  with res same show ?thesis by simp
qed

end

sublocale postgres_server \<subseteq> registry: run_registry "pg_runs pg :: (pgdb, 'r) world RecomputeRunRepository"
    "\<lambda>w. run_status (w_db w)" "pgs_uuid_text pg"
proof (unfold_locales, goal_cases)
  case (1 ctx rq st w w' c)
  then show ?case using CreateRun_law by (simp add: port_simps)
next
  case (2 ctx i w w' g)
  then show ?case using GetRun_law by (simp add: port_simps)
next
  case (3 ctx i w w' u)
  then have "Store_MarkRunRunning pg ctx i w = (w', u)" by (simp add: port_simps)
  from mark_law [OF this [unfolded Store_MarkRunRunning_def]] show ?case by (simp add: status_defs)
next
  case (4 ctx i m w w' u)
  then have "Store_MarkRunCompleted pg ctx i m w = (w', u)" by (simp add: port_simps)
  from mark_law [OF this [unfolded Store_MarkRunCompleted_def]] show ?case by (simp add: status_defs)
next
  case (5 ctx i msg w w' u)
  then have "Store_MarkRunFailed pg ctx i msg w = (w', u)" by (simp add: port_simps)
  from mark_law [OF this [unfolded Store_MarkRunFailed_def]] show ?case by (simp add: status_defs)
qed

end
