(* ===== verification/Audit_Health.thy ===== *)
theory Audit_Health
  imports Ports Report_Service
begin

section \<open>The audit and health services\<close>

text \<open>
  \<open>internal/application/audit_service.go\<close> and \<open>internal/application/health_service.go\<close>.
\<close>

record 'w AuditService = as_repo :: "'w AuditRepository"

definition NewAuditService :: "'w AuditRepository \<Rightarrow> 'w AuditService" where
  "NewAuditService repo = \<lparr>as_repo = repo\<rparr>"

text \<open>The limits both listings apply: 20 for a limit below one, at most 100, no negative offset.\<close>

definition clampAuditFilter :: "AuditFilter \<Rightarrow> AuditFilter" where
  "clampAuditFilter flt =
     (let f1 = (if af_Limit flt < 1 then flt\<lparr>af_Limit := 20\<rparr> else flt);
          f2 = (if 100 < af_Limit f1 then f1\<lparr>af_Limit := 100\<rparr> else f1)
      in if af_Offset f2 < 0 then f2\<lparr>af_Offset := 0\<rparr> else f2)"

definition AuditService_ListEntries ::
    "'w AuditService \<Rightarrow> ctx \<Rightarrow> AuditFilter \<Rightarrow> ('w, AuditEntry list \<times> Pagination) io" where
  "AuditService_ListEntries s ctx flt0 w =
     (let flt = clampAuditFilter flt0 in
      case ListEntries (as_repo s) ctx flt w of
        (w1, Inl err) \<Rightarrow> (w1, Inl (WrapAppError ErrCodeInternal ''failed to list audit entries'' err))
      | (w1, Inr (entries, cnt)) \<Rightarrow>
          (w1, Inr (entries, \<lparr>pg_Limit = af_Limit flt, pg_Offset = af_Offset flt, pg_Total = cnt\<rparr>)))"

lemma clampAuditFilter_bounds:
  "1 \<le> af_Limit (clampAuditFilter f)" "af_Limit (clampAuditFilter f) \<le> 100"
  "0 \<le> af_Offset (clampAuditFilter f)"
  by (auto simp: clampAuditFilter_def Let_def)

lemma clampAuditFilter_id:
  "1 \<le> af_Limit f \<Longrightarrow> af_Limit f \<le> 100 \<Longrightarrow> 0 \<le> af_Offset f \<Longrightarrow> clampAuditFilter f = f"
  by (simp add: clampAuditFilter_def)

record 'w HealthService =
  hsv_store :: "'w HealthStore"
  hsv_version :: string

definition NewHealthService :: "'w HealthStore \<Rightarrow> string \<Rightarrow> 'w HealthService" where
  "NewHealthService store version = \<lparr>hsv_store = store, hsv_version = version\<rparr>"

definition HealthService_Check :: "'w runtime \<Rightarrow> 'w HealthService \<Rightarrow> ctx \<Rightarrow> 'w \<Rightarrow> 'w \<times> HealthStatus" where
  "HealthService_Check rt s ctx w =
     (let dbCtx = WithTimeout ctx (rt_now rt w) ns_Second;
          (w1, db) = PingDB (hsv_store s) dbCtx w;
          cacheCtx = WithTimeout ctx (rt_now rt w1) ns_Second;
          (w2, ch) = PingCache (hsv_store s) cacheCtx w1
      in (w2, \<lparr>hs_Status = (if is_ok db \<and> is_ok ch then ''ok'' else ''degraded''),
               hs_Service = ''pg-analytics-service'', hs_Version = hsv_version s,
               hs_Timestamp = rt_now rt w2,
               hs_Dependencies =
                 [(''postgres'', if is_ok db then ''ok'' else ''unavailable''),
                  (''redis'', if is_ok ch then ''ok'' else ''unavailable'')]\<rparr>))"

end
