(* ===== verification/Wiring.thy ===== *)
theory Wiring
  imports Pg_Runs Redis_Store Audit_Health Snapshot_Facts
begin

section \<open>The services over the stores\<close>

text \<open>
  How \<open>cmd/api/main.go\<close> puts the services together: one PostgreSQL store behind the three
  repositories, one Redis store as cache and as lock. The contracts of the stores meet the
  services here, and the effect of a trigger and of a worker's turn on the lock and on the
  runs follows for every network.
\<close>

definition api_runtime :: "(string \<Rightarrow> string) \<Rightarrow> ('d, 'r) world runtime" where
  "api_runtime sha = \<lparr>rt_now = w_now, rt_sha256_hex = sha\<rparr>"

definition api_reportService :: "pg_server \<Rightarrow> 'r redis_server \<Rightarrow> int \<Rightarrow> (pgdb, 'r) world ReportService" where
  "api_reportService pg srv maxRangeDays =
     NewReportService (pg_reports pg) (Some (redis_cache srv)) maxRangeDays"

definition api_recomputeService ::
    "pg_server \<Rightarrow> 'r redis_server \<Rightarrow> int \<Rightarrow> duration \<Rightarrow> nat \<Rightarrow> (pgdb, 'r) world RecomputeService" where
  "api_recomputeService pg srv maxRangeDays lockTTL queueSize =
     NewRecomputeService (pg_reports pg) (pg_runs pg) pg_audits (redis_locks srv)
       (Some (redis_cache srv)) maxRangeDays lockTTL queueSize"

definition api_auditService :: "(pgdb, 'r) world AuditService" where
  "api_auditService = NewAuditService pg_audits"

definition healthDependencies :: "'r redis_server \<Rightarrow> (pgdb, 'r) world HealthStore" where
  "healthDependencies srv = \<lparr>PingDB = Store_PingDB, PingCache = RedisStore_PingCache srv\<rparr>"

definition api_healthService :: "'r redis_server \<Rightarrow> string \<Rightarrow> (pgdb, 'r) world HealthService" where
  "api_healthService srv version = NewHealthService (healthDependencies srv) version"

lemmas wiring_simps = api_reportService_def api_recomputeService_def api_auditService_def
  api_healthService_def healthDependencies_def NewReportService_def NewRecomputeService_def
  NewAuditService_def NewHealthService_def port_simps

lemma api_runtime_simps [simp]: "rt_now (api_runtime sha) = w_now" "rt_sha256_hex (api_runtime sha) = sha"
  by (simp_all add: api_runtime_def)

subsection \<open>What the operations leave alone\<close>

lemma redis_frames [frame_simps]:
  "w_db (fst (RedisStore_TryAcquire srv ctx k tok d w)) = w_db w"
  "w_db (fst (RedisStore_Release srv ctx k tok w)) = w_db w"
  "w_db (fst (RedisStore_BumpVersion srv ctx slug w)) = w_db w"
  "w_db (fst (RedisStore_GetVersion srv ctx slug w)) = w_db w"
  "w_db (fst (RedisStore_Get srv ctx k w)) = w_db w"
  "w_db (fst (RedisStore_Set srv ctx k v d w)) = w_db w"
proof -
  have c: "w_db w1 = w_db w" if "rd_call ctx g w = (w1, x)" for ctx g w w1 x
    using rd_call_frame [of ctx g w] that by simp
  show "w_db (fst (RedisStore_TryAcquire srv ctx k tok d w)) = w_db w"
    and "w_db (fst (RedisStore_BumpVersion srv ctx slug w)) = w_db w"
    and "w_db (fst (RedisStore_Set srv ctx k v d w)) = w_db w"
    by (simp_all add: RedisStore_TryAcquire_def RedisStore_BumpVersion_def RedisStore_Set_def
        client_Set_def frame_simps)
  show "w_db (fst (RedisStore_Release srv ctx k tok w)) = w_db w"
    unfolding RedisStore_Release_def by (auto split: prod.split sum.split dest: c)
  show "w_db (fst (RedisStore_Get srv ctx k w)) = w_db w"
    unfolding RedisStore_Get_def client_Get_def by (auto split: prod.split sum.split dest: c)
  show "w_db (fst (RedisStore_GetVersion srv ctx slug w)) = w_db w"
    unfolding RedisStore_GetVersion_def client_Get_def client_Set_def Let_def
    by (auto split: prod.split sum.split option.split dest!: c)
qed

lemma pg_frames [frame_simps]:
  "w_rd (fst (Store_GetReportDefinition pg ctx slug w)) = w_rd w"
  "w_rd (fst (Store_CreateRun pg ctx rq st w)) = w_rd w"
  "w_rd (fst (Store_MarkRunRunning pg ctx i w)) = w_rd w"
  "w_rd (fst (Store_MarkRunCompleted pg ctx i m w)) = w_rd w"
  "w_rd (fst (Store_MarkRunFailed pg ctx i msg w)) = w_rd w"
  "w_rd (fst (Store_CreateEntry ctx e w)) = w_rd w"
  "w_rd (fst (Store_RecomputeReport pg ctx rq i w)) = w_rd w"
proof -
  show "w_rd (fst (Store_GetReportDefinition pg ctx slug w)) = w_rd w"
    using reads_only_GetReportDefinition by (auto simp: reads_only_def)
  obtain w' r where "Store_RecomputeReport pg ctx rq i w = (w', r)" by fastforce
  from Store_RecomputeReport_atomic [OF this]
  show "w_rd (fst (Store_RecomputeReport pg ctx rq i w)) = w_rd w"
    using \<open>Store_RecomputeReport pg ctx rq i w = (w', r)\<close> by simp
qed (simp_all add: Store_CreateRun_def Store_MarkRunRunning_def Store_MarkRunCompleted_def
    Store_MarkRunFailed_def Store_CreateEntry_def frame_simps)

lemma lookup_db_frame [frame_simps]: "w_db (fst (Store_GetReportDefinition pg ctx slug w)) = w_db w"
  using reads_only_GetReportDefinition by (auto simp: reads_only_def)

lemma pg_times:
  "w_now w \<le> w_now (fst (Store_GetReportDefinition pg ctx slug w))"
  "w_now w \<le> w_now (fst (Store_CreateRun pg ctx rq st w))"
  "w_now w \<le> w_now (fst (Store_MarkRunRunning pg ctx i w))"
  "w_now w \<le> w_now (fst (Store_MarkRunCompleted pg ctx i m w))"
  "w_now w \<le> w_now (fst (Store_MarkRunFailed pg ctx i msg w))"
  "w_now w \<le> w_now (fst (Store_CreateEntry ctx e w))"
  "w_now w \<le> w_now (fst (Store_RecomputeReport pg ctx rq i w))"
proof -
  show "w_now w \<le> w_now (fst (Store_GetReportDefinition pg ctx slug w))"
    using reads_only_GetReportDefinition by (auto simp: reads_only_def)
  obtain w' r where "Store_RecomputeReport pg ctx rq i w = (w', r)" by fastforce
  from Store_RecomputeReport_atomic [OF this]
  show "w_now w \<le> w_now (fst (Store_RecomputeReport pg ctx rq i w))"
    using \<open>Store_RecomputeReport pg ctx rq i w = (w', r)\<close> by simp
qed (simp_all add: Store_CreateRun_def Store_MarkRunRunning_def Store_MarkRunCompleted_def
    Store_MarkRunFailed_def Store_CreateEntry_def db_call_time)

lemma db_call_keeps:
  assumes "\<And>t d. f (fst (g t d)) = f d"
  shows "f (w_db (fst (db_call ctx g w))) = f (w_db w)"
  using db_call_db [of ctx g w] assms by metis

lemma recompute_status_frame:
  "run_status (w_db (fst (Store_RecomputeReport pg ctx rq i w))) = run_status (w_db w)"
proof -
  obtain w' r where c: "Store_RecomputeReport pg ctx rq i w = (w', r)" by fastforce
  from Store_RecomputeReport_atomic [OF c] show ?thesis
    using recompute_tx_keeps c by fastforce
qed

lemma audit_status_frame:
  "run_status (w_db (fst (Store_CreateEntry ctx e w))) = run_status (w_db w)"
  unfolding Store_CreateEntry_def by (rule db_call_keeps) simp

sublocale postgres_server \<subseteq> jobs: job_service "pg_runs pg :: (pgdb, 'r) world RecomputeRunRepository"
    "\<lambda>w. run_status (w_db w)" "pgs_uuid_text pg" "api_recomputeService pg srv maxDays lockTTL n"
  for srv :: "'r redis_server" and maxDays lockTTL n
  by unfold_locales (auto simp: wiring_simps recompute_status_frame audit_status_frame frame_simps)

context postgres_server begin

lemmas trigger_status = jobs.Trigger_status
lemmas worker_status = jobs.processJob_status

end

lemma api_report_calls:
  "GetReportDefinition (rs_repo (api_reportService pg srv D)) = Store_GetReportDefinition pg"
  "RunVolumeReport (rs_repo (api_reportService pg srv D)) = Store_RunVolumeReport pg"
  "RunStatusCountsReport (rs_repo (api_reportService pg srv D)) = Store_RunStatusCountsReport pg"
  "RunTopEntitiesReport (rs_repo (api_reportService pg srv D)) = Store_RunTopEntitiesReport pg"
  by (simp_all add: wiring_simps)

text \<open>The ports of the wired service, and the ways through its \<open>Trigger\<close>.\<close>

lemma api_ports:
  "GetReportDefinition (rcs_reports (api_recomputeService pg srv D ttl n)) = Store_GetReportDefinition pg"
  "CreateRun (rcs_runs (api_recomputeService pg srv D ttl n)) = Store_CreateRun pg"
  "MarkRunFailed (rcs_runs (api_recomputeService pg srv D ttl n)) = Store_MarkRunFailed pg"
  "CreateEntry (rcs_audits (api_recomputeService pg srv D ttl n)) = Store_CreateEntry"
  "TryAcquire (rcs_locks (api_recomputeService pg srv D ttl n)) = RedisStore_TryAcquire srv"
  "Release (rcs_locks (api_recomputeService pg srv D ttl n)) = RedisStore_Release srv"
  "rcs_lockTTL (api_recomputeService pg srv D ttl n) = ttl"
  "rcs_queueSize (api_recomputeService pg srv D ttl n) = n"
  by (simp_all add: wiring_simps)

lemmas api_Trigger_cases = Trigger_cases [of "api_recomputeService pg srv D ttl n" for pg srv D ttl n, unfolded api_ports,
  consumes 1, case_names invalid unknown unlocked uncreated queued full]

end
