(* ===== verification/Report_Properties.thy ===== *)
theory Report_Properties
  imports Report_Facts Wiring Sample_Data
begin

section \<open>Properties of the report queries and the catalog\<close>

text \<open>
  What clients read: the daily volume after a recompute against the raw events, the order,
  the totals and the pages of the reports, and the pages of the catalog.
\<close>

subsection \<open>Shape of a page\<close>

lemma Store_RunVolumeReport_Inr:
  assumes "Store_RunVolumeReport pg ctx p w = (w', Inr rows)" and "\<not> EqualFold (rp_Breakdown p) ''source''"
  shows "rows = map (\<lambda>(n, c). [(''bucket_date'', GStr (FormatDate (midnight n))), (''event_count'', GInt c)])
    (page (rp_Limit p) (rp_Offset p) (sort_by by_day (group_sums bucket_day sn_metric_value
      (selected ''volume-by-period'' ''source'' p (rp_Source p) (w_db w)))))"
proof -
  obtain vs where "grouped_page bucket_day (\<lambda>n. [GTime (midnight n)]) by_day p
      (selected ''volume-by-period'' ''source'' p (rp_Source p) (w_db w)) = Inr vs"
      "rows = collectRows [''bucket_date'', ''event_count''] vs"
    using assms run_query_Inr unfolding Store_RunVolumeReport_def by fastforce
  then show ?thesis
    by (simp add: grouped_page_Inr_iff collectRows_def comp_def case_prod_unfold)
qed

lemma sorted_by_day: "sorted_wrt by_day gs \<longleftrightarrow> sorted (map fst gs)"
  by (induction gs) (auto simp: by_day.simps split: prod.splits)

lemma day_groups_list:
  assumes "set gs = {(n, c n) | n. a \<le> n \<and> n \<le> b \<and> P n}" and "distinct (map fst gs)"
  shows "sort_by by_day gs = map (\<lambda>n. (n, c n)) (filter P [a..b])"
proof -
  let ?s = "sort_by by_day gs"
  have "total_preorder by_day" unfolding total_preorder_def by auto
  then have sorted: "sorted (map fst ?s)" using sorted_sort_by sorted_by_day by blast
  have "mset (map fst ?s) = mset (map fst gs)" by simp
  then have dist: "distinct (map fst ?s)" using assms(2) mset_eq_imp_distinct_iff by blast
  have "set (map fst ?s) = set (filter P [a..b])" using assms(1) by force
  with sorted dist have fsts: "map fst ?s = filter P [a..b]"
    by (intro sorted_distinct_set_unique) (auto simp: sorted_wrt_filter)
  have "x = (fst x, c (fst x))" if "x \<in> set ?s" for x using that assms(1) by auto
  then have "map (\<lambda>x. (fst x, c (fst x))) ?s = ?s" by (intro map_idI) simp
  then have "?s = map (\<lambda>n. (n, c n)) (map fst ?s)" by (simp add: comp_def)
  then show ?thesis unfolding fsts .
qed

text \<open>C17: After a successful daily recompute of the volume report, the report over days of the
  recomputed range lists exactly the days that have raw events, in order, each with the number
  of its events, of one source if one is asked for: the numbers a client reads are the counts
  of the raw data.\<close>

theorem daily_volume_after_recompute:
  assumes "Store_RecomputeReport pg ctx rq runID w = (w1, Inr summary)" and "db_consistent (w_db w)"
    and "rq_ReportSlug rq = ''volume-by-period''" and "rq_Window rq = ''day''" and "covers rq p"
    and "Store_RunVolumeReport pg ctx' p w1 = (w2, Inr rows)"
    and "\<not> EqualFold (rp_Breakdown p) ''source''" and "rp_Offset p = 0"
    and "day_of (rp_DateTo p) - day_of (rp_DateFrom p) < rp_Limit p"
  shows "rows = map (\<lambda>n. [(''bucket_date'', GStr (FormatDate (midnight n))),
        (''event_count'', GInt (int (length (day_events (w_db w2) n (rp_Source p)))))])
      (filter (\<lambda>n. day_events (w_db w2) n (rp_Source p) \<noteq> []) [day_of (rp_DateFrom p)..day_of (rp_DateTo p)])"
proof -
  obtain t where tx: "recompute_tx pg rq runID t (w_db w) = Inr (w_db w1, summary)"
    using Store_RecomputeReport_atomic [OF assms(1)] by auto
  obtain S where w1: "w_db w1 = (w_db w)\<lparr>db_snapshots := S\<rparr>" using recompute_tx_keeps [OF tx] by blast
  have w2: "w_db w2 = w_db w1" by (rule reads_onlyD [OF reads_only_reports(1) assms(6)])
  have ev: "day_events (w_db w2) n v = day_events (w_db w) n v" for n v
    by (simp add: w2 w1 day_events_def event_dimension_def)
  let ?a = "day_of (rp_DateFrom p)" and ?b = "day_of (rp_DateTo p)"
  let ?c = "\<lambda>n. int (length (day_events (w_db w) n (rp_Source p)))"
  let ?P = "\<lambda>n. day_events (w_db w) n (rp_Source p) \<noteq> []"
  have gs: "sort_by by_day (group_sums bucket_day sn_metric_value
      (selected ''volume-by-period'' ''source'' p (rp_Source p) (w_db w1))) = map (\<lambda>n. (n, ?c n)) (filter ?P [?a..?b])"
    by (intro day_groups_list volume_day_groups [OF tx assms(2-5)]) simp
  have "length (filter ?P [?a..?b]) \<le> nat (rp_Limit p)"
    using assms(9) length_filter_le [of ?P "[?a..?b]"] by simp
  moreover have "0 \<le> rp_Limit p \<or> ?b < ?a" using assms(9) by linarith
  ultimately have "page (rp_Limit p) 0 (map (\<lambda>n. (n, ?c n)) (filter ?P [?a..?b])) =
      map (\<lambda>n. (n, ?c n)) (filter ?P [?a..?b])"
    by (auto simp: page_def)
  then show ?thesis
    using Store_RunVolumeReport_Inr [OF assms(6,7)] by (simp add: gs assms(8) ev comp_def)
qed

definition sample_volume_request :: RecomputeRequest where
  "sample_volume_request =
     \<lparr>rq_ReportSlug = ''volume-by-period'', rq_Window = ''day'', rq_DateFrom = midnight 10,
      rq_DateTo = midnight 12, rq_RequestedBy = ''ops'', rq_RequestedVia = ''http''\<rparr>"

definition sample_params :: "string \<Rightarrow> int \<Rightarrow> int \<Rightarrow> ReportRunParams" where
  "sample_params breakdown lim off =
     \<lparr>rp_Window = ''day'', rp_DateFrom = midnight 10, rp_DateTo = midnight 12, rp_Breakdown = breakdown,
      rp_Limit = lim, rp_Offset = off, rp_Source = '''', rp_Status = ''''\<rparr>"

lemma sample_day_events:
  "length (day_events (sample_db\<lparr>db_snapshots := S\<rparr>) 10 '''') = 3"
  "length (day_events (sample_db\<lparr>db_snapshots := S\<rparr>) 11 '''') = 1"
  "length (day_events (sample_db\<lparr>db_snapshots := S\<rparr>) 12 '''') = 0"
  by (simp_all add: day_events_def sample_defs)

text \<open>In the instance three events fall on day 10, one on day 11 and none on day 12.\<close>

theorem daily_volume_after_recompute_witness:
  "\<exists>w1 summary rows.
     Store_RecomputeReport sample_pg None sample_volume_request sample_run_id sample_world = (w1, Inr summary) \<and>
     Store_RunVolumeReport sample_pg None (sample_params '''' 50 0) w1 = (w1, Inr rows) \<and>
     rows = [[(''bucket_date'', GStr (FormatDate (midnight 10))), (''event_count'', GInt 3)],
             [(''bucket_date'', GStr (FormatDate (midnight 11))), (''event_count'', GInt 1)]]"
proof -
  let ?p = "sample_params '''' 50 0"
  have "\<exists>d' summary. recompute_tx sample_pg sample_volume_request sample_run_id (midnight 12) sample_db =
      Inr (d', summary)"
    using sample_consistent
    by (intro recompute_tx_succeeds)
      (auto simp: db_consistent_def sample_volume_request_def sample_defs report_exists_def window_ok_def
        dimension_key_of_def sample_pg_def sample_run_id_def run_exists_def)
  then obtain d' summary where tx: "recompute_tx sample_pg sample_volume_request sample_run_id (midnight 12)
      sample_db = Inr (d', summary)" by blast
  let ?w1 = "sample_world\<lparr>w_db := d'\<rparr>"
  have run: "Store_RecomputeReport sample_pg None sample_volume_request sample_run_id sample_world =
      (?w1, Inr summary)"
    by (simp add: Store_RecomputeReport_undisturbed tx)
  obtain S where d': "d' = sample_db\<lparr>db_snapshots := S\<rparr>" using recompute_tx_keeps [OF tx] by blast
  have cov: "covers sample_volume_request ?p"
    by (simp add: covers_def sample_volume_request_def sample_params_def)
  have breakdown: "\<not> EqualFold (rp_Breakdown ?p) ''source''"
    unfolding sample_params_def ReportRunParams.simps by code_simp
  have bound: "int (length (day_events sample_db n v)) \<le> 4" for n v
  proof -
    have "length (day_events sample_db n v) \<le> length (db_events sample_db)"
      unfolding day_events_def by (rule length_filter_le)
    then show ?thesis by (simp add: sample_db_def)
  qed
  have fits: "min_int64 \<le> int m \<and> int m \<le> max_int64" if "int m \<le> 4" for m
    using that by (simp add: min_int64_def max_int64_def)
  have "list_all (\<lambda>(k, n). min_int64 \<le> n \<and> n \<le> max_int64) (group_sums bucket_day sn_metric_value
      (selected ''volume-by-period'' ''source'' ?p '''' d'))"
  proof -
    note groups = volume_day_groups [OF tx sample_consistent _ _ cov, of "''''"]
    have "\<forall>x \<in> set (group_sums bucket_day sn_metric_value
        (selected ''volume-by-period'' ''source'' ?p '''' d')). case x of (k, n) \<Rightarrow> min_int64 \<le> n \<and> n \<le> max_int64"
      by (subst groups) (auto simp: sample_volume_request_def fits [OF bound])
    then show ?thesis by (simp add: list_all_iff)
  qed
  then obtain vs where "grouped_page bucket_day (\<lambda>n. [GTime (midnight n)]) by_day ?p
      (selected ''volume-by-period'' ''source'' ?p '''' d') = Inr vs"
    by (auto simp: grouped_page_def limit_offset_def sample_params_def)
  then obtain rows where rows: "Store_RunVolumeReport sample_pg None ?p ?w1 = (?w1, Inr rows)"
    using breakdown by (simp add: Store_RunVolumeReport_def run_query_undisturbed sample_params_def)
  have days: "[10..12] = [10, 11, 12 :: int]" by code_simp
  have lens: "length (day_events d' 10 '''') = 3" "length (day_events d' 11 '''') = 1"
      "length (day_events d' 12 '''') = 0"
    unfolding d' by (rule sample_day_events)+
  have nonempty: "day_events d' 10 '''' \<noteq> []" "day_events d' 11 '''' \<noteq> []" "day_events d' 12 '''' = []"
    using lens by (auto simp del: length_0_conv)
  have "rows = [[(''bucket_date'', GStr (FormatDate (midnight 10))), (''event_count'', GInt 3)],
      [(''bucket_date'', GStr (FormatDate (midnight 11))), (''event_count'', GInt 1)]]"
    using daily_volume_after_recompute [OF run _ _ _ cov rows breakdown] sample_consistent
    by (simp add: sample_volume_request_def sample_params_def days nonempty lens)
  with run rows show ?thesis by blast
qed

end
