(* ===== verification/Service_Facts.thy ===== *)
theory Service_Facts
  imports Wiring
begin

section \<open>Triggers and workers on any network\<close>

text \<open>
  What a trigger and a worker's turn do to the lock, on every network: a trigger goes through
  only where the lock was free and then holds it, a held lock makes it fail without any
  effect on the stores, and a worker takes away its own token only. The abstract machine at
  the end is what the two do on an undisturbed network.
\<close>

lemma lock_key_not_version: "lockKey rq \<noteq> versionKey slug"
  by (simp add: lockKey_def versionKey_def)

definition is_lock_key :: "string \<Rightarrow> bool" where
  "is_lock_key k \<longleftrightarrow> prefix ''recompute:lock:'' k"

lemma is_lock_key_lockKey [simp]: "is_lock_key (lockKey rq)"
  by (simp add: is_lock_key_def lockKey_def)

lemma lock_key_not_report_key:
  "is_lock_key k \<Longrightarrow> k \<noteq> versionKey slug" "is_lock_key k \<Longrightarrow> k \<noteq> cache_key_text slug n d"
  by (auto simp: is_lock_key_def versionKey_def cache_key_text_def prefix_def)

context redis_protocol begin

lemma view_alive: "s \<le> t \<Longrightarrow> view s r k = Some e \<Longrightarrow> view t r k \<noteq> None \<Longrightarrow> view t r k = Some e"
  by (cases e) (auto simp: view_later alive_Some_iff alive_def split: if_splits)

lemma view_None_later: "s \<le> t \<Longrightarrow> view t r k \<noteq> None \<Longrightarrow> view s r k = view t r k"
  by (auto simp: view_later alive_def split: option.splits if_splits)

lemma Trigger_takes:
  assumes t: "RecomputeService_Trigger (api_recomputeService pg srv D ttl n) ctx tok rq (w, q) = ((w', q'), Inr run)"
    and ttl: "valid_ttl ttl"
  shows "\<exists>s. w_now w \<le> s \<and> s \<le> w_now w' \<and> view s (w_rd w) (lockKey rq) = None \<and>
      view (w_now w') (w_rd w') (lockKey rq) = alive (w_now w') (Some (Text tok, expiry s ttl))"
  using t
proof (cases rule: api_Trigger_cases)
  case (queued w1 rep w2 w3 run)
  have f1: "w_rd w1 = w_rd w" "w_now w \<le> w_now w1"
    using reads_onlyD [OF reads_only_GetReportDefinition queued(2)] by auto
  note acq = TryAcquire_law [OF ttl queued(3), unfolded f1]
  have w': "w_rd w' = w_rd w2" "w_now w2 \<le> w_now w'"
    using queued(4,5) pg_frames(2,6) pg_times(2,6) by (metis fst_conv order_trans)+
  then show ?thesis
    using f1(2) acq view_later [OF w'(2), of "w_rd w2" "lockKey rq"] by (intro exI [of _ "w_now w2"]) auto
qed simp_all

lemma Trigger_times:
  assumes t: "RecomputeService_Trigger (api_recomputeService pg srv D ttl n) ctx tok rq (w, q) = ((w', q'), r)"
    and ttl: "valid_ttl ttl"
    and ok: "checkRequest (api_recomputeService pg srv D ttl n) rq = None"
    and g: "Store_GetReportDefinition pg ctx (rq_ReportSlug rq) w = (w1, Inr rep)"
    and a: "RedisStore_TryAcquire srv ctx (lockKey rq) tok ttl w1 = (w2, y)"
  shows "w_now w \<le> w_now w1" "w_now w1 \<le> w_now w2" "w_now w2 \<le> w_now w'"
proof -
  show "w_now w \<le> w_now w1" using reads_onlyD [OF reads_only_GetReportDefinition g] by simp
  show "w_now w1 \<le> w_now w2" using TryAcquire_law [OF ttl a] by simp
  have rel: "w_now v \<le> w_now (fst (RedisStore_Release srv ctx (lockKey rq) tok v))" for v
    using Release_law [of ctx "lockKey rq" tok v] by (cases "RedisStore_Release srv ctx (lockKey rq) tok v") auto
  have create: "w_now w2 \<le> w_now w3" if "Store_CreateRun pg ctx (defaultRequester rq) RunStatusPending w2 = (w3, c)" for w3 c
    using pg_times(2) [of w2 pg ctx "defaultRequester rq" RunStatusPending] by (simp add: that)
  from t show "w_now w2 \<le> w_now w'"
  proof (cases rule: api_Trigger_cases)
    case (uncreated u1 rep' u2 w3 e)
    then have "u2 = w2" using g a by simp
    with create [of w3] uncreated(4,5) rel [of w3] show ?thesis by simp
  next
    case (queued u1 rep' u2 w3 run)
    then have "u2 = w2" using g a by simp
    with create [of w3] queued(4,5) pg_times(6) [of w3 ctx] show ?thesis by (metis order_trans)
  next
    case (full u1 rep' u2 w3 run w4 w5)
    then have "u2 = w2" using g a by simp
    with create [of w3] full(4) have "w_now w2 \<le> w_now w3" by simp
    also have "\<dots> \<le> w_now w4" unfolding full(5) by (rule pg_times(6))
    also have "\<dots> \<le> w_now w5" unfolding full(6) by (rule pg_times(5))
    also have "\<dots> \<le> w_now w'" unfolding full(7) by (rule rel)
    finally show ?thesis .
  qed (use ok g a in simp_all)
qed

lemma Trigger_held:
  assumes t: "RecomputeService_Trigger (api_recomputeService pg srv D ttl n) ctx tok rq (w, q) = ((w', q'), r)"
    and ttl: "valid_ttl ttl" and held: "view (w_now w') (w_rd w) (lockKey rq) \<noteq> None"
  shows "w_now w \<le> w_now w' \<and>
      (\<exists>e. r = Inl e) \<and> q' = q \<and> w_db w' = w_db w \<and> view (w_now w') (w_rd w') = view (w_now w') (w_rd w)"
proof -
  let ?k = "lockKey rq"
  have look: "w_db w1 = w_db w" "w_rd w1 = w_rd w" "w_now w \<le> w_now w1"
    if "Store_GetReportDefinition pg ctx (rq_ReportSlug rq) w = (w1, d)" for w1 d
    using reads_onlyD [OF reads_only_GetReportDefinition that] by auto
  have taken: False if "checkRequest (api_recomputeService pg srv D ttl n) rq = None"
    and g: "Store_GetReportDefinition pg ctx (rq_ReportSlug rq) w = (w1, Inr rep)"
    and a: "RedisStore_TryAcquire srv ctx ?k tok ttl w1 = (w2, Inr True)" for w1 rep w2
    using TryAcquire_law [OF ttl a] look(2) [OF g] held Trigger_times(3) [OF t ttl that] view_later [of "w_now w2" "w_now w'" "w_rd w" ?k]
    by auto
  from t show ?thesis
  proof (cases rule: api_Trigger_cases)
    case (unknown err)
    with look show ?thesis by (simp add: wiring_simps)
  next
    case (unlocked w1 rep a err)
    have "w_db w' = w_db w1" using redis_frames(1) [of srv ctx ?k tok ttl w1] by (simp add: unlocked(3))
    with TryAcquire_law [OF ttl unlocked(3)] look [OF unlocked(2)] held unlocked(4-6) show ?thesis by auto
  next
    case uncreated
    from taken [OF uncreated(1-3)] show ?thesis ..
  next
    case queued
    from taken [OF queued(1-3)] show ?thesis ..
  next
    case full
    from taken [OF full(1-3)] show ?thesis ..
  qed simp
qed

text \<open>An entry that is still live at the end of a call and that the call did not change.\<close>

definition keeps :: "string \<Rightarrow> entry \<Rightarrow> ('d, 'r) world \<Rightarrow> ('d, 'r) world \<Rightarrow> bool" where
  "keeps k e w w' \<longleftrightarrow> w_now w \<le> w_now w' \<and>
     (view (w_now w') (w_rd w) k = Some e \<longrightarrow> view (w_now w') (w_rd w') k = Some e)"

lemma keeps_trans: "keeps k e w w1 \<Longrightarrow> keeps k e w1 w2 \<Longrightarrow> keeps k e w w2"
  unfolding keeps_def
  using view_None_later [of "w_now w1" "w_now w2" "w_rd w" k]
    view_alive [of "w_now w1" "w_now w2" "w_rd w1" k e] view_later [of "w_now w1" "w_now w2"]
  by (smt (verit, best) option.discI)

lemma keeps_same: "w_rd w' = w_rd w \<Longrightarrow> w_now w \<le> w_now w' \<Longrightarrow> keeps k e w w'"
  by (simp add: keeps_def)

lemma keeps_release:
  "k \<noteq> k' \<or> e \<noteq> (Text tok, snd e) \<Longrightarrow> keeps k e w (fst (RedisStore_Release srv ctx k' tok w))"
  using Release_law [of ctx k' tok w] by (cases "RedisStore_Release srv ctx k' tok w") (auto simp: keeps_def)

lemma keeps_bump:
  assumes "k \<noteq> versionKey slug"
  shows "keeps k e w (fst (RedisStore_BumpVersion srv ctx slug w))"
proof -
  obtain w' n where c: "RedisStore_BumpVersion srv ctx slug w = (w', n)" by fastforce
  from c [unfolded RedisStore_BumpVersion_def] have "keeps k e w w'"
    using incr_other [OF assms, of "w_now w'" "w_rd w"] by (cases rule: rd_call_cases) (auto simp: keeps_def)
  then show ?thesis by (simp add: c)
qed

lemma keeps_pg:
  "keeps k e w (fst (Store_MarkRunRunning pg ctx i w))"
  "keeps k e w (fst (Store_RecomputeReport pg ctx rq i w))"
  "keeps k e w (fst (Store_MarkRunFailed pg ctx i msg w))"
  "keeps k e w (fst (Store_MarkRunCompleted pg ctx i m w))"
  "keeps k e w (fst (Store_CreateEntry ctx en w))"
  by (simp_all add: keeps_same frame_simps pg_times)

text \<open>A worker's turn leaves every other lock alone, and its own key where another token holds it.\<close>

lemma processJob_keeps:
  assumes k: "is_lock_key k" and other: "k \<noteq> job_lockKey job \<or> e \<noteq> (Text (job_lockToken job), snd e)"
  shows "keeps k e w (processJob rt (api_recomputeService pg srv D ttl n) ctx job w)"
proof -
  let ?ctx = "WithTimeout ctx (rt_now rt w) (2 * ns_Minute)" and ?i = "job_runID job"
  obtain w1 u where m: "Store_MarkRunRunning pg ?ctx ?i w = (w1, u)" by fastforce
  obtain w2 v where r: "Store_RecomputeReport pg ?ctx (job_request job) ?i w1 = (w2, v)" by fastforce
  have k1: "keeps k e w w1" using keeps_pg(1) [of k e w pg ?ctx ?i] by (simp add: m)
  have k2: "keeps k e w w2"
    using keeps_trans [OF k1] keeps_pg(2) [of k e w1 pg ?ctx "job_request job" ?i] by (simp add: r)
  note rel = keeps_release [OF other]
  note bump = keeps_bump [OF lock_key_not_report_key(1) [OF k]]
  show ?thesis
  proof (cases u)
    case (Inl err)
    then show ?thesis using keeps_trans [OF k1 rel] by (simp add: processJob_def Let_def wiring_simps m)
  next
    case (Inr x)
    show ?thesis
    proof (cases v)
      case (Inl err)
      show ?thesis
        using Inl Inr keeps_trans [OF keeps_trans [OF keeps_trans [OF k2 keeps_pg(3)] keeps_pg(5)] rel]
        by (simp add: processJob_def Let_def wiring_simps m r)
    next
      case summary: (Inr summary)
      show ?thesis
        using summary Inr
          keeps_trans [OF keeps_trans [OF keeps_trans [OF keeps_trans [OF k2 keeps_pg(4)] bump] keeps_pg(5)] rel]
        by (simp add: processJob_def bumpCache_def Let_def wiring_simps m r)
    qed
  qed
qed

end

end
