(* ===== verification/Abstract_Service.thy ===== *)
theory Abstract_Service
  imports Service_Facts
begin

section \<open>An abstract machine for triggers and workers\<close>

text \<open>
  The specification of the recompute service as a machine on three components: the state of
  every run, the owner of every lock and the channel. A trigger is refused, rejected for load
  or accepted; a worker finishes the run of the oldest job and gives its lock back. On an
  undisturbed network \<open>RecomputeService_Trigger\<close> and \<open>workerTurn\<close> over the PostgreSQL and Redis
  stores are exactly these steps (\<open>abs_state\<close> is the abstraction).
\<close>

record service_state =
  st_runs :: "string \<Rightarrow> string option"
  st_locks :: "string \<Rightarrow> bytes option"
  st_queue :: "(string \<times> string \<times> string) list"

datatype trigger_outcome = Accepted string | Refused | Overloaded | Rejected

definition spec_trigger :: "nat \<Rightarrow> string \<Rightarrow> string \<Rightarrow> string \<Rightarrow> service_state \<Rightarrow> service_state \<times> trigger_outcome" where
  "spec_trigger capacity key tok i st =
     (if st_locks st key \<noteq> None then (st, Refused)
      else if length (st_queue st) < capacity then
        (st\<lparr>st_runs := (st_runs st)(i \<mapsto> RunStatusPending), st_locks := (st_locks st)(key \<mapsto> Text tok),
            st_queue := st_queue st @ [(i, key, tok)]\<rparr>, Accepted i)
      else (st\<lparr>st_runs := (st_runs st)(i \<mapsto> RunStatusFailed)\<rparr>, Overloaded))"

definition spec_work :: "bool \<Rightarrow> service_state \<Rightarrow> service_state" where
  "spec_work success st =
     (case st_queue st of
        [] \<Rightarrow> st
      | (i, key, tok) # rest \<Rightarrow>
          st\<lparr>st_runs := (st_runs st)(i := map_option
               (\<lambda>_. if success then RunStatusCompleted else RunStatusFailed) (st_runs st i)),
             st_locks := (if st_locks st key = Some (Text tok) then (st_locks st)(key := None) else st_locks st),
             st_queue := rest\<rparr>)"

definition job_entry :: "recomputeJob \<Rightarrow> string \<times> string \<times> string" where
  "job_entry job = (job_runID job, job_lockKey job, job_lockToken job)"

definition abs_locks :: "(string \<Rightarrow> entry option) \<Rightarrow> string \<Rightarrow> bytes option" where
  "abs_locks v k = (if is_lock_key k then map_option fst (v k) else None)"

definition abs_state ::
    "(gotime \<Rightarrow> 'r \<Rightarrow> string \<Rightarrow> entry option) \<Rightarrow> (pgdb, 'r) world \<times> recomputeJob list \<Rightarrow> service_state" where
  "abs_state view wq =
     \<lparr>st_runs = run_status (w_db (fst wq)), st_locks = abs_locks (view (w_now (fst wq)) (w_rd (fst wq))),
      st_queue = map job_entry (snd wq)\<rparr>"

definition outcome_of :: "go_error + RecomputeRun \<Rightarrow> trigger_outcome" where
  "outcome_of r =
     (case r of
        Inr run \<Rightarrow> Accepted (run_ID run)
      | Inl e \<Rightarrow> if IsAppErrorCode e ErrCodeConflict then Refused
               else if IsAppErrorCode e ErrCodeUnavailable then Overloaded else Rejected)"

lemma abs_locks_upd:
  "is_lock_key k \<Longrightarrow> abs_locks (v(k \<mapsto> (b, x))) = (abs_locks v)(k \<mapsto> b)"
  "is_lock_key k \<Longrightarrow> abs_locks (v(k := None)) = (abs_locks v)(k := None)"
  by (auto simp: abs_locks_def fun_eq_iff)

lemma abs_locks_other:
  "(\<And>k. k \<noteq> versionKey slug \<Longrightarrow> v' k = v k) \<Longrightarrow> abs_locks v' = abs_locks v"
  using lock_key_not_report_key(1) by (auto simp: abs_locks_def fun_eq_iff)

subsection \<open>Calls on an undisturbed network\<close>

context redis_protocol begin

lemma TryAcquire_undisturbed:
  assumes "undisturbed ctx w" and "valid_ttl d"
  shows "view (w_now w) (w_rd w) k \<noteq> None \<Longrightarrow>
      \<exists>r'. RedisStore_TryAcquire srv ctx k tok d w = (w\<lparr>w_rd := r'\<rparr>, Inr False) \<and>
        view (w_now w) r' = view (w_now w) (w_rd w)"
    and "view (w_now w) (w_rd w) k = None \<Longrightarrow>
      \<exists>r'. RedisStore_TryAcquire srv ctx k tok d w = (w\<lparr>w_rd := r'\<rparr>, Inr True) \<and>
        view (w_now w) r' = (view (w_now w) (w_rd w))(k \<mapsto> (Text tok, expiry (w_now w) d))"
  using assms setnx_taken [OF assms(2), of "w_now w" "w_rd w" k "Text tok"]
    setnx_free [OF assms(2), of "w_now w" "w_rd w" k "Text tok"]
  by (auto simp: RedisStore_TryAcquire_def rd_call_undisturbed)

lemma Release_undisturbed:
  assumes "undisturbed ctx w"
  shows "\<exists>r'. fst (RedisStore_Release srv ctx k tok w) = w\<lparr>w_rd := r'\<rparr> \<and>
    view (w_now w) r' = (if map_option fst (view (w_now w) (w_rd w) k) = Some (Text tok)
      then (view (w_now w) (w_rd w))(k := None) else view (w_now w) (w_rd w))"
proof (cases "map_option fst (view (w_now w) (w_rd w) k) = Some (Text tok)")
  case True
  then show ?thesis
    using assms del_law [of "w_now w" k "w_rd w"]
    by (auto simp: RedisStore_Release_def rd_call_undisturbed releaseLockScript_def get_law
        split: prod.splits)
next
  case False
  then show ?thesis
    using assms
    by (intro exI [of _ "w_rd w"])
      (auto simp: RedisStore_Release_def rd_call_undisturbed releaseLockScript_def get_law)
qed

lemma Bump_undisturbed:
  assumes "undisturbed ctx w"
  shows "\<exists>r'. fst (RedisStore_BumpVersion srv ctx slug w) = w\<lparr>w_rd := r'\<rparr> \<and>
    (\<forall>k. k \<noteq> versionKey slug \<longrightarrow> view (w_now w) r' k = view (w_now w) (w_rd w) k)"
  using assms incr_other [of _ "versionKey slug" "w_now w" "w_rd w"]
  by (auto simp: RedisStore_BumpVersion_def rd_call_undisturbed split: prod.split)

lemma Bump_locks:
  assumes "undisturbed ctx w"
  shows "\<exists>r'. fst (RedisStore_BumpVersion srv ctx slug w) = w\<lparr>w_rd := r'\<rparr> \<and>
    abs_locks (view (w_now w) r') = abs_locks (view (w_now w) (w_rd w))"
proof -
  obtain r' where r: "fst (RedisStore_BumpVersion srv ctx slug w) = w\<lparr>w_rd := r'\<rparr>"
      "\<And>k. k \<noteq> versionKey slug \<Longrightarrow> view (w_now w) r' k = view (w_now w) (w_rd w) k"
    using Bump_undisturbed [OF assms, of slug] by blast
  have "abs_locks (view (w_now w) r') = abs_locks (view (w_now w) (w_rd w))"
    by (rule abs_locks_other [of slug]) (rule r(2))
  with r(1) show ?thesis by blast
qed

end

lemma CreateRun_undisturbed:
  assumes "undisturbed ctx w" and "report_exists (w_db w) (rq_ReportSlug rq)" and "window_ok (rq_Window rq)"
    and "\<not> run_exists (w_db w) (pgs_uuid pg (db_uuids (w_db w)))"
  shows "\<exists>d run. Store_CreateRun pg ctx rq RunStatusPending w = (w\<lparr>w_db := d\<rparr>, Inr run) \<and>
    run_ID run = pgs_uuid pg (db_uuids (w_db w)) \<and>
    run_status d = (run_status (w_db w))(run_ID run \<mapsto> RunStatusPending)"
proof -
  let ?d0 = "(w_db w)\<lparr>db_uuids := db_uuids (w_db w) + 1\<rparr>"
  let ?r = "new_run pg rq RunStatusPending (w_now w) (w_db w)"
  have fields: "rn_id ?r = pgs_uuid pg (db_uuids (w_db w))" "rn_status ?r = RunStatusPending"
      "rn_report_slug ?r = rq_ReportSlug rq" "rn_window_name ?r = rq_Window rq" "rn_summary ?r = JObj []"
    by (simp_all add: new_run_def)
  have new: "\<not> run_exists ?d0 (rn_id ?r)" using assms(4) by (simp add: fields run_exists_def)
  have st: "status_ok (rn_status ?r)" unfolding fields by (simp add: status_ok_def RunStatusPending_def)
  have ins: "insert_run ?r ?d0 = Inr (?d0\<lparr>db_runs := db_runs ?d0 @ [?r]\<rparr>)"
    using assms(2,3) new st by (simp add: insert_run_def fields report_exists_def)
  have "run_status (?d0\<lparr>db_runs := db_runs ?d0 @ [?r]\<rparr>) = (run_status (w_db w))(rn_id ?r \<mapsto> RunStatusPending)"
    using new unfolding run_status_append fields(2) by simp
  then show ?thesis
    using assms(1) ins
    by (intro exI [of _ "?d0\<lparr>db_runs := db_runs ?d0 @ [?r]\<rparr>"] exI [of _ "run_of_row ?r []"])
      (simp add: Store_CreateRun_def db_call_undisturbed Let_def scan_run_def fields, simp add: run_of_row_def fields)
qed

lemma GetReportDefinition_undisturbed:
  assumes "undisturbed ctx w"
  shows "fst (Store_GetReportDefinition pg ctx slug w) = w"
  using assms by (simp add: Store_GetReportDefinition_def db_call_undisturbed split: sum.split)

lemma CreateEntry_undisturbed:
  assumes "undisturbed ctx w"
  shows "\<exists>d. fst (Store_CreateEntry ctx e w) = w\<lparr>w_db := d\<rparr> \<and> run_status d = run_status (w_db w)"
  using assms by (auto simp: Store_CreateEntry_def db_call_undisturbed intro!: exI)

lemma mark_undisturbed:
  assumes "undisturbed ctx w" and "pgs_uuid_text pg i = Some i" and "\<And>now r. rn_id (f now r) = rn_id r"
    and "\<And>now r. rn_status (f now r) = st"
  shows "\<exists>R. db_call ctx (\<lambda>now. sql_update_run pg i (f now)) w = (w\<lparr>w_db := (w_db w)\<lparr>db_runs := R\<rparr>\<rparr>, Inr ()) \<and>
    map rn_id R = map rn_id (db_runs (w_db w)) \<and>
    run_status ((w_db w)\<lparr>db_runs := R\<rparr>) = (run_status (w_db w))(i := map_option (\<lambda>_. st) (run_status (w_db w) i))"
proof -
  let ?R = "map (\<lambda>r. if rn_id r = i then f (w_now w) r else r) (db_runs (w_db w))"
  have upd: "sql_update_run pg i (f (w_now w)) (w_db w) = ((w_db w)\<lparr>db_runs := ?R\<rparr>, Inr ())"
    using assms(2) by (simp add: sql_update_run_def)
  have "run_status ((w_db w)\<lparr>db_runs := ?R\<rparr>) =
      (run_status (w_db w))(i := map_option (\<lambda>_. st) (run_status (w_db w) i))"
    using update_status [OF upd assms(3,4)] assms(2) by simp
  with assms(1) upd update_ids [OF assms(3)] show ?thesis
    by (intro exI [of _ ?R]) (simp add: db_call_undisturbed del: map_map)
qed

text \<open>The three marks: on an undisturbed network only the run's row changes, to the new state.\<close>

definition marked_db :: "pgdb \<Rightarrow> string \<Rightarrow> string \<Rightarrow> run_row list \<Rightarrow> bool" where
  "marked_db d i st R \<longleftrightarrow> map rn_id R = map rn_id (db_runs d) \<and>
     run_status (d\<lparr>db_runs := R\<rparr>) = (run_status d)(i := map_option (\<lambda>_. st) (run_status d i))"

lemma marks_undisturbed:
  assumes "undisturbed ctx w" and "pgs_uuid_text pg i = Some i"
  shows "\<exists>R. Store_MarkRunRunning pg ctx i w = (w\<lparr>w_db := (w_db w)\<lparr>db_runs := R\<rparr>\<rparr>, Inr ()) \<and>
      marked_db (w_db w) i RunStatusRunning R"
    and "\<exists>R. Store_MarkRunFailed pg ctx i msg w = (w\<lparr>w_db := (w_db w)\<lparr>db_runs := R\<rparr>\<rparr>, Inr ()) \<and>
      marked_db (w_db w) i RunStatusFailed R"
    and "\<exists>R. Store_MarkRunCompleted pg ctx i sm w = (w\<lparr>w_db := (w_db w)\<lparr>db_runs := R\<rparr>\<rparr>, Inr ()) \<and>
      marked_db (w_db w) i RunStatusCompleted R"
  using mark_undisturbed [OF assms, of "\<lambda>now r. r\<lparr>rn_status := ''running'', rn_started_at := Some now\<rparr>" "''running''"]
    mark_undisturbed [OF assms, of "\<lambda>now r. r\<lparr>rn_status := ''failed'', rn_finished_at := Some now,
      rn_error_message := Some msg\<rparr>" "''failed''"]
    mark_undisturbed [OF assms, of "\<lambda>now r. r\<lparr>rn_status := ''completed'', rn_finished_at := Some now,
      rn_error_message := None, rn_summary := summary_json sm\<rparr>" "''completed''"]
  by (simp_all add: marked_db_def Store_MarkRunRunning_def Store_MarkRunFailed_def Store_MarkRunCompleted_def status_defs)

subsection \<open>The trigger\<close>

lemma outcome_simps [simp]:
  "outcome_of (Inr run) = Accepted (run_ID run)"
  "outcome_of (Inl (NewAppError ErrCodeConflict msg)) = Refused"
  "outcome_of (Inl (NewAppError ErrCodeUnavailable msg)) = Overloaded"
  by (simp_all add: outcome_of_def IsAppErrorCode_def code_defs)

context redis_protocol begin

text \<open>The calls of a trigger that finds its lock free, on an undisturbed network.\<close>

lemma Trigger_undisturbed:
  assumes pg: "postgres_server pg" and u: "undisturbed ctx w" and ttl: "valid_ttl ttl"
    and ok: "checkRequest (api_recomputeService pg srv D ttl n) rq = None"
    and fk: "report_exists (w_db w) (rq_ReportSlug rq)"
    and new: "\<not> run_exists (w_db w) (pgs_uuid pg (db_uuids (w_db w)))"
    and free: "view (w_now w) (w_rd w) (lockKey rq) = None"
  obtains r1 d2 run d3 where
    "RedisStore_TryAcquire srv ctx (lockKey rq) tok ttl w = (w\<lparr>w_rd := r1\<rparr>, Inr True)"
    "view (w_now w) r1 = (view (w_now w) (w_rd w))(lockKey rq \<mapsto> (Text tok, expiry (w_now w) ttl))"
    "Store_CreateRun pg ctx (defaultRequester rq) RunStatusPending (w\<lparr>w_rd := r1\<rparr>) =
       (w\<lparr>w_rd := r1, w_db := d2\<rparr>, Inr run)"
    "run_ID run = pgs_uuid pg (db_uuids (w_db w))"
    "fst (Store_CreateEntry ctx (triggeredEntry (defaultRequester rq) (run_ID run)) (w\<lparr>w_rd := r1, w_db := d2\<rparr>)) =
       w\<lparr>w_rd := r1, w_db := d3\<rparr>"
    "run_status d3 = (run_status (w_db w))(run_ID run \<mapsto> RunStatusPending)"
proof -
  let ?k = "lockKey rq" and ?rq = "defaultRequester rq" and ?i = "pgs_uuid pg (db_uuids (w_db w))"
  obtain r1 where a: "RedisStore_TryAcquire srv ctx ?k tok ttl w = (w\<lparr>w_rd := r1\<rparr>, Inr True)"
      and v1: "view (w_now w) r1 = (view (w_now w) (w_rd w))(?k \<mapsto> (Text tok, expiry (w_now w) ttl))"
    using TryAcquire_undisturbed(2) [OF u ttl free] by blast
  have win: "window_ok (rq_Window ?rq)"
    using ok by (auto simp: checkRequest_None_iff window_ok_def window_defs)
  obtain d2 run where c: "Store_CreateRun pg ctx ?rq RunStatusPending (w\<lparr>w_rd := r1\<rparr>) = (w\<lparr>w_rd := r1, w_db := d2\<rparr>, Inr run)"
      and run: "run_ID run = ?i" "run_status d2 = (run_status (w_db w))(?i \<mapsto> RunStatusPending)"
    using CreateRun_undisturbed [of ctx "w\<lparr>w_rd := r1\<rparr>" ?rq pg] u fk new win by auto
  obtain d3 where "fst (Store_CreateEntry ctx (triggeredEntry ?rq ?i) (w\<lparr>w_rd := r1, w_db := d2\<rparr>)) = w\<lparr>w_rd := r1, w_db := d3\<rparr>"
      and "run_status d3 = run_status d2"
    using CreateEntry_undisturbed [of ctx "w\<lparr>w_rd := r1, w_db := d2\<rparr>"] u by auto
  with that [OF a v1 c run(1)] run show ?thesis by simp
qed

lemma Trigger_refines:
  assumes pg: "postgres_server pg" and u: "undisturbed ctx w" and ttl: "valid_ttl ttl"
    and ok: "checkRequest (api_recomputeService pg srv D ttl n) rq = None"
    and rep: "snd (Store_GetReportDefinition pg ctx (rq_ReportSlug rq) w) = Inr rep"
    and fk: "report_exists (w_db w) (rq_ReportSlug rq)"
    and new: "\<not> run_exists (w_db w) (pgs_uuid pg (db_uuids (w_db w)))"
    and t: "RecomputeService_Trigger (api_recomputeService pg srv D ttl n) ctx tok rq (w, q) = (wq', r)"
  shows "(abs_state view wq', outcome_of r) =
    spec_trigger n (lockKey rq) tok (pgs_uuid pg (db_uuids (w_db w))) (abs_state view (w, q))"
proof -
  let ?k = "lockKey rq" and ?rq = "defaultRequester rq" and ?i = "pgs_uuid pg (db_uuids (w_db w))"
  have g: "Store_GetReportDefinition pg ctx (rq_ReportSlug rq) w = (w, Inr rep)"
    using GetReportDefinition_undisturbed [OF u] rep by (metis prod.collapse)
  note T = t [unfolded RecomputeService_Trigger_def Let_def, simplified ok prod.case option.case]
  have taken: "abs_locks (view (w_now w) (w_rd w)) ?k = None \<longleftrightarrow> view (w_now w) (w_rd w) ?k = None"
    by (simp add: abs_locks_def)
  show ?thesis
  proof (cases "view (w_now w) (w_rd w) ?k = None")
    case False
    then obtain r' where "RedisStore_TryAcquire srv ctx ?k tok ttl w = (w\<lparr>w_rd := r'\<rparr>, Inr False)"
        "view (w_now w) r' = view (w_now w) (w_rd w)"
      using TryAcquire_undisturbed(1) [OF u ttl] by blast
    with T g False taken show ?thesis
      by (auto simp: wiring_simps spec_trigger_def abs_state_def)
  next
    case True
    from Trigger_undisturbed [OF pg u ttl ok fk new True, of tok] obtain r1 d2 run d3 where
        calls: "RedisStore_TryAcquire srv ctx ?k tok ttl w = (w\<lparr>w_rd := r1\<rparr>, Inr True)"
          "Store_CreateRun pg ctx ?rq RunStatusPending (w\<lparr>w_rd := r1\<rparr>) = (w\<lparr>w_rd := r1, w_db := d2\<rparr>, Inr run)"
          "fst (Store_CreateEntry ctx (triggeredEntry ?rq (run_ID run)) (w\<lparr>w_rd := r1, w_db := d2\<rparr>)) =
             w\<lparr>w_rd := r1, w_db := d3\<rparr>"
        and v1: "view (w_now w) r1 = (view (w_now w) (w_rd w))(?k \<mapsto> (Text tok, expiry (w_now w) ttl))"
        and run: "run_ID run = ?i" "run_status d3 = (run_status (w_db w))(run_ID run \<mapsto> RunStatusPending)" .
    show ?thesis
    proof (cases "length q < n")
      case space: True
      then have "wq' = (w\<lparr>w_rd := r1, w_db := d3\<rparr>, q @ [\<lparr>job_runID = ?i, job_request = ?rq, job_lockKey = ?k, job_lockToken = tok\<rparr>])"
          "r = Inr run"
        using T g calls run by (auto simp: wiring_simps trySend_def)
      then show ?thesis
        using True taken space run v1
        by (simp add: spec_trigger_def abs_state_def abs_locks_upd job_entry_def)
    next
      case full: False
      have id: "pgs_uuid_text pg ?i = Some ?i" by (rule postgres_server.uuid_text [OF pg])
      obtain R where m: "Store_MarkRunFailed pg ctx ?i ''worker queue is full'' (w\<lparr>w_rd := r1, w_db := d3\<rparr>) =
          (w\<lparr>w_rd := r1, w_db := d3\<lparr>db_runs := R\<rparr>\<rparr>, Inr ())" and R: "marked_db d3 ?i RunStatusFailed R"
        using marks_undisturbed(2) [of ctx "w\<lparr>w_rd := r1, w_db := d3\<rparr>", OF _ id] u by auto
      let ?w4 = "w\<lparr>w_rd := r1, w_db := d3\<lparr>db_runs := R\<rparr>\<rparr>"
      obtain r5 where rel: "fst (RedisStore_Release srv ctx ?k tok ?w4) = ?w4\<lparr>w_rd := r5\<rparr>"
          and v5: "view (w_now w) r5 = (view (w_now w) r1)(?k := None)"
        using Release_undisturbed [of ctx ?w4 ?k tok] u v1 by auto
      have "wq' = (?w4\<lparr>w_rd := r5\<rparr>, q)"
          "r = Inl (NewAppError ErrCodeUnavailable ''recompute queue is full'')"
        using T g calls run m rel full by (auto simp: wiring_simps trySend_def)
      moreover have "view (w_now w) r5 = view (w_now w) (w_rd w)"
        using True by (simp add: v5 v1 fun_upd_idem)
      ultimately show ?thesis
        using True taken full run R
        by (simp add: spec_trigger_def abs_state_def marked_db_def)
    qed
  qed
qed

end

subsection \<open>The worker\<close>

lemma recompute_tx_runs:
  assumes "map rn_id R = map rn_id (db_runs d)"
  shows "recompute_tx pg rq i now (d\<lparr>db_runs := R\<rparr>) =
    (case recompute_tx pg rq i now d of
       Inl e \<Rightarrow> Inl e
     | Inr (d', summary) \<Rightarrow> Inr (d'\<lparr>db_runs := R\<rparr>, summary))"
proof -
  have ok: "snapshot_ok (d\<lparr>db_runs := R\<rparr>) = snapshot_ok d"
    by (rule snapshot_ok_runs) (simp_all add: assms)
  have groups: "aggregated slug dim win f t now' rid (d\<lparr>db_runs := R\<rparr>) = aggregated slug dim win f t now' rid d"
    for slug dim win f t now' rid
    by (simp add: aggregated_def event_groups_def events_between_def)
  show ?thesis
    by (simp add: recompute_tx_def sql_delete_def sql_aggregate_insert_def insert_snapshots_def
        sql_count_buckets_def Let_def ok groups split: option.split)
qed

lemma undisturbed_worker: "undisturbed ctx w \<Longrightarrow> undisturbed (WithTimeout ctx (w_now w) (2 * ns_Minute)) w"
  by (simp add: undisturbed_def WithTimeout_done ns_Minute_def ns_Second_def)

context redis_protocol begin

text \<open>The end of a turn: an audit entry, and the lock given back.\<close>

definition unlocked :: "(string \<Rightarrow> bytes option) \<Rightarrow> recomputeJob \<Rightarrow> string \<Rightarrow> bytes option" where
  "unlocked locks job = (if locks (job_lockKey job) = Some (Text (job_lockToken job))
     then locks(job_lockKey job := None) else locks)"

lemma turn_ends:
  assumes u: "undisturbed ctx v" and lk: "is_lock_key (job_lockKey job)"
  shows "abs_state view (fst (RedisStore_Release srv ctx (job_lockKey job) (job_lockToken job)
      (fst (Store_CreateEntry ctx e v))), q) =
    (abs_state view (v, q))\<lparr>st_locks := unlocked (st_locks (abs_state view (v, q))) job\<rparr>"
proof -
  obtain d where e: "fst (Store_CreateEntry ctx e v) = v\<lparr>w_db := d\<rparr>" and d: "run_status d = run_status (w_db v)"
    using CreateEntry_undisturbed [OF u] by blast
  obtain r where "fst (RedisStore_Release srv ctx (job_lockKey job) (job_lockToken job) (v\<lparr>w_db := d\<rparr>)) =
        v\<lparr>w_db := d\<rparr>\<lparr>w_rd := r\<rparr>"
      and "abs_locks (view (w_now v) r) = unlocked (abs_locks (view (w_now v) (w_rd v))) job"
    using Release_undisturbed [of ctx "v\<lparr>w_db := d\<rparr>" "job_lockKey job" "job_lockToken job"] u lk abs_locks_upd(2) [OF lk]
    by (auto simp: abs_locks_def unlocked_def)
  with e d show ?thesis by (simp add: abs_state_def)
qed

lemma failed_turn:
  assumes u: "undisturbed ctx v" and id: "pgs_uuid_text pg (job_runID job) = Some (job_runID job)"
    and lk: "is_lock_key (job_lockKey job)"
  shows "abs_state view (fst (RedisStore_Release srv ctx (job_lockKey job) (job_lockToken job)
      (fst (Store_CreateEntry ctx e (fst (Store_MarkRunFailed pg ctx (job_runID job) msg v))))), q) =
    (abs_state view (v, q))
      \<lparr>st_runs := (run_status (w_db v))(job_runID job := map_option (\<lambda>_. RunStatusFailed) (run_status (w_db v) (job_runID job))),
       st_locks := unlocked (st_locks (abs_state view (v, q))) job\<rparr>"
proof -
  obtain R where m: "Store_MarkRunFailed pg ctx (job_runID job) msg v = (v\<lparr>w_db := (w_db v)\<lparr>db_runs := R\<rparr>\<rparr>, Inr ())"
      "marked_db (w_db v) (job_runID job) RunStatusFailed R"
    using marks_undisturbed(2) [OF u id] by blast
  with turn_ends [of ctx "v\<lparr>w_db := (w_db v)\<lparr>db_runs := R\<rparr>\<rparr>" job e q] u lk show ?thesis
    by (simp add: abs_state_def marked_db_def)
qed

lemma completed_turn:
  assumes u: "undisturbed ctx v" and id: "pgs_uuid_text pg (job_runID job) = Some (job_runID job)"
    and lk: "is_lock_key (job_lockKey job)"
  shows "abs_state view (fst (RedisStore_Release srv ctx (job_lockKey job) (job_lockToken job)
      (fst (Store_CreateEntry ctx e (fst (RedisStore_BumpVersion srv ctx slug
        (fst (Store_MarkRunCompleted pg ctx (job_runID job) sm v))))))), q) =
    (abs_state view (v, q))
      \<lparr>st_runs := (run_status (w_db v))(job_runID job := map_option (\<lambda>_. RunStatusCompleted) (run_status (w_db v) (job_runID job))),
       st_locks := unlocked (st_locks (abs_state view (v, q))) job\<rparr>"
proof -
  obtain R where m: "Store_MarkRunCompleted pg ctx (job_runID job) sm v = (v\<lparr>w_db := (w_db v)\<lparr>db_runs := R\<rparr>\<rparr>, Inr ())"
      "marked_db (w_db v) (job_runID job) RunStatusCompleted R"
    using marks_undisturbed(3) [OF u id] by blast
  let ?v = "v\<lparr>w_db := (w_db v)\<lparr>db_runs := R\<rparr>\<rparr>"
  obtain r where b: "fst (RedisStore_BumpVersion srv ctx slug ?v) = ?v\<lparr>w_rd := r\<rparr>"
      "abs_locks (view (w_now v) r) = abs_locks (view (w_now v) (w_rd v))"
    using Bump_locks [of ctx ?v slug] u by auto
  with m turn_ends [of ctx "?v\<lparr>w_rd := r\<rparr>" job e q] u lk show ?thesis
    by (simp add: abs_state_def marked_db_def)
qed

lemma workerTurn_refines:
  assumes u: "undisturbed ctx w" and id: "pgs_uuid_text pg (job_runID job) = Some (job_runID job)"
    and lk: "is_lock_key (job_lockKey job)"
  shows "abs_state view (workerTurn (api_runtime sha) (api_recomputeService pg srv D ttl n) ctx (w, job # q)) =
    spec_work (is_ok (recompute_tx pg (job_request job) (job_runID job) (w_now w) (w_db w)))
      (abs_state view (w, job # q))"
proof -
  let ?ctx = "WithTimeout ctx (w_now w) (2 * ns_Minute)" and ?i = "job_runID job" and ?d = "w_db w"
  note u' = undisturbed_worker [OF u]
  obtain R where m: "Store_MarkRunRunning pg ?ctx ?i w = (w\<lparr>w_db := ?d\<lparr>db_runs := R\<rparr>\<rparr>, Inr ())"
      and R: "marked_db ?d ?i RunStatusRunning R"
    using marks_undisturbed(1) [OF u' id] by blast
  let ?w1 = "w\<lparr>w_db := ?d\<lparr>db_runs := R\<rparr>\<rparr>"
  have rec: "Store_RecomputeReport pg ?ctx (job_request job) ?i ?w1 =
      (case recompute_tx pg (job_request job) ?i (w_now w) ?d of
         Inl e \<Rightarrow> (?w1, Inl e)
       | Inr (d', summary) \<Rightarrow> (?w1\<lparr>w_db := d'\<lparr>db_runs := R\<rparr>\<rparr>, Inr summary))"
    using Store_RecomputeReport_undisturbed [of ?ctx ?w1 pg "job_request job" ?i] u' R
    by (simp add: recompute_tx_runs marked_db_def split: sum.split prod.split)
  show ?thesis
  proof (cases "recompute_tx pg (job_request job) ?i (w_now w) ?d")
    case (Inl err)
    with m rec failed_turn [OF _ id lk, of ?ctx ?w1] u' R show ?thesis
      by (simp add: processJob_def Let_def wiring_simps abs_state_def spec_work_def job_entry_def marked_db_def
          unlocked_def option.map_comp comp_def)
  next
    case (Inr x)
    then obtain d' summary where x: "recompute_tx pg (job_request job) ?i (w_now w) ?d = Inr (d', summary)"
      by (cases x) auto
    have "run_status (d'\<lparr>db_runs := R\<rparr>) = run_status (?d\<lparr>db_runs := R\<rparr>)" by (rule run_status_same_runs) simp
    with x m rec completed_turn [OF _ id lk, of ?ctx "?w1\<lparr>w_db := d'\<lparr>db_runs := R\<rparr>\<rparr>"] u' R show ?thesis
      by (simp add: processJob_def bumpCache_def Let_def wiring_simps abs_state_def spec_work_def job_entry_def
          marked_db_def unlocked_def option.map_comp comp_def)
  qed
qed

end

end
