(* ===== verification/Sample_Service.thy ===== *)
theory Sample_Service
  imports Abstract_Service Sample_Data
begin

section \<open>The recompute service on the sample database\<close>

text \<open>
  A service of one place in its channel, and the trigger that it accepts.
\<close>

abbreviation sample_service :: "nat \<Rightarrow> (pgdb, keyspace) world RecomputeService" where
  "sample_service n \<equiv> api_recomputeService sample_pg keyspace_server 366 (15 * ns_Minute) n"

lemma sample_ttl [simp]: "valid_ttl (15 * ns_Minute)" "0 < 15 * ns_Minute"
  by (simp_all add: valid_ttl_def ns_Minute_def ns_Second_def)

lemma sample_check [simp]: "checkRequest (sample_service n) (sample_request ''day'') = None"
  by (simp add: checkRequest_None_iff sample_request_def window_defs wiring_simps range_days_midnight)

lemma sample_new_run:
  "report_exists sample_db ''status-counts''"
  "\<not> run_exists sample_db (pgs_uuid sample_pg (db_uuids sample_db))"
  by (simp_all add: report_exists_def run_exists_def sample_defs sample_pg_def uuid_of_inject
      flip: uuid_values(1))

lemma sample_trigger_at:
  assumes "undisturbed ctx sample_world"
  shows "\<exists>w' q' run. RecomputeService_Trigger (sample_service 1) ctx ''tok'' (sample_request ''day'')
      (sample_world, []) = ((w', q'), Inr run) \<and>
    st_queue (abs_state ks_view (w', q')) = [(uuid_of 1, lockKey (sample_request ''day''), ''tok'')]"
proof -
  let ?rq = "sample_request ''day''"
  obtain w' q' r where t: "RecomputeService_Trigger (sample_service 1) ctx ''tok'' ?rq (sample_world, []) = ((w', q'), r)"
    by (metis prod.exhaust)
  obtain rep where "snd (Store_GetReportDefinition sample_pg ctx (rq_ReportSlug ?rq) sample_world) = Inr rep"
    using sample_lookup [OF assms] by (auto simp: sample_request_def)
  from ks.Trigger_refines [OF sample.postgres_server_axioms assms sample_ttl(1) sample_check this
      _ _ t] sample_new_run
  have "outcome_of r = Accepted (uuid_of 1)"
      "st_queue (abs_state ks_view (w', q')) = [(uuid_of 1, lockKey ?rq, ''tok'')]"
    by (simp_all add: sample_request_def spec_trigger_def abs_state_def abs_locks_def ks_view_def sample_pg_def
        sample_db_def)
  with t show ?thesis by (cases r) (auto simp: outcome_of_def split: if_splits)
qed

lemma sample_trigger:
  "\<exists>w' q' run. RecomputeService_Trigger (sample_service 1) None ''tok'' (sample_request ''day'')
      (sample_world, []) = ((w', q'), Inr run)"
  using sample_trigger_at [OF sample_undisturbed] by blast
end
