(* ===== verification/Service_Properties.thy ===== *)
theory Service_Properties
  imports Sample_Service
begin

section \<open>Properties of the recompute service\<close>

text \<open>
  The trigger and the workers over the two stores: the refinement of the abstract machine on
  an undisturbed network, and on every network what a trigger adds, whose state a worker
  changes, and who holds the lock of a scope.
\<close>

text \<open>C4: On an undisturbed network a trigger of a valid request for a report of the catalog is one
  step of the abstract machine: refused without any effect while the scope's lock is held,
  accepted with a pending run, the lock taken under the caller's token and a job at the end of
  the channel where there is room, and otherwise a failed run, the lock given back and an
  unavailable error.\<close>

theorem trigger_refines_machine:
  assumes "postgres_server pg" and "redis_protocol srv view" and "undisturbed ctx w" and "valid_ttl ttl"
    and "checkRequest (api_recomputeService pg srv D ttl n) rq = None"
    and "snd (Store_GetReportDefinition pg ctx (rq_ReportSlug rq) w) = Inr rep"
    and "report_exists (w_db w) (rq_ReportSlug rq)"
    and "\<not> run_exists (w_db w) (pgs_uuid pg (db_uuids (w_db w)))"
    and "RecomputeService_Trigger (api_recomputeService pg srv D ttl n) ctx tok rq (w, q) = (wq', r)"
  shows "(abs_state view wq', outcome_of r) =
    spec_trigger n (lockKey rq) tok (pgs_uuid pg (db_uuids (w_db w))) (abs_state view (w, q))"
  by (rule redis_protocol.Trigger_refines [OF assms(2,1,3-9)])

theorem trigger_refines_machine_witness:
  "\<exists>wq' r. RecomputeService_Trigger (sample_service 1) None ''tok'' (sample_request ''day'') (sample_world, []) =
      (wq', r) \<and>
    outcome_of r = Accepted (uuid_of 1) \<and>
    st_queue (abs_state ks_view wq') = [(uuid_of 1, lockKey (sample_request ''day''), ''tok'')]"
proof -
  let ?rq = "sample_request ''day''"
  obtain wq' r where t: "RecomputeService_Trigger (sample_service 1) None ''tok'' ?rq (sample_world, []) = (wq', r)"
    by fastforce
  obtain rep where rep: "snd (Store_GetReportDefinition sample_pg None (rq_ReportSlug ?rq) sample_world) = Inr rep"
    using sample_lookup [OF sample_undisturbed] by (auto simp: sample_request_def)
  show ?thesis
    using t trigger_refines_machine [OF sample.postgres_server_axioms ks.redis_protocol_axioms
        sample_undisturbed sample_ttl(1) sample_check rep _ _ t] sample_new_run
    by (simp add: sample_request_def spec_trigger_def abs_state_def abs_locks_def ks_view_def sample_pg_def
        sample_db_def)
qed

text \<open>C5: On an undisturbed network a worker's turn is one step of the abstract machine: the oldest
  job leaves the channel, its run is completed if the rebuild transaction goes through and
  failed otherwise, and the lock of the scope is given back if it is still held under the
  job's token; nothing else changes.\<close>

theorem worker_refines_machine:
  assumes "redis_protocol srv view" and "undisturbed ctx w"
    and "pgs_uuid_text pg (job_runID job) = Some (job_runID job)" and "is_lock_key (job_lockKey job)"
  shows "abs_state view (workerTurn (api_runtime sha) (api_recomputeService pg srv D ttl n) ctx (w, job # q)) =
    spec_work (is_ok (recompute_tx pg (job_request job) (job_runID job) (w_now w) (w_db w)))
      (abs_state view (w, job # q))"
  by (rule redis_protocol.workerTurn_refines [OF assms])

definition sample_job :: recomputeJob where
  "sample_job = \<lparr>job_runID = sample_run_id, job_request = sample_request ''day'',
     job_lockKey = lockKey (sample_request ''day''), job_lockToken = ''tok''\<rparr>"

theorem worker_refines_machine_witness:
  "st_runs (abs_state ks_view (workerTurn (api_runtime id) (sample_service 1) None (sample_world, [sample_job])))
     sample_run_id = Some RunStatusCompleted"
proof -
  have "\<exists>d' summary. recompute_tx sample_pg (sample_request ''day'') sample_run_id (midnight 12) sample_db =
      Inr (d', summary)"
    using sample_consistent
    by (intro recompute_tx_succeeds)
      (auto simp: db_consistent_def sample_request_def sample_defs report_exists_def window_ok_def
        dimension_key_of_def sample_pg_def sample_run_id_def run_exists_def)
  then show ?thesis
    using worker_refines_machine [OF ks.redis_protocol_axioms sample_undisturbed, of sample_pg sample_job]
    by (auto simp: sample_job_def sample_pg_def sample_run_id_def spec_work_def abs_state_def job_entry_def
        run_status_def run_row_of_def sample_defs)
qed

text \<open>C25: On every network, whatever fails, a trigger that returns a run has added exactly that run,
  pending, and appended its job, with the request's scope and the token, to a channel that had
  room; a trigger that returns an error has appended nothing, has changed the state of no
  run that existed, and has added at most one run, left pending or marked failed.\<close>

theorem trigger_adds_one_run:
  assumes "postgres_server pg"
    and "RecomputeService_Trigger (api_recomputeService pg srv D ttl n) ctx tok rq (w, q) = ((w', q'), r)"
  shows "case r of
      Inr run \<Rightarrow> run_status (w_db w) (run_ID run) = None \<and>
        run_status (w_db w') = (run_status (w_db w))(run_ID run \<mapsto> RunStatusPending) \<and> length q < n \<and>
        q' = q @ [\<lparr>job_runID = run_ID run, job_request = defaultRequester rq, job_lockKey = lockKey rq,
                   job_lockToken = tok\<rparr>]
    | Inl e \<Rightarrow> q' = q \<and>
        (run_status (w_db w') = run_status (w_db w) \<or>
         (\<exists>i st. run_status (w_db w) i = None \<and> (st = RunStatusPending \<or> st = RunStatusFailed) \<and>
            run_status (w_db w') = (run_status (w_db w))(i \<mapsto> st)))"
proof -
  have "rcs_queueSize (api_recomputeService pg srv D ttl n) = n" by (simp add: wiring_simps)
  with postgres_server.trigger_status [OF assms] show ?thesis
    by (cases r) (auto simp: fun_upd_def)
qed

theorem trigger_adds_one_run_witness:
  "\<exists>w' q' run. RecomputeService_Trigger (sample_service 1) None ''tok'' (sample_request ''day'')
      (sample_world, []) = ((w', q'), Inr run) \<and>
    length q' = 1 \<and> run_status (w_db w') (run_ID run) = Some RunStatusPending"
proof -
  obtain w' q' run where t: "RecomputeService_Trigger (sample_service 1) None ''tok'' (sample_request ''day'')
      (sample_world, []) = ((w', q'), Inr run)"
    using sample_trigger by blast
  with trigger_adds_one_run [OF sample.postgres_server_axioms t] show ?thesis by auto
qed

text \<open>A worker's turn changes the state of its own job's run only, and only to running,
  completed or failed, on every network: no other run, and no run that does not exist.\<close>

theorem worker_touches_own_run:
  assumes "postgres_server pg"
    and "w' = processJob rt (api_recomputeService pg srv D ttl n) ctx job w"
  shows "(pgs_uuid_text pg (job_runID job) \<noteq> Some i \<longrightarrow> run_status (w_db w') i = run_status (w_db w) i) \<and>
    (run_status (w_db w') i = None \<longleftrightarrow> run_status (w_db w) i = None) \<and>
    (run_status (w_db w') i = run_status (w_db w) i \<or>
     run_status (w_db w') i \<in> {Some RunStatusRunning, Some RunStatusCompleted, Some RunStatusFailed})"
proof -
  have m: "marked (run_status (w_db w)) (pgs_uuid_text pg (job_runID job))
      {RunStatusRunning, RunStatusCompleted, RunStatusFailed} (run_status (w_db w'))"
    using postgres_server.worker_status [OF assms(1)] unfolding assms(2) .
  show ?thesis
  proof (cases "run_status (w_db w) i")
    case None
    then show ?thesis using marked_None [OF m, of i] by simp
  next
    case (Some st)
    then show ?thesis
      using marked_other [OF m, of i] marked_own [OF m Some] marked_None [OF m, of i] by auto
  qed
qed

theorem worker_touches_own_run_witness:
  "run_status (w_db (processJob (api_runtime id) (sample_service 1) None sample_job sample_world)) (uuid_of 7) = None"
proof -
  have "run_status (w_db sample_world) (uuid_of 7) = None"
    by (simp add: run_status_None run_exists_def sample_defs uuid_of_inject flip: uuid_values(1))
  with worker_touches_own_run [OF sample.postgres_server_axioms, where i = "uuid_of 7", OF refl]
  show ?thesis by metis
qed

text \<open>C6: On every network a trigger returns a run only if the lock of its scope was free at some
  instant of the call, and from then on the lock is held under the caller's token until the
  lease ends.\<close>

theorem trigger_takes_free_lock:
  assumes "redis_protocol srv view" and "valid_ttl ttl"
    and "RecomputeService_Trigger (api_recomputeService pg srv D ttl n) ctx tok rq (w, q) = ((w', q'), Inr run)"
  shows "\<exists>s. w_now w \<le> s \<and> s \<le> w_now w' \<and> view s (w_rd w) (lockKey rq) = None \<and>
    view (w_now w') (w_rd w') (lockKey rq) = alive (w_now w') (Some (Text tok, expiry s ttl))"
  using redis_protocol.Trigger_takes [OF assms(1,3,2)] .

theorem trigger_takes_free_lock_witness:
  "\<exists>w' q' run s. RecomputeService_Trigger (sample_service 1) None ''tok'' (sample_request ''day'')
      (sample_world, []) = ((w', q'), Inr run) \<and> midnight 12 \<le> s \<and>
    ks_view (w_now w') (w_rd w') (lockKey (sample_request ''day'')) =
      alive (w_now w') (Some (Text ''tok'', expiry s (15 * ns_Minute)))"
proof -
  obtain w' q' run where t: "RecomputeService_Trigger (sample_service 1) None ''tok'' (sample_request ''day'')
      (sample_world, []) = ((w', q'), Inr run)"
    using sample_trigger by blast
  from trigger_takes_free_lock [OF ks.redis_protocol_axioms sample_ttl(1) t] t show ?thesis by auto
qed

text \<open>C26: While the lock of a scope is held, by a lease that is still live when the call returns, a
  trigger of the scope fails on every network, and neither the database, nor any entry of
  Redis, nor the channel has changed.\<close>

theorem held_lock_refuses:
  assumes "redis_protocol srv view" and "valid_ttl ttl"
    and "RecomputeService_Trigger (api_recomputeService pg srv D ttl n) ctx tok rq (w, q) = ((w', q'), r)"
    and "view (w_now w') (w_rd w) (lockKey rq) \<noteq> None"
  shows "(\<exists>e. r = Inl e) \<and> q' = q \<and> w_db w' = w_db w \<and> view (w_now w') (w_rd w') = view (w_now w') (w_rd w)"
  using redis_protocol.Trigger_held [OF assms(1,3,2,4)] by blast

definition sample_locked :: "(pgdb, keyspace) world" where
  "sample_locked = sample_world\<lparr>w_rd := Map.empty(lockKey (sample_request ''day'') \<mapsto> (Text ''other'', None))\<rparr>"

theorem held_lock_refuses_witness:
  "\<exists>w' e. RecomputeService_Trigger (sample_service 1) None ''tok'' (sample_request ''day'') (sample_locked, []) =
      ((w', []), Inl e) \<and> w_db w' = sample_db"
proof -
  obtain w' q' r where t: "RecomputeService_Trigger (sample_service 1) None ''tok'' (sample_request ''day'')
      (sample_locked, []) = ((w', q'), r)"
    by (metis prod.exhaust)
  have "ks_view (w_now w') (w_rd sample_locked) (lockKey (sample_request ''day'')) \<noteq> None"
    by (simp add: sample_locked_def ks_view_def alive_def)
  from held_lock_refuses [OF ks.redis_protocol_axioms sample_ttl(1) t] this t show ?thesis
    by (auto simp: sample_locked_def)
qed

text \<open>C28: A worker's turn never takes away a lock that is not its own: an entry of another scope, or
  of the same scope under another token because the job's lease ran out and another trigger
  took the lock, is there after the turn if it is still live, on every network.\<close>

theorem worker_keeps_other_locks:
  assumes "redis_protocol srv view" and "is_lock_key k"
    and "k \<noteq> job_lockKey job \<or> b \<noteq> Text (job_lockToken job)"
    and "w' = processJob rt (api_recomputeService pg srv D ttl n) ctx job w"
    and "view (w_now w') (w_rd w) k = Some (b, x)"
  shows "view (w_now w') (w_rd w') k = Some (b, x)"
proof -
  have "k \<noteq> job_lockKey job \<or> (b, x) \<noteq> (Text (job_lockToken job), snd (b, x))" using assms(3) by simp
  from redis_protocol.processJob_keeps [OF assms(1,2) this] assms(4,5)
  show ?thesis by (simp add: redis_protocol.keeps_def [OF assms(1)])
qed

theorem worker_keeps_other_locks_witness:
  "\<exists>w'. w' = processJob (api_runtime id) (sample_service 1) None sample_job sample_locked \<and>
    ks_view (w_now w') (w_rd w') (lockKey (sample_request ''day'')) = Some (Text ''other'', None)"
proof -
  let ?w' = "processJob (api_runtime id) (sample_service 1) None sample_job sample_locked"
  have "ks_view (w_now ?w') (w_rd sample_locked) (lockKey (sample_request ''day'')) = Some (Text ''other'', None)"
    by (simp add: sample_locked_def ks_view_def alive_def)
  from worker_keeps_other_locks [OF ks.redis_protocol_axioms is_lock_key_lockKey, OF _ refl this]
  show ?thesis by (simp add: sample_job_def)
qed

text \<open>C27: The Redis lock excludes other acquisitions: after a successful one with a positive lease, any
  sequence of calls of \<open>TryAcquire\<close> and \<open>Release\<close> on any keys by any clients, with any delays
  and failures, with leases of whole milliseconds and without the release by the owner, that
  ends before the lease does, leaves the lock ungranted to a further acquisition.\<close>

theorem lock_excludes_while_leased:
  assumes "redis_protocol srv view"
    and "TryAcquire (redis_locks srv) ctx k tok d w = (w1, Inr True)" and "valid_ttl d" and "0 < d"
    and "list_all op_ttl_ok ops" and "list_all (not_release_of k tok) ops"
    and "TryAcquire (redis_locks srv) ctx' k tok' d' (lock_steps (redis_locks srv) ops w1) = (w2, r)"
    and "valid_ttl d'" and "w_now w2 < w_now w1 + d"
  shows "r \<noteq> Inr True"
  by (rule redis_protocol.lock_exclusive [OF assms])

theorem lock_excludes_while_leased_witness:
  "\<exists>w1 w2 r. TryAcquire (redis_locks keyspace_server) None ''k'' ''a'' ns_Minute sample_world = (w1, Inr True) \<and>
     TryAcquire (redis_locks keyspace_server) None ''k'' ''b'' ns_Minute
       (lock_steps (redis_locks keyspace_server) [ReleaseOp None ''k'' ''b'', AcquireOp None ''k'' ''c'' ns_Minute] w1) =
       (w2, r) \<and> r \<noteq> Inr True"
proof -
  let ?L = "redis_locks keyspace_server :: (pgdb, keyspace) world RecomputeLock"
  let ?ops = "[ReleaseOp None ''k'' ''b'', AcquireOp None ''k'' ''c'' ns_Minute]"
  let ?r = "Map.empty(''k'' \<mapsto> (Text ''a'', expiry (midnight 12) ns_Minute)) :: keyspace"
  let ?w = "sample_world\<lparr>w_rd := ?r\<rparr>"
  have pos: "0 < ns_Minute" "valid_ttl ns_Minute" by (simp_all add: valid_ttl_def ns_Minute_def ns_Second_def)
  have v: "ks_view (midnight 12) ?r ''k'' = Some (Text ''a'', expiry (midnight 12) ns_Minute)"
    using pos by (simp add: ks_view_def alive_def expiry_def)
  have w1: "TryAcquire ?L None ''k'' ''a'' ns_Minute sample_world = (?w, Inr True)"
    using pos by (simp add: redis_locks_def RedisStore_TryAcquire_def rd_call_undisturbed keyspace_server_def
        ks_view_def)
  have again: "TryAcquire ?L None ''k'' t ns_Minute ?w = (?w, Inr False)" for t
    using pos v by (simp add: redis_locks_def RedisStore_TryAcquire_def rd_call_undisturbed keyspace_server_def)
  have rel: "fst (Release ?L None ''k'' ''b'' ?w) = ?w"
    using v by (simp add: redis_locks_def RedisStore_Release_def rd_call_undisturbed keyspace_server_def
        releaseLockScript_def)
  have steps: "lock_steps ?L ?ops ?w = ?w" by (simp add: lock_steps_def rel again)
  have "w_now ?w < w_now ?w + ns_Minute" using pos by simp
  from lock_excludes_while_leased [OF ks.redis_protocol_axioms w1 pos(2,1), of ?ops None "''b''" ns_Minute ?w]
    again [of "''b''"] steps this pos w1
  show ?thesis by (intro exI [of _ ?w] exI [of _ "Inr False"]) simp
qed

end
