(* ===== verification/Http_Response.thy ===== *)
theory Http_Response
  imports Recompute_Service Audit_Health
begin

section \<open>Requests and responses of the HTTP API\<close>

text \<open>
  \<open>internal/http/response.go\<close> and the \<open>json\<close> tags of \<open>internal/domain/models.go\<close>: the response
  of a handler is its status, its content type and its body, a JSON document as a tree. The
  entries of an object keep the order of the struct's fields. \<open>encoding/json\<close> refuses a time
  whose year has not four digits; the encoder's error is dropped by the source, which leaves
  the body empty.
\<close>

record http_request =
  hr_Method :: string
  hr_Path :: string
  hr_Query :: "(string \<times> string) list"
  hr_Header :: "(string \<times> string) list"
  hr_Body :: "json option"
  hr_Ctx :: ctx

record http_response =
  resp_Status :: int
  resp_ContentType :: string
  resp_Body :: "json option"

text \<open>
  \<open>r.URL.Query().Get\<close> and \<open>r.Header.Get\<close>: the first value of the name, or the empty text.
  Header names are in canonical form, as the server of \<open>net/http\<close> leaves them.
\<close>

definition first_value :: "(string \<times> string) list \<Rightarrow> string \<Rightarrow> string" where
  "first_value kvs k = (case map_of kvs k of None \<Rightarrow> '''' | Some v \<Rightarrow> v)"

definition Query_Get :: "http_request \<Rightarrow> string \<Rightarrow> string" where
  "Query_Get r k = first_value (hr_Query r) k"

definition Header_Get :: "http_request \<Rightarrow> string \<Rightarrow> string" where
  "Header_Get r k = first_value (hr_Header r) k"

subsection \<open>Status codes\<close>

definition StatusOK :: int where "StatusOK = 200"
definition StatusAccepted :: int where "StatusAccepted = 202"
definition StatusBadRequest :: int where "StatusBadRequest = 400"
definition StatusUnauthorized :: int where "StatusUnauthorized = 401"
definition StatusNotFound :: int where "StatusNotFound = 404"
definition StatusMethodNotAllowed :: int where "StatusMethodNotAllowed = 405"
definition StatusConflict :: int where "StatusConflict = 409"
definition StatusInternalServerError :: int where "StatusInternalServerError = 500"
definition StatusServiceUnavailable :: int where "StatusServiceUnavailable = 503"

lemmas http_status_defs = StatusOK_def StatusAccepted_def StatusBadRequest_def StatusUnauthorized_def
  StatusNotFound_def StatusMethodNotAllowed_def StatusConflict_def StatusInternalServerError_def
  StatusServiceUnavailable_def

subsection \<open>Encoding\<close>

definition time_encodable :: "gotime \<Rightarrow> bool" where
  "time_encodable t \<longleftrightarrow> (let y = fst (date_of_day (day_of t)) in 0 \<le> y \<and> y \<le> 9999)"

fun json_encodable :: "json \<Rightarrow> bool" where
  "json_encodable (JTime t) \<longleftrightarrow> time_encodable t"
| "json_encodable (JArr xs) \<longleftrightarrow> list_all json_encodable xs"
| "json_encodable (JObj kvs) \<longleftrightarrow> list_all (\<lambda>(k, v). json_encodable v) kvs"
| "json_encodable _ \<longleftrightarrow> True"

definition str_map_json :: "(string \<times> string) list \<Rightarrow> json" where
  "str_map_json kvs = JObj (map (\<lambda>(k, v). (k, JStr v)) kvs)"

definition definition_json :: "ReportDefinition \<Rightarrow> json" where
  "definition_json d = JObj
     [(''slug'', JStr (rd_Slug d)),
      (''name'', JStr (rd_Name d)),
      (''description'', JStr (rd_Description d)),
      (''cache_ttl_seconds'', JNum (rd_CacheTTLSeconds d)),
      (''default_window'', JStr (rd_DefaultWindow d)),
      (''allowed_windows'', JArr (map JStr (rd_AllowedWindows d))),
      (''supported_filters'', str_map_json (rd_SupportedFilters d))]"

text \<open>A field with \<open>omitempty\<close> is left out when it is the zero value.\<close>

definition run_json :: "RecomputeRun \<Rightarrow> json" where
  "run_json run = JObj
     ([(''id'', JStr (run_ID run)),
       (''report_slug'', JStr (run_ReportSlug run)),
       (''window'', JStr (run_Window run)),
       (''date_from'', JStr (run_DateFrom run)),
       (''date_to'', JStr (run_DateTo run)),
       (''requested_by'', JStr (run_RequestedBy run)),
       (''status'', JStr (run_Status run)),
       (''requested_at'', JTime (run_RequestedAt run))]
      @ (case run_StartedAt run of None \<Rightarrow> [] | Some t \<Rightarrow> [(''started_at'', JTime t)])
      @ (case run_FinishedAt run of None \<Rightarrow> [] | Some t \<Rightarrow> [(''finished_at'', JTime t)])
      @ (if run_ErrorMessage run = '''' then []
         else [(''error_message'', JStr (run_ErrorMessage run))])
      @ [(''summary'', json_of_goval (GMap (run_Summary run)))])"

definition entry_json :: "AuditEntry \<Rightarrow> json" where
  "entry_json e = JObj
     ([(''id'', JNum (au_ID e)),
       (''actor'', JStr (au_Actor e)),
       (''action'', JStr (au_Action e)),
       (''resource_type'', JStr (au_ResourceType e))]
      @ (if au_ResourceID e = '''' then [] else [(''resource_id'', JStr (au_ResourceID e))])
      @ [(''metadata'', json_of_goval (GMap (au_Metadata e))),
         (''created_at'', JTime (au_CreatedAt e))])"

definition pagination_json :: "Pagination \<Rightarrow> json" where
  "pagination_json p = JObj
     [(''limit'', JNum (pg_Limit p)), (''offset'', JNum (pg_Offset p)), (''total'', JNum (pg_Total p))]"

definition health_json :: "HealthStatus \<Rightarrow> json" where
  "health_json h = JObj
     [(''status'', JStr (hs_Status h)),
      (''service'', JStr (hs_Service h)),
      (''version'', JStr (hs_Version h)),
      (''timestamp'', JTime (hs_Timestamp h)),
      (''dependencies'', str_map_json (hs_Dependencies h))]"

subsection \<open>Writing a response\<close>

text \<open>\<open>ResponseEnvelope\<close> and \<open>ErrorPayload\<close>; every field but code and message is \<open>omitempty\<close>.\<close>

definition opt_field :: "string \<Rightarrow> json option \<Rightarrow> (string \<times> json) list" where
  "opt_field k v = (case v of None \<Rightarrow> [] | Some j \<Rightarrow> [(k, j)])"

definition ErrorPayload :: "string \<Rightarrow> string \<Rightarrow> json option \<Rightarrow> json" where
  "ErrorPayload code message details =
     JObj ([(''code'', JStr code), (''message'', JStr message)] @ opt_field ''details'' details)"

definition ResponseEnvelope :: "json option \<Rightarrow> json option \<Rightarrow> json option \<Rightarrow> json" where
  "ResponseEnvelope data meta err =
     JObj (opt_field ''data'' data @ opt_field ''meta'' meta @ opt_field ''error'' err)"

definition encode_body :: "json \<Rightarrow> json option" where
  "encode_body j = (if json_encodable j then Some j else None)"

definition writeJSON :: "int \<Rightarrow> json \<Rightarrow> json option \<Rightarrow> http_response" where
  "writeJSON status data meta =
     \<lparr>resp_Status = status, resp_ContentType = ''application/json'',
      resp_Body = encode_body (ResponseEnvelope (Some data) meta None)\<rparr>"

definition writeError :: "int \<Rightarrow> string \<Rightarrow> string \<Rightarrow> json option \<Rightarrow> http_response" where
  "writeError status code message details =
     \<lparr>resp_Status = status, resp_ContentType = ''application/json'',
      resp_Body = encode_body (ResponseEnvelope None None (Some (ErrorPayload code message details)))\<rparr>"

text \<open>What a client reads from a body: the data, and the code and message of an error.\<close>

definition body_data :: "http_response \<Rightarrow> json option" where
  "body_data resp = (case resp_Body resp of None \<Rightarrow> None | Some j \<Rightarrow> obj_field ''data'' j)"

definition body_error :: "http_response \<Rightarrow> (string \<times> string) option" where
  "body_error resp =
     (case resp_Body resp of
        None \<Rightarrow> None
      | Some j \<Rightarrow>
          (case obj_field ''error'' j of
             None \<Rightarrow> None
           | Some e \<Rightarrow>
               (case (obj_field ''code'' e, obj_field ''message'' e) of
                  (Some (JStr c), Some (JStr m)) \<Rightarrow> Some (c, m)
                | _ \<Rightarrow> None)))"

lemma writeError_simps [simp]:
  "resp_Status (writeError st code msg None) = st"
  "body_error (writeError st code msg None) = Some (code, msg)"
  "body_data (writeError st code msg None) = None"
  by (simp_all add: writeError_def encode_body_def ResponseEnvelope_def ErrorPayload_def opt_field_def
      body_error_def body_data_def obj_field_def)

lemma writeJSON_simps [simp]:
  "resp_Status (writeJSON st data meta) = st"
  "body_error (writeJSON st data meta) = None"
  by (simp_all add: writeJSON_def encode_body_def ResponseEnvelope_def opt_field_def body_error_def
      obj_field_def split: option.split)

lemma body_data_writeJSON:
  "json_encodable data \<Longrightarrow> (\<And>j. meta = Some j \<Longrightarrow> json_encodable j) \<Longrightarrow>
     body_data (writeJSON st data meta) = Some data"
  by (auto simp: writeJSON_def encode_body_def ResponseEnvelope_def opt_field_def body_data_def
      obj_field_def split: option.split)

end
