(* ===== verification/Http_Api.thy ===== *)
theory Http_Api
  imports Http_Response
begin

section \<open>The HTTP API\<close>

text \<open>
  \<open>internal/http/middleware.go\<close> and \<open>internal/http/handlers.go\<close>. A handler takes the request's
  context, the URL parameters and the request, and moves the state: the stores' world with
  the channel of recompute jobs next to it. The router is go-chi: given the registered
  methods and patterns it picks a route for a request, which is a parameter. Of chi's
  middlewares, \<open>Timeout\<close> bounds the context by 30 seconds (its own 504 is never sent: every
  handler has written its status by then); \<open>RequestID\<close>, \<open>RealIP\<close> and \<open>Recoverer\<close> change
  nothing that the handlers read.
\<close>

type_synonym 'w service_world = "'w \<times> recomputeJob list"

type_synonym 'w handler =
  "ctx \<Rightarrow> (string \<times> string) list \<Rightarrow> http_request \<Rightarrow> 'w service_world \<Rightarrow> 'w service_world \<times> http_response"

record 'w Handler =
  h_reports :: "'w ReportService"
  h_recompute :: "'w RecomputeService"
  h_audit :: "'w AuditService"
  h_health :: "'w HealthService"
  h_defaultDays :: int

definition NewHandler ::
    "'w ReportService \<Rightarrow> 'w RecomputeService \<Rightarrow> 'w AuditService \<Rightarrow> 'w HealthService \<Rightarrow> int \<Rightarrow> 'w Handler" where
  "NewHandler reports recompute audit health defaultDays =
     \<lparr>h_reports = reports, h_recompute = recompute, h_audit = audit, h_health = health,
      h_defaultDays = defaultDays\<rparr>"

definition URLParam :: "(string \<times> string) list \<Rightarrow> string \<Rightarrow> string" where
  "URLParam params k = first_value params k"

subsection \<open>Errors\<close>

definition handleError :: "go_error \<Rightarrow> http_response" where
  "handleError err =
     (case errors_As err of
        Some (code, message) \<Rightarrow>
          if code = ErrCodeInvalid then writeError StatusBadRequest code message None
          else if code = ErrCodeNotFound then writeError StatusNotFound code message None
          else if code = ErrCodeUnauthorized then writeError StatusUnauthorized code message None
          else if code = ErrCodeConflict then writeError StatusConflict code message None
          else if code = ErrCodeUnavailable then writeError StatusServiceUnavailable code message None
          else writeError StatusInternalServerError ErrCodeInternal message None
      | None \<Rightarrow>
          writeError StatusInternalServerError ErrCodeInternal (''internal error: '' @ Error err) None)"

text \<open>A call of a service on the stores' world; its error or its result is answered.\<close>

definition answer :: "('w \<Rightarrow> 'w \<times> (go_error + 'a)) \<Rightarrow> ('a \<Rightarrow> http_response) \<Rightarrow> 'w service_world
    \<Rightarrow> 'w service_world \<times> http_response" where
  "answer f ok s =
     (case f (fst s) of
        (w1, Inl err) \<Rightarrow> ((w1, snd s), handleError err)
      | (w1, Inr x) \<Rightarrow> ((w1, snd s), ok x))"

subsection \<open>Parameters\<close>

definition parseIntWithDefault :: "string \<Rightarrow> int \<Rightarrow> int" where
  "parseIntWithDefault raw fallback =
     (if TrimSpace raw = '''' then fallback
      else case Atoi raw of None \<Rightarrow> fallback | Some v \<Rightarrow> v)"

definition normalizeWindow :: "string \<Rightarrow> string" where
  "normalizeWindow raw =
     (let window = TrimSpace (ToLower raw) in if window = '''' then WindowDay else window)"

definition parseDateRangeWithValues ::
    "'w Handler \<Rightarrow> gotime \<Rightarrow> string \<Rightarrow> string \<Rightarrow> go_error + gotime \<times> gotime" where
  "parseDateRangeWithValues h now rawFrom rawTo =
     (let to0 = start_of_day now;
          from0 = AddDays to0 (- (h_defaultDays h - 1)) in
      case (if TrimSpace rawTo \<noteq> '''' then ParseDate rawTo else Some to0) of
        None \<Rightarrow> Inl (NewAppError ErrCodeInvalid ''date_to must use YYYY-MM-DD format'')
      | Some to \<Rightarrow>
     (case (if TrimSpace rawFrom \<noteq> '''' then ParseDate rawFrom else Some from0) of
        None \<Rightarrow> Inl (NewAppError ErrCodeInvalid ''date_from must use YYYY-MM-DD format'')
      | Some from1 \<Rightarrow>
     (let from = (if TrimSpace rawFrom = '''' \<and> TrimSpace rawTo \<noteq> ''''
                  then AddDays to (- (h_defaultDays h - 1)) else from1) in
      if to < from then Inl (NewAppError ErrCodeInvalid ''date_from must be on or before date_to'')
      else Inr (from, to))))"

definition parseDateRange :: "'w Handler \<Rightarrow> gotime \<Rightarrow> http_request \<Rightarrow> go_error + gotime \<times> gotime" where
  "parseDateRange h now r =
     parseDateRangeWithValues h now (Query_Get r ''date_from'') (Query_Get r ''date_to'')"

subsection \<open>Reading handlers\<close>

definition getHealth :: "'w runtime \<Rightarrow> 'w Handler \<Rightarrow> 'w handler" where
  "getHealth rt h ctx params r s =
     (let (w1, health) = HealthService_Check rt (h_health h) ctx (fst s);
          status = (if hs_Status health \<noteq> ''ok'' then StatusServiceUnavailable else StatusOK)
      in ((w1, snd s), writeJSON status (health_json health) None))"

definition listFilter :: "http_request \<Rightarrow> ReportListFilter" where
  "listFilter r =
     \<lparr>lf_Search = TrimSpace (Query_Get r ''search''),
      lf_Limit = parseIntWithDefault (Query_Get r ''limit'') 20,
      lf_Offset = parseIntWithDefault (Query_Get r ''offset'') 0,
      lf_Sort = TrimSpace (Query_Get r ''sort''), lf_Order = TrimSpace (Query_Get r ''order'')\<rparr>"

definition pagination_meta :: "Pagination \<Rightarrow> json option" where
  "pagination_meta p = Some (JObj [(''pagination'', pagination_json p)])"

definition listReports :: "'w Handler \<Rightarrow> 'w handler" where
  "listReports h ctx params r s =
     answer (ReportService_ListReports (h_reports h) ctx (listFilter r))
       (\<lambda>(reports, pagination).
          writeJSON StatusOK (JArr (map definition_json reports)) (pagination_meta pagination)) s"

definition getReport :: "'w Handler \<Rightarrow> 'w handler" where
  "getReport h ctx params r s =
     answer (ReportService_GetReport (h_reports h) ctx (URLParam params ''slug''))
       (\<lambda>report. writeJSON StatusOK (definition_json report) None) s"

definition runParams :: "http_request \<Rightarrow> gotime \<times> gotime \<Rightarrow> ReportRunParams" where
  "runParams r dates =
     \<lparr>rp_Window = normalizeWindow (Query_Get r ''window''), rp_DateFrom = fst dates,
      rp_DateTo = snd dates, rp_Breakdown = TrimSpace (Query_Get r ''breakdown''),
      rp_Limit = parseIntWithDefault (Query_Get r ''limit'') 50,
      rp_Offset = parseIntWithDefault (Query_Get r ''offset'') 0,
      rp_Source = TrimSpace (Query_Get r ''source''), rp_Status = TrimSpace (Query_Get r ''status'')\<rparr>"

definition runReport :: "'w runtime \<Rightarrow> 'w Handler \<Rightarrow> 'w handler" where
  "runReport rt h ctx params r s =
     (case parseDateRange h (rt_now rt (fst s)) r of
        Inl err \<Rightarrow> (s, handleError err)
      | Inr dates \<Rightarrow>
          answer (ReportService_RunReport rt (h_reports h) ctx (URLParam params ''slug'') (runParams r dates))
            (\<lambda>result. writeJSON StatusOK (result_json result)
               (Some (JObj [(''cache_hit'', JBool (rr_CacheHit result))]))) s)"

definition getRecomputeRun :: "'w Handler \<Rightarrow> 'w handler" where
  "getRecomputeRun h ctx params r s =
     answer (RecomputeService_GetRun (h_recompute h) ctx (URLParam params ''id''))
       (\<lambda>run. writeJSON StatusOK (run_json run) None) s"

definition auditFilter :: "http_request \<Rightarrow> AuditFilter" where
  "auditFilter r =
     \<lparr>af_Action = TrimSpace (Query_Get r ''action''), af_Actor = TrimSpace (Query_Get r ''actor''),
      af_Limit = parseIntWithDefault (Query_Get r ''limit'') 20,
      af_Offset = parseIntWithDefault (Query_Get r ''offset'') 0\<rparr>"

definition listAuditEntries :: "'w Handler \<Rightarrow> 'w handler" where
  "listAuditEntries h ctx params r s =
     answer (AuditService_ListEntries (h_audit h) ctx (auditFilter r))
       (\<lambda>(entries, pagination).
          writeJSON StatusOK (JArr (map entry_json entries)) (pagination_meta pagination)) s"

subsection \<open>Triggering a recompute\<close>

record recomputeRequestBody =
  rb_ReportSlug :: string
  rb_Window :: string
  rb_DateFrom :: string
  rb_DateTo :: string
  rb_RequestedBy :: string

text \<open>
  \<open>json.Decoder\<close> with \<open>DisallowUnknownFields\<close>: a key names the field it equals up to case
  folding, \<open>null\<close> leaves a field as it is, a value that is not a text or a key that names no
  field is an error, and the last of several values of a field wins. A body that is \<open>null\<close>
  leaves every field empty. (A body read from the network has no \<open>JTime\<close> node.)
\<close>

definition body_fields :: "(string \<times> (string \<Rightarrow> recomputeRequestBody \<Rightarrow> recomputeRequestBody)) list" where
  "body_fields =
     [(''report_slug'', \<lambda>v b. b\<lparr>rb_ReportSlug := v\<rparr>),
      (''window'', \<lambda>v b. b\<lparr>rb_Window := v\<rparr>),
      (''date_from'', \<lambda>v b. b\<lparr>rb_DateFrom := v\<rparr>),
      (''date_to'', \<lambda>v b. b\<lparr>rb_DateTo := v\<rparr>),
      (''requested_by'', \<lambda>v b. b\<lparr>rb_RequestedBy := v\<rparr>)]"

fun decode_field :: "string \<times> json \<Rightarrow> recomputeRequestBody \<Rightarrow> recomputeRequestBody option" where
  "decode_field (k, v) b =
     (case find (\<lambda>(name, _). EqualFold name k) body_fields of
        None \<Rightarrow> None
      | Some (_, put) \<Rightarrow>
          (case v of JStr txt \<Rightarrow> Some (put txt b) | JNull \<Rightarrow> Some b | _ \<Rightarrow> None))"

fun decode_fields :: "(string \<times> json) list \<Rightarrow> recomputeRequestBody \<Rightarrow> recomputeRequestBody option" where
  "decode_fields [] b = Some b"
| "decode_fields (kv # kvs) b =
     (case decode_field kv b of None \<Rightarrow> None | Some b' \<Rightarrow> decode_fields kvs b')"

definition empty_body :: recomputeRequestBody where
  "empty_body =
     \<lparr>rb_ReportSlug = '''', rb_Window = '''', rb_DateFrom = '''', rb_DateTo = '''', rb_RequestedBy = ''''\<rparr>"

definition decode_body :: "json option \<Rightarrow> recomputeRequestBody option" where
  "decode_body raw =
     (case raw of
        Some (JObj kvs) \<Rightarrow> decode_fields kvs empty_body
      | Some JNull \<Rightarrow> Some empty_body
      | _ \<Rightarrow> None)"

definition requester :: "recomputeRequestBody \<Rightarrow> http_request \<Rightarrow> string" where
  "requester body r =
     (let by_body = TrimSpace (rb_RequestedBy body);
          by_header = (if by_body = '''' then TrimSpace (Header_Get r ''X-Actor'') else by_body)
      in if by_header = '''' then ''management-api'' else by_header)"

definition recompute_request ::
    "recomputeRequestBody \<Rightarrow> http_request \<Rightarrow> gotime \<times> gotime \<Rightarrow> RecomputeRequest" where
  "recompute_request body r dates =
     \<lparr>rq_ReportSlug = TrimSpace (rb_ReportSlug body), rq_Window = normalizeWindow (rb_Window body),
      rq_DateFrom = fst dates, rq_DateTo = snd dates, rq_RequestedBy = requester body r,
      rq_RequestedVia = ''http''\<rparr>"

definition triggerRecompute :: "'w runtime \<Rightarrow> 'w Handler \<Rightarrow> string \<Rightarrow> 'w handler" where
  "triggerRecompute rt h lockToken ctx params r s =
     (case decode_body (hr_Body r) of
        None \<Rightarrow> (s, handleError (NewAppError ErrCodeInvalid ''invalid JSON body''))
      | Some body \<Rightarrow>
          if TrimSpace (rb_ReportSlug body) = ''''
          then (s, handleError (NewAppError ErrCodeInvalid ''report_slug is required''))
          else
            (case parseDateRangeWithValues h (rt_now rt (fst s)) (rb_DateFrom body) (rb_DateTo body) of
               Inl err \<Rightarrow> (s, handleError err)
             | Inr dates \<Rightarrow>
                 (case RecomputeService_Trigger (h_recompute h) ctx lockToken
                         (recompute_request body r dates) s of
                    (s1, Inl err) \<Rightarrow> (s1, handleError err)
                  | (s1, Inr run) \<Rightarrow> (s1, writeJSON StatusAccepted (run_json run) None))))"

subsection \<open>Authentication of the management routes\<close>

definition bearer_value :: "string \<Rightarrow> string" where
  "bearer_value v = (if HasPrefix (ToLower v) ''bearer '' then TrimSpace (drop 7 v) else v)"

fun provided_key :: "string list \<Rightarrow> http_request \<Rightarrow> string" where
  "provided_key [] r = ''''"
| "provided_key (header # headers) r =
     (let v = TrimSpace (Header_Get r header) in
      if v = '''' then provided_key headers r else bearer_value v)"

definition key_headers :: "string list" where
  "key_headers = [''X-Management-Key'', ''Authorization'']"

definition managementAuthMiddleware :: "string \<Rightarrow> 'w handler \<Rightarrow> 'w handler" where
  "managementAuthMiddleware apiKey nxt ctx params r s =
     (if provided_key key_headers r \<noteq> apiKey
      then (s, writeError StatusUnauthorized ''unauthorized'' ''management authentication failed'' None)
      else nxt ctx params r s)"

subsection \<open>Routes\<close>

record 'w route =
  ro_Method :: string
  ro_Pattern :: string
  ro_Handler :: "'w handler"

definition Routes :: "'w runtime \<Rightarrow> 'w Handler \<Rightarrow> string \<Rightarrow> string \<Rightarrow> 'w route list" where
  "Routes rt h lockToken apiKey =
     (let auth = managementAuthMiddleware apiKey in
      [\<lparr>ro_Method = ''GET'', ro_Pattern = ''/api/v1/health'', ro_Handler = getHealth rt h\<rparr>,
       \<lparr>ro_Method = ''GET'', ro_Pattern = ''/api/v1/reports'', ro_Handler = listReports h\<rparr>,
       \<lparr>ro_Method = ''GET'', ro_Pattern = ''/api/v1/reports/{slug}'', ro_Handler = getReport h\<rparr>,
       \<lparr>ro_Method = ''GET'', ro_Pattern = ''/api/v1/reports/{slug}/run'', ro_Handler = runReport rt h\<rparr>,
       \<lparr>ro_Method = ''POST'', ro_Pattern = ''/api/v1/recomputations'',
        ro_Handler = auth (triggerRecompute rt h lockToken)\<rparr>,
       \<lparr>ro_Method = ''GET'', ro_Pattern = ''/api/v1/recomputations/{id}'',
        ro_Handler = auth (getRecomputeRun h)\<rparr>,
       \<lparr>ro_Method = ''GET'', ro_Pattern = ''/api/v1/audit-entries'',
        ro_Handler = auth (listAuditEntries h)\<rparr>])"

datatype chi_outcome = ChiRoute nat "(string \<times> string) list" | ChiMethodNotAllowed | ChiNotFound

type_synonym chi_router = "(string \<times> string) list \<Rightarrow> string \<Rightarrow> string \<Rightarrow> chi_outcome"

definition requestTimeout :: duration where "requestTimeout = 30 * ns_Second"

definition notFound :: http_response where
  "notFound = writeError StatusNotFound ''not_found'' ''route was not found'' None"

definition serve ::
    "'w runtime \<Rightarrow> 'w Handler \<Rightarrow> string \<Rightarrow> chi_router \<Rightarrow> string \<Rightarrow> http_request \<Rightarrow> 'w service_world
     \<Rightarrow> 'w service_world \<times> http_response" where
  "serve rt h apiKey chi lockToken r s =
     (let ctx = WithTimeout (hr_Ctx r) (rt_now rt (fst s)) requestTimeout;
          routes = Routes rt h lockToken apiKey in
      case chi (map (\<lambda>ro. (ro_Method ro, ro_Pattern ro)) routes) (hr_Method r) (hr_Path r) of
        ChiRoute i params \<Rightarrow>
          if i < length routes then ro_Handler (routes ! i) ctx params r s else (s, notFound)
      | ChiMethodNotAllowed \<Rightarrow>
          (s, \<lparr>resp_Status = StatusMethodNotAllowed, resp_ContentType = '''', resp_Body = None\<rparr>)
      | ChiNotFound \<Rightarrow> (s, notFound))"

end
