(* ===== verification/Config.thy ===== *)
theory Config
  imports Domain
begin

section \<open>Configuration from the environment\<close>

text \<open>
  \<open>internal/infrastructure/config/config.go\<close>. The environment is a function from names to
  values, empty where a variable is not set, as \<open>os.Getenv\<close> gives it.
\<close>

type_synonym environment = "string \<Rightarrow> string"

subsection \<open>time.ParseDuration\<close>

text \<open>
  A sign, then numbers with a unit, one after another; the sums are kept in 64 bits as in the
  standard library. Numbers read from the front: \<open>leading_int\<close> fails above \<open>2^63\<close>,
  \<open>leading_fraction\<close> ignores the digits beyond that precision. The part of a fraction is
  computed exactly here and with \<open>float64\<close> in the library, which can differ by a nanosecond.
\<close>

definition two63 :: int where "two63 = 2 ^ 63"

fun leading_int :: "int \<Rightarrow> string \<Rightarrow> (int \<times> string) option" where
  "leading_int x [] = Some (x, [])"
| "leading_int x (c # s) =
     (if \<not> is_digit c then Some (x, c # s)
      else if two63 div 10 < x then None
      else let y = x * 10 + int (digit_val c) in if two63 < y then None else leading_int y s)"

fun leading_fraction :: "int \<Rightarrow> int \<Rightarrow> bool \<Rightarrow> string \<Rightarrow> int \<times> int \<times> string" where
  "leading_fraction x scale overflow [] = (x, scale, [])"
| "leading_fraction x scale overflow (c # s) =
     (if \<not> is_digit c then (x, scale, c # s)
      else if overflow \<or> (two63 - 1) div 10 < x then leading_fraction x scale True s
      else let y = x * 10 + int (digit_val c) in
           if two63 < y then leading_fraction x scale True s
           else leading_fraction y (scale * 10) False s)"

definition unit_map :: "(string \<times> int) list" where
  "unit_map =
     [(''ns'', 1), (''us'', 1000), ([CHR 0xC2, CHR 0xB5, CHR ''s''], 1000),
      ([CHR 0xCE, CHR 0xBC, CHR ''s''], 1000), (''ms'', 1000000), (''s'', ns_Second),
      (''m'', ns_Minute), (''h'', ns_Hour)]"

definition unit_char :: "char \<Rightarrow> bool" where
  "unit_char c \<longleftrightarrow> c \<noteq> CHR ''.'' \<and> \<not> is_digit c"

text \<open>
  A number: its whole part, the digits and the scale of its fraction, and the rest of the
  text; then one number with its unit, in nanoseconds, and the rest of the text.
\<close>

definition duration_number :: "string \<Rightarrow> (int \<times> int \<times> int \<times> string) option" where
  "duration_number s =
     (if s = [] \<or> \<not> (hd s = CHR ''.'' \<or> is_digit (hd s)) then None
      else
        (case leading_int 0 s of
           None \<Rightarrow> None
         | Some (v, s1) \<Rightarrow>
             if s1 \<noteq> [] \<and> hd s1 = CHR ''.'' then
               (case leading_fraction 0 1 False (tl s1) of
                  (f, scale, s2) \<Rightarrow>
                    if length s1 = length s \<and> length s2 = length (tl s1) then None
                    else Some (v, f, scale, s2))
             else if length s1 = length s then None
             else Some (v, 0, 1, s1)))"

definition duration_term :: "string \<Rightarrow> (int \<times> string) option" where
  "duration_term s =
     (case duration_number s of
        None \<Rightarrow> None
      | Some (v, f, scale, s2) \<Rightarrow>
          (case map_of unit_map (takeWhile unit_char s2) of
             None \<Rightarrow> None
           | Some unit \<Rightarrow>
               if two63 div unit < v then None
               else let t = v * unit + f * unit div scale in
                    if 0 < f \<and> two63 < t then None else Some (t, dropWhile unit_char s2)))"
text \<open>Every term takes a character at least, so the length of the text is fuel enough.\<close>

fun duration_terms :: "nat \<Rightarrow> int \<Rightarrow> string \<Rightarrow> int option" where
  "duration_terms fuel d [] = Some d"
| "duration_terms 0 d (c # s) = None"
| "duration_terms (Suc fuel) d (c # s) =
     (case duration_term (c # s) of
        None \<Rightarrow> None
      | Some (v, rest) \<Rightarrow>
          let d' = (d + v) mod 2 ^ 64 in if two63 < d' then None else duration_terms fuel d' rest)"

definition ParseDuration :: "string \<Rightarrow> duration option" where
  "ParseDuration s0 =
     (let signed = s0 \<noteq> [] \<and> (hd s0 = CHR ''-'' \<or> hd s0 = CHR ''+'');
          neg = signed \<and> hd s0 = CHR ''-'';
          s = (if signed then tl s0 else s0) in
      if s = ''0'' then Some 0
      else if s = [] then None
      else
        (case duration_terms (length s) 0 s of
           None \<Rightarrow> None
         | Some d \<Rightarrow> if neg then Some (- d) else if two63 - 1 < d then None else Some d))"

lemma duration_number_shorter:
  assumes "duration_number s = Some (v, f, scale, r)"
  shows "length r \<le> length s"
proof -
  have li: "leading_int x t = Some (n, r) \<Longrightarrow> length r \<le> length t" for x t n r
    by (induction x t rule: leading_int.induct) (auto simp: Let_def split: if_splits)
  have lf: "leading_fraction x sc b t = (f, scale, r) \<Longrightarrow> length r \<le> length t" for x sc b t f scale r
    by (induction x sc b t rule: leading_fraction.induct) (auto simp: Let_def split: if_splits)
  from assms show ?thesis
    by (auto simp: duration_number_def split: if_splits option.splits prod.splits dest!: li lf)
qed

lemma duration_term_shorter:
  assumes "duration_term s = Some (v, rest)"
  shows "length rest < length s"
proof -
  obtain n f scale r where r: "duration_number s = Some (n, f, scale, r)"
      "map_of unit_map (takeWhile unit_char r) \<noteq> None" "rest = dropWhile unit_char r"
    using assms by (auto simp: duration_term_def Let_def split: option.splits if_splits)
  moreover have "map_of unit_map [] = None" by (simp add: unit_map_def)
  ultimately have "takeWhile unit_char r \<noteq> []" by metis
  then have "length rest < length r"
    unfolding r(3) by (cases r) (auto simp: le_imp_less_Suc length_dropWhile_le split: if_splits)
  with duration_number_shorter [OF r(1)] show ?thesis by linarith
qed

text \<open>So no fuel is ever missing.\<close>

lemma duration_terms_fuel:
  "length s \<le> m \<Longrightarrow> length s \<le> n \<Longrightarrow> duration_terms m d s = duration_terms n d s"
proof (induction m d s arbitrary: n rule: duration_terms.induct)
  case (3 fuel d c s)
  then obtain k where n: "n = Suc k" by (cases n) auto
  show ?case
  proof (cases "duration_term (c # s)")
    case (Some vr)
    obtain v rest where vr: "vr = (v, rest)" by fastforce
    with Some duration_term_shorter have "length rest < length (c # s)" by blast
    with 3 n Some vr show ?thesis by (auto simp: Let_def)
  qed (simp add: n)
qed auto
subsection \<open>Reading a variable\<close>

definition getString :: "environment \<Rightarrow> string \<Rightarrow> string \<Rightarrow> string" where
  "getString env key fallback = (if env key \<noteq> '''' then env key else fallback)"

definition getBool :: "environment \<Rightarrow> string \<Rightarrow> bool \<Rightarrow> bool" where
  "getBool env key fallback =
     (if env key = '''' then fallback
      else case ParseBool (env key) of None \<Rightarrow> fallback | Some b \<Rightarrow> b)"

definition getInt :: "environment \<Rightarrow> string \<Rightarrow> int \<Rightarrow> int" where
  "getInt env key fallback =
     (if env key = '''' then fallback
      else case Atoi (env key) of None \<Rightarrow> fallback | Some i \<Rightarrow> i)"

definition getDuration :: "environment \<Rightarrow> string \<Rightarrow> duration \<Rightarrow> duration" where
  "getDuration env key fallback =
     (if env key = '''' then fallback
      else case ParseDuration (env key) of None \<Rightarrow> fallback | Some d \<Rightarrow> d)"

subsection \<open>The configuration\<close>

record Config =
  cfg_Env :: string
  cfg_Port :: string
  cfg_Version :: string
  cfg_DatabaseURL :: string
  cfg_RedisURL :: string
  cfg_ManagementAPIKey :: string
  cfg_AutoMigrate :: bool
  cfg_AutoSeed :: bool
  cfg_MaxReportRangeDays :: int
  cfg_RecomputeLockTTL :: duration
  cfg_RecomputeWorkers :: int
  cfg_RecomputeQueueSize :: int
  cfg_HTTPReadTimeout :: duration
  cfg_HTTPWriteTimeout :: duration
  cfg_HTTPShutdownTimeout :: duration

definition env_config :: "environment \<Rightarrow> Config" where
  "env_config env =
     \<lparr>cfg_Env = getString env ''APP_ENV'' ''development'',
      cfg_Port = getString env ''APP_PORT'' ''3004'',
      cfg_Version = getString env ''APP_VERSION'' ''dev'',
      cfg_DatabaseURL = getString env ''DATABASE_URL'' '''',
      cfg_RedisURL = getString env ''REDIS_URL'' '''',
      cfg_ManagementAPIKey = getString env ''MANAGEMENT_API_KEY'' ''change-me'',
      cfg_AutoMigrate = getBool env ''APP_AUTO_MIGRATE'' True,
      cfg_AutoSeed = getBool env ''APP_AUTO_SEED'' False,
      cfg_MaxReportRangeDays = getInt env ''MAX_REPORT_RANGE_DAYS'' 366,
      cfg_RecomputeLockTTL = getDuration env ''RECOMPUTE_LOCK_TTL'' (15 * ns_Minute),
      cfg_RecomputeWorkers = getInt env ''RECOMPUTE_WORKERS'' 1,
      cfg_RecomputeQueueSize = getInt env ''RECOMPUTE_QUEUE_SIZE'' 64,
      cfg_HTTPReadTimeout = getDuration env ''HTTP_READ_TIMEOUT'' (10 * ns_Second),
      cfg_HTTPWriteTimeout = getDuration env ''HTTP_WRITE_TIMEOUT'' (20 * ns_Second),
      cfg_HTTPShutdownTimeout = getDuration env ''HTTP_SHUTDOWN_TIMEOUT'' (15 * ns_Second)\<rparr>"

definition Load :: "environment \<Rightarrow> string + Config" where
  "Load env =
     (let cfg = env_config env in
      if cfg_DatabaseURL cfg = '''' then Inl ''DATABASE_URL is required''
      else if cfg_RedisURL cfg = '''' then Inl ''REDIS_URL is required''
      else if cfg_MaxReportRangeDays cfg < 1 then Inl ''MAX_REPORT_RANGE_DAYS must be positive''
      else if cfg_RecomputeWorkers cfg < 1 then Inl ''RECOMPUTE_WORKERS must be at least 1''
      else if cfg_RecomputeQueueSize cfg < 1 then Inl ''RECOMPUTE_QUEUE_SIZE must be at least 1''
      else Inr cfg)"

lemma Load_Inr_iff:
  "Load env = Inr cfg \<longleftrightarrow>
     cfg = env_config env \<and> env ''DATABASE_URL'' \<noteq> '''' \<and> env ''REDIS_URL'' \<noteq> '''' \<and>
     1 \<le> cfg_MaxReportRangeDays cfg \<and> 1 \<le> cfg_RecomputeWorkers cfg \<and> 1 \<le> cfg_RecomputeQueueSize cfg"
proof -
  have "cfg_DatabaseURL (env_config env) = '''' \<longleftrightarrow> env ''DATABASE_URL'' = ''''"
    and "cfg_RedisURL (env_config env) = '''' \<longleftrightarrow> env ''REDIS_URL'' = ''''"
    by (simp_all add: env_config_def getString_def)
  then show ?thesis unfolding Load_def Let_def by (simp split: if_split) (metis not_less)
qed

lemma getString_nonempty: "fallback \<noteq> '''' \<Longrightarrow> getString env key fallback \<noteq> ''''"
  by (simp add: getString_def)

lemma getInt_bounds:
  assumes "min_int64 \<le> fallback" "fallback \<le> max_int64"
  shows "min_int64 \<le> getInt env key fallback \<and> getInt env key fallback \<le> max_int64"
  using assms ParseInt64_bounds by (auto simp: getInt_def Atoi_def split: option.split)

subsection \<open>Bounds of a parsed duration\<close>

lemma duration_terms_bounds:
  "0 \<le> d \<Longrightarrow> d \<le> two63 \<Longrightarrow> duration_terms fuel d s = Some e \<Longrightarrow> 0 \<le> e \<and> e \<le> two63"
  by (induction fuel d s rule: duration_terms.induct) (auto simp: Let_def split: option.splits if_splits)

lemma ParseDuration_bounds:
  assumes "ParseDuration s = Some d"
  shows "minDuration \<le> d \<and> d \<le> maxDuration"
proof -
  define body where "body = (if s \<noteq> [] \<and> (hd s = CHR ''-'' \<or> hd s = CHR ''+'') then tl s else s)"
  have "d = 0 \<or> (\<exists>e. duration_terms (length body) 0 body = Some e \<and> (d = - e \<or> d = e \<and> e \<le> two63 - 1))"
    using assms unfolding ParseDuration_def Let_def body_def [symmetric]
    by (simp split: option.splits if_split_asm)
  then show ?thesis
  proof (elim disjE exE conjE)
    fix e
    assume "duration_terms (length body) 0 body = Some e"
    with duration_terms_bounds [of 0] have "0 \<le> e" "e \<le> two63" by (auto simp: two63_def)
    moreover assume "d = - e"
    ultimately show ?thesis by (simp add: minDuration_def maxDuration_def two63_def)
  next
    fix e
    assume "duration_terms (length body) 0 body = Some e"
    with duration_terms_bounds [of 0] have "0 \<le> e" by (auto simp: two63_def)
    moreover assume "d = e" "e \<le> two63 - 1"
    ultimately show ?thesis by (simp add: minDuration_def maxDuration_def two63_def)
  qed (simp add: minDuration_def maxDuration_def)
qed
end
