(* ===== verification/Api.thy ===== *)
theory Api
  imports Http_Api Wiring Config
begin

section \<open>The API over the stores\<close>

text \<open>
  The server of \<open>cmd/api/main.go\<close>: the handlers over the services, the services over the
  stores, with the values of the configuration; and what a request can change. The constant
  30 of \<open>main\<close> is the number of days of a default range.
\<close>

definition api_handler :: "pg_server \<Rightarrow> 'r redis_server \<Rightarrow> Config \<Rightarrow> (pgdb, 'r) world Handler" where
  "api_handler pg srv cfg =
     NewHandler (api_reportService pg srv (cfg_MaxReportRangeDays cfg))
       (api_recomputeService pg srv (cfg_MaxReportRangeDays cfg) (cfg_RecomputeLockTTL cfg)
          (nat (cfg_RecomputeQueueSize cfg)))
       api_auditService (api_healthService srv (cfg_Version cfg)) 30"

definition api_serve ::
    "(string \<Rightarrow> string) \<Rightarrow> pg_server \<Rightarrow> 'r redis_server \<Rightarrow> Config \<Rightarrow> chi_router \<Rightarrow> string \<Rightarrow> http_request
     \<Rightarrow> (pgdb, 'r) world service_world \<Rightarrow> (pgdb, 'r) world service_world \<times> http_response" where
  "api_serve sha pg srv cfg chi lockToken r s =
     serve (api_runtime sha) (api_handler pg srv cfg) (cfg_ManagementAPIKey cfg) chi lockToken r s"

lemma api_handler_simps [simp]:
  "h_reports (api_handler pg srv cfg) = api_reportService pg srv (cfg_MaxReportRangeDays cfg)"
  "h_recompute (api_handler pg srv cfg) =
     api_recomputeService pg srv (cfg_MaxReportRangeDays cfg) (cfg_RecomputeLockTTL cfg)
       (nat (cfg_RecomputeQueueSize cfg))"
  "h_audit (api_handler pg srv cfg) = api_auditService"
  "h_health (api_handler pg srv cfg) = api_healthService srv (cfg_Version cfg)"
  "h_defaultDays (api_handler pg srv cfg) = 30"
  by (simp_all add: api_handler_def NewHandler_def)

subsection \<open>Reading requests leave the database alone\<close>

lemma reads_only_db: "reads_only f \<Longrightarrow> w_db (fst (f w)) = w_db w"
  by (simp add: reads_only_def)

lemma report_db_frames [frame_simps]:
  "w_db (fst (Store_ListReportDefinitions pg ctx flt w)) = w_db w"
  "w_db (fst (Store_RunVolumeReport pg ctx p w)) = w_db w"
  "w_db (fst (Store_RunStatusCountsReport pg ctx p w)) = w_db w"
  "w_db (fst (Store_RunTopEntitiesReport pg ctx p w)) = w_db w"
  by (rule reads_only_db, rule reads_only_ListReportDefinitions reads_only_reports)+

lemma run_db_frames [frame_simps]:
  "w_db (fst (Store_GetRun pg ctx i w)) = w_db w"
  "w_db (fst (Store_ListEntries ctx flt w)) = w_db w"
  unfolding Store_GetRun_def Store_ListEntries_def
  by (auto split: prod.split sum.split dest!: db_call_reads)

lemma ping_db_frames [frame_simps]:
  "w_db (fst (Store_PingDB ctx w)) = w_db w"
  "w_db (fst (RedisStore_PingCache srv ctx w)) = w_db w"
  by (simp_all add: Store_PingDB_def db_call_read RedisStore_PingCache_def frame_simps)

lemma handleError_status: "resp_Status (handleError err) \<in> {400, 401, 404, 409, 500, 503}"
  by (simp add: handleError_def http_status_defs split: option.split)

lemma handleError_not_accepted [simp]: "resp_Status (handleError err) \<noteq> StatusAccepted"
  using handleError_status [of err] by (auto simp: http_status_defs)

text \<open>The result of a call stays known while its world is replaced by the pair's parts.\<close>

lemma fst_case_prod: "fst (case x of (a, b) \<Rightarrow> f a b) = fst (f (fst x) (snd x))"
  by (cases x) simp

lemma frame_through:
  assumes "w_db (fst (f w)) = w_db w" and "f w = (w1, r)"
  shows "w_db w1 = w_db w"
  using assms by simp

lemma cacheKey_db [frame_simps]:
  "w_db (fst (cacheKey rt (api_reportService pg srv D) ctx slug p w)) = w_db w"
  by (auto simp: cacheKey_def wiring_simps split: prod.split sum.split
      dest!: frame_through [OF redis_frames(4)])

lemma getCachedResult_db [frame_simps]:
  "w_db (fst (getCachedResult rt (api_reportService pg srv D) ctx slug p w)) = w_db w"
proof -
  let ?s = "api_reportService pg srv D"
  have c: "rs_cache ?s = Some (redis_cache srv)" by (simp add: wiring_simps)
  show ?thesis
    unfolding getCachedResult_def c
    by (auto simp: redis_cache_def split: prod.split sum.split option.split
        dest!: frame_through [OF cacheKey_db] frame_through [OF redis_frames(5)])
qed

lemma storeCachedResult_db [frame_simps]:
  "w_db (fst (storeCachedResult rt (api_reportService pg srv D) ctx slug p res ttl w)) = w_db w"
proof -
  let ?s = "api_reportService pg srv D"
  have c: "rs_cache ?s = Some (redis_cache srv)" by (simp add: wiring_simps)
  show ?thesis
    unfolding storeCachedResult_def c
    by (auto simp: redis_cache_def frame_simps split: prod.split sum.split
        dest!: frame_through [OF cacheKey_db])
qed

lemma cached_or_miss_db [frame_simps]:
  "w_db (fst (cached_or_miss rt (api_reportService pg srv D) ctx slug p ttl w)) = w_db w"
  by (auto simp: cached_or_miss_def split: prod.split sum.split option.split
      dest!: frame_through [OF getCachedResult_db])

lemma executeReportQuery_db [frame_simps]:
  "w_db (fst (executeReportQuery (api_reportService pg srv D) ctx slug p w)) = w_db w"
proof -
  have r: "rs_repo (api_reportService pg srv D) = pg_reports pg" by (simp add: wiring_simps)
  show ?thesis
    unfolding executeReportQuery_def r
    by (auto simp: pg_reports_def split: prod.split sum.split
        dest!: frame_through [OF report_db_frames(2)] frame_through [OF report_db_frames(3)]
          frame_through [OF report_db_frames(4)])
qed

lemma RunReport_db [frame_simps]:
  "w_db (fst (ReportService_RunReport rt (api_reportService pg srv D) ctx slug p w)) = w_db w"
proof -
  let ?s = "api_reportService pg srv D"
  have r: "rs_repo ?s = pg_reports pg" by (simp add: wiring_simps)
  show ?thesis
    unfolding ReportService_RunReport_def r
    by (auto simp: pg_reports_def Let_def frame_simps split: prod.split sum.split option.split
        dest!: frame_through [OF lookup_db_frame] frame_through [OF cached_or_miss_db]
          frame_through [OF executeReportQuery_db])
qed

lemma answer_db:
  assumes "\<And>w. w_db (fst (f w)) = w_db w"
  shows "w_db (fst (fst (answer f ok s))) = w_db (fst s)" "snd (fst (answer f ok s)) = snd s"
  using assms [of "fst s"] by (auto simp: answer_def split: prod.split sum.split)

lemma answer_status:
  assumes "\<And>x. resp_Status (ok x) = StatusOK"
  shows "resp_Status (snd (answer f ok s)) \<noteq> StatusAccepted"
  using assms handleError_not_accepted
  by (auto simp: answer_def StatusOK_def StatusAccepted_def split: prod.split sum.split)

definition read_handler :: "(pgdb, 'r) world handler \<Rightarrow> bool" where
  "read_handler f \<longleftrightarrow>
     (\<forall>ctx params r s. w_db (fst (fst (f ctx params r s))) = w_db (fst s) \<and>
        snd (fst (f ctx params r s)) = snd s \<and> resp_Status (snd (f ctx params r s)) \<noteq> StatusAccepted)"

lemma read_handlerD:
  "read_handler f \<Longrightarrow> w_db (fst (fst (f ctx params r s))) = w_db (fst s) \<and>
     snd (fst (f ctx params r s)) = snd s \<and> resp_Status (snd (f ctx params r s)) \<noteq> StatusAccepted"
  unfolding read_handler_def by blast

lemma read_handlers:
  "read_handler (getHealth (api_runtime sha) (api_handler pg srv cfg))"
  "read_handler (listReports (api_handler pg srv cfg))"
  "read_handler (getReport (api_handler pg srv cfg))"
  "read_handler (runReport (api_runtime sha) (api_handler pg srv cfg))"
  "read_handler (getRecomputeRun (api_handler pg srv cfg))"
  "read_handler (listAuditEntries (api_handler pg srv cfg))"
proof -
  let ?h = "api_handler pg srv cfg"
  have list: "w_db (fst (ReportService_ListReports (h_reports ?h) ctx flt w)) = w_db w" for ctx flt w
    by (auto simp: ReportService_ListReports_def wiring_simps split: prod.split sum.split
        dest!: frame_through [OF report_db_frames(1)])
  have get: "w_db (fst (ReportService_GetReport (h_reports ?h) ctx slug w)) = w_db w" for ctx slug w
    by (auto simp: ReportService_GetReport_def wiring_simps split: prod.split sum.split
        dest!: frame_through [OF lookup_db_frame])
  have run: "w_db (fst (RecomputeService_GetRun (h_recompute ?h) ctx i w)) = w_db w" for ctx i w
    by (auto simp: RecomputeService_GetRun_def wiring_simps split: prod.split sum.split
        dest!: frame_through [OF run_db_frames(1)])
  have entries: "w_db (fst (AuditService_ListEntries (h_audit ?h) ctx flt w)) = w_db w" for ctx flt w
    by (auto simp: AuditService_ListEntries_def wiring_simps Let_def split: prod.split sum.split
        dest!: frame_through [OF run_db_frames(2)])
  show "read_handler (getHealth (api_runtime sha) ?h)"
    by (auto simp: read_handler_def getHealth_def HealthService_Check_def wiring_simps Let_def http_status_defs
        split: prod.split dest!: frame_through [OF ping_db_frames(1)] frame_through [OF ping_db_frames(2)])
  show "read_handler (listReports ?h)" "read_handler (getReport ?h)" "read_handler (getRecomputeRun ?h)"
      "read_handler (listAuditEntries ?h)"
    by (simp_all add: read_handler_def listReports_def getReport_def getRecomputeRun_def
        listAuditEntries_def answer_db answer_status list get run entries split_beta del: api_handler_simps)
  show "read_handler (runReport (api_runtime sha) ?h)"
    by (auto simp: read_handler_def runReport_def answer_db answer_status frame_simps split: sum.split)
qed

subsection \<open>Authentication\<close>

lemma auth_refuses:
  "provided_key key_headers r \<noteq> apiKey \<Longrightarrow>
     managementAuthMiddleware apiKey f ctx params r s =
       (s, writeError StatusUnauthorized ''unauthorized'' ''management authentication failed'' None)"
  and auth_accepts:
  "provided_key key_headers r = apiKey \<Longrightarrow> managementAuthMiddleware apiKey f ctx params r s = f ctx params r s"
  by (simp_all add: managementAuthMiddleware_def)

lemma read_handler_auth: "read_handler f \<Longrightarrow> read_handler (managementAuthMiddleware apiKey f)"
  by (simp add: read_handler_def managementAuthMiddleware_def http_status_defs)

lemma Routes_length [simp]: "length (Routes rt h tok apiKey) = 7"
  by (simp add: Routes_def Let_def)


lemma Routes_nth:
  "Routes rt h tok apiKey ! 0 = \<lparr>ro_Method = ''GET'', ro_Pattern = ''/api/v1/health'', ro_Handler = getHealth rt h\<rparr>"
  "Routes rt h tok apiKey ! 1 = \<lparr>ro_Method = ''GET'', ro_Pattern = ''/api/v1/reports'', ro_Handler = listReports h\<rparr>"
  "Routes rt h tok apiKey ! 2 =
     \<lparr>ro_Method = ''GET'', ro_Pattern = ''/api/v1/reports/{slug}'', ro_Handler = getReport h\<rparr>"
  "Routes rt h tok apiKey ! 3 =
     \<lparr>ro_Method = ''GET'', ro_Pattern = ''/api/v1/reports/{slug}/run'', ro_Handler = runReport rt h\<rparr>"
  "Routes rt h tok apiKey ! 4 =
     \<lparr>ro_Method = ''POST'', ro_Pattern = ''/api/v1/recomputations'',
      ro_Handler = managementAuthMiddleware apiKey (triggerRecompute rt h tok)\<rparr>"
  "Routes rt h tok apiKey ! 5 =
     \<lparr>ro_Method = ''GET'', ro_Pattern = ''/api/v1/recomputations/{id}'',
      ro_Handler = managementAuthMiddleware apiKey (getRecomputeRun h)\<rparr>"
  "Routes rt h tok apiKey ! 6 =
     \<lparr>ro_Method = ''GET'', ro_Pattern = ''/api/v1/audit-entries'',
      ro_Handler = managementAuthMiddleware apiKey (listAuditEntries h)\<rparr>"
  by (simp_all add: Routes_def Let_def eval_nat_numeral)

lemma read_routes:
  assumes "i < 7" and "i \<noteq> 4"
  shows "read_handler (ro_Handler (Routes (api_runtime sha) (api_handler pg srv cfg) tok apiKey ! i))"
proof -
  from assms have "i = 0 \<or> i = 1 \<or> i = 2 \<or> i = 3 \<or> i = 5 \<or> i = 6" by linarith
  then show ?thesis
    by (elim disjE) (simp_all only: Routes_nth route.simps read_handler_auth read_handlers)
qed

end
