(* ===== verification/Quiet_Network.thy ===== *)
theory Quiet_Network
  imports Wiring
begin

section \<open>A network without delays and failures\<close>

text \<open>
  Where the script is empty, no call moves the clock or the script, so a network that is
  undisturbed at the start of a trigger or of a worker's turn is so at its end: steps on an
  undisturbed network can be put one after another.
\<close>

definition quiet :: "(('d, 'r) world \<Rightarrow> ('d, 'r) world) \<Rightarrow> bool" where
  "quiet f \<longleftrightarrow> (\<forall>w. w_script w = [] \<longrightarrow> w_script (f w) = [] \<and> w_now (f w) = w_now w)"

lemma quietD:
  assumes "quiet (\<lambda>w. fst (f w))" and "f w = (w', r)" and "w_script w = []"
  shows "w_script w' = []" "w_now w' = w_now w"
proof -
  have "w' = fst (f w)" using assms(2) by simp
  then show "w_script w' = []" "w_now w' = w_now w" using assms(1,3) by (simp_all add: quiet_def)
qed

lemma quiet_comp: "quiet f \<Longrightarrow> quiet g \<Longrightarrow> quiet (\<lambda>w. g (f w))"
  by (simp add: quiet_def)

lemma quiet_undisturbed: "quiet f \<Longrightarrow> undisturbed ctx w \<Longrightarrow> undisturbed ctx (f w)"
  by (simp add: quiet_def undisturbed_def)

lemma quiet_remote:
  assumes "\<And>w. w_script (fst (f w)) = w_script w \<and> w_now (fst (f w)) = w_now w"
  shows "quiet (\<lambda>w. fst (remote ctx f w))"
  using assms by (auto simp: quiet_def remote_def next_outcome_def pass_time_undisturbed)

lemma quiet_calls: "quiet (\<lambda>w. fst (db_call ctx g w))" "quiet (\<lambda>w. fst (rd_call ctx h w))"
  by (auto simp: db_call_def rd_call_def split: prod.split intro!: quiet_remote)

lemma quiet_bind:
  assumes "quiet (\<lambda>w. fst (f w))" and "\<And>e. quiet (\<lambda>w. fst (g e w))" and "\<And>x. quiet (\<lambda>w. fst (h x w))"
  shows "quiet (\<lambda>w. fst (case f w of (w1, Inl e) \<Rightarrow> g e w1 | (w1, Inr x) \<Rightarrow> h x w1))"
  unfolding quiet_def
proof (intro allI impI)
  fix w :: "('a, 'b) world"
  assume w: "w_script w = []"
  obtain w1 r where f: "f w = (w1, r)" by fastforce
  note w1 = quietD [OF assms(1) f w]
  show "w_script (fst (case f w of (w1, Inl e) \<Rightarrow> g e w1 | (w1, Inr x) \<Rightarrow> h x w1)) = [] \<and>
      w_now (fst (case f w of (w1, Inl e) \<Rightarrow> g e w1 | (w1, Inr x) \<Rightarrow> h x w1)) = w_now w"
    using assms(2,3) w1 f by (cases r) (simp_all add: quiet_def)
qed

lemma quiet_return [simp]: "quiet (\<lambda>w. w)" "quiet (\<lambda>w. fst (w, r))"
  by (simp_all add: quiet_def)

named_theorems quiet_intros "steps that keep an empty script and the clock"

lemma quiet_if:
  "quiet (\<lambda>w. fst (f w)) \<Longrightarrow> quiet (\<lambda>w. fst (g w)) \<Longrightarrow> quiet (\<lambda>w. fst (if b then f w else g w))"
  by (simp add: quiet_def)

lemma quiet_option:
  "quiet (\<lambda>w. fst (f w)) \<Longrightarrow> (\<And>x. quiet (\<lambda>w. fst (g x w))) \<Longrightarrow>
     quiet (\<lambda>w. fst (case opt of None \<Rightarrow> f w | Some x \<Rightarrow> g x w))"
  by (cases opt) (simp_all add: quiet_def)

lemmas quiet_rules = quiet_bind quiet_calls quiet_if quiet_option quiet_return

lemma quiet_stores [quiet_intros]:
  "quiet (\<lambda>w. fst (Store_GetReportDefinition pg ctx slug w))"
  "quiet (\<lambda>w. fst (Store_CreateRun pg ctx rq st w))"
  "quiet (\<lambda>w. fst (Store_MarkRunRunning pg ctx i w))"
  "quiet (\<lambda>w. fst (Store_MarkRunCompleted pg ctx i m w))"
  "quiet (\<lambda>w. fst (Store_MarkRunFailed pg ctx i msg w))"
  "quiet (\<lambda>w. fst (Store_CreateEntry ctx e w))"
  unfolding Store_GetReportDefinition_def Store_CreateRun_def Store_MarkRunRunning_def
    Store_MarkRunCompleted_def Store_MarkRunFailed_def Store_CreateEntry_def
  by (intro quiet_rules)+

lemma quiet_redis [quiet_intros]:
  "quiet (\<lambda>w. fst (RedisStore_TryAcquire srv ctx k tok d w))"
  "quiet (\<lambda>w. fst (RedisStore_Release srv ctx k tok w))"
  "quiet (\<lambda>w. fst (RedisStore_BumpVersion srv ctx slug w))"
  unfolding RedisStore_TryAcquire_def RedisStore_Release_def RedisStore_BumpVersion_def
  by (intro quiet_rules)+

lemma quiet_tx_call: "quiet (\<lambda>w. fst (tx_call ctx stmt copy w))"
  unfolding tx_call_def by (rule quiet_remote) simp

lemma quiet_RecomputeReport [quiet_intros]: "quiet (\<lambda>w. fst (Store_RecomputeReport pg ctx rq i w))"
  unfolding quiet_def
proof (intro allI impI)
  fix w :: "(pgdb, 'a) world"
  assume w: "w_script w = []"
  show "w_script (fst (Store_RecomputeReport pg ctx rq i w)) = [] \<and>
      w_now (fst (Store_RecomputeReport pg ctx rq i w)) = w_now w"
  proof (cases "ctx_done ctx (w_now w)")
    case True
    with w show ?thesis by (simp add: Store_RecomputeReport_def remote_def Let_def)
  next
    case False
    with w have "undisturbed ctx w" by (simp add: undisturbed_def)
    with w show ?thesis by (simp add: Store_RecomputeReport_undisturbed split: sum.split prod.split)
  qed
qed

lemma quiet_bumpCache [quiet_intros]: "quiet (bumpCache (api_recomputeService pg srv D ttl n) ctx slug)"
  unfolding bumpCache_def by (simp add: wiring_simps quiet_redis)

lemma quiet_processJob: "quiet (processJob rt (api_recomputeService pg srv D ttl n) ctx job)"
  unfolding quiet_def
proof (intro allI impI)
  fix w :: "(pgdb, 'a) world"
  assume w: "w_script w = []"
  let ?s = "api_recomputeService pg srv D ttl n :: (pgdb, 'a) world RecomputeService"
  let ?ctx = "WithTimeout ctx (rt_now rt w) (2 * ns_Minute)" and ?i = "job_runID job"
  let ?k = "job_lockKey job" and ?tok = "job_lockToken job"
  obtain w1 u where m: "Store_MarkRunRunning pg ?ctx ?i w = (w1, u)" by fastforce
  obtain w2 v where r: "Store_RecomputeReport pg ?ctx (job_request job) ?i w1 = (w2, v)" by fastforce
  note w1 = quietD [OF quiet_stores(3) m w] and w2 = quietD [OF quiet_RecomputeReport r]
  let ?fail = "\<lambda>err v. fst (RedisStore_Release srv ?ctx ?k ?tok (fst (Store_CreateEntry ?ctx (failedEntry job err)
      (fst (Store_MarkRunFailed pg ?ctx ?i (Error err) v)))))"
  let ?done = "\<lambda>sm v. fst (RedisStore_Release srv ?ctx ?k ?tok (fst (Store_CreateEntry ?ctx (completedEntry job sm)
      (bumpCache ?s ?ctx (rq_ReportSlug (job_request job))
        (fst (Store_MarkRunCompleted pg ?ctx ?i sm v))))))"
  have q: "quiet (\<lambda>v :: (pgdb, 'a) world. fst (RedisStore_Release srv ?ctx ?k ?tok v))" "\<And>err. quiet (?fail err)" "\<And>sm. quiet (?done sm)"
    by (intro quiet_intros quiet_comp [OF _ quiet_redis(2)] quiet_comp [OF _ quiet_stores(6)]
        quiet_comp [OF _ quiet_bumpCache])+
  have "processJob rt ?s ctx job w =
      (case u of Inl _ \<Rightarrow> fst (RedisStore_Release srv ?ctx ?k ?tok w1)
       | Inr _ \<Rightarrow> (case v of Inl err \<Rightarrow> ?fail err w2 | Inr sm \<Rightarrow> ?done sm w2))"
    using m r by (simp add: processJob_def Let_def wiring_simps split: sum.split)
  then show "w_script (processJob rt ?s ctx job w) = [] \<and> w_now (processJob rt ?s ctx job w) = w_now w"
    using q w1 w2 unfolding quiet_def by (simp split: sum.split)
qed

lemma quiet_Trigger:
  assumes "RecomputeService_Trigger (api_recomputeService pg srv D ttl n) ctx tok rq (w, q) = ((w', q'), r)"
    and "w_script w = []"
  shows "w_script w' = [] \<and> w_now w' = w_now w"
proof -
  note look = quietD [OF quiet_stores(1) _ assms(2)]
  note lock = quietD [OF quiet_redis(1)] and run = quietD [OF quiet_stores(2)]
  have rel: "quiet (\<lambda>v. fst (RedisStore_Release srv ctx (lockKey rq) tok v))" by (intro quiet_intros)
  have entry: "quiet (\<lambda>v. fst (Store_CreateEntry ctx (triggeredEntry rq' i) v))" for rq' i by (intro quiet_intros)
  have mark: "quiet (\<lambda>v. fst (Store_MarkRunFailed pg ctx i msg v))" for i msg by (intro quiet_intros)
  note rules = rel [unfolded quiet_def, rule_format] entry [unfolded quiet_def, rule_format] mark [unfolded quiet_def, rule_format]
  from assms(1) show ?thesis
  proof (cases rule: api_Trigger_cases)
    case (unknown err)
    with look [OF unknown(2)] show ?thesis by simp
  next
    case (unlocked w1 rep a err)
    with look [OF unlocked(2)] lock [OF unlocked(3)] show ?thesis by simp
  next
    case (uncreated w1 rep w2 w3 e)
    with look [OF uncreated(2)] lock [OF uncreated(3)] run [OF uncreated(4)] show ?thesis by (simp add: rules)
  next
    case (queued w1 rep w2 w3 run')
    with look [OF queued(2)] lock [OF queued(3)] run [OF queued(4)] show ?thesis by (simp add: rules)
  next
    case (full w1 rep w2 w3 run' w4 w5)
    with look [OF full(2)] lock [OF full(3)] run [OF full(4)] show ?thesis by (simp add: rules)
  qed (use assms(2) in simp)
qed

end
