(* ===== verification/Sample_Http.thy ===== *)
theory Sample_Http
  imports Api Sample_Service Quiet_Network
begin

section \<open>Sample requests\<close>

text \<open>
  A router that matches paths segment by segment, a configuration, and requests on the sample
  database, for the worked instances of the properties of the API.
\<close>

fun segments :: "string \<Rightarrow> string list" where
  "segments [] = [[]]"
| "segments (c # s) =
     (if c = CHR ''/'' then [] # segments s
      else case segments s of [] \<Rightarrow> [[c]] | x # xs \<Rightarrow> (c # x) # xs)"

fun match_segments :: "string list \<Rightarrow> string list \<Rightarrow> (string \<times> string) list option" where
  "match_segments [] [] = Some []"
| "match_segments (p # ps) (x # xs) =
     (if p \<noteq> [] \<and> hd p = CHR ''{'' then map_option ((#) (butlast (tl p), x)) (match_segments ps xs)
      else if p = x then match_segments ps xs else None)"
| "match_segments _ _ = None"

fun sample_chi_from :: "nat \<Rightarrow> bool \<Rightarrow> (string \<times> string) list \<Rightarrow> string \<Rightarrow> string \<Rightarrow> chi_outcome" where
  "sample_chi_from i seen [] m p = (if seen then ChiMethodNotAllowed else ChiNotFound)"
| "sample_chi_from i seen ((m', pat) # routes) m p =
     (case match_segments (segments pat) (segments p) of
        None \<Rightarrow> sample_chi_from (Suc i) seen routes m p
      | Some params \<Rightarrow> if m = m' then ChiRoute i params else sample_chi_from (Suc i) True routes m p)"

definition sample_chi :: chi_router where
  "sample_chi = sample_chi_from 0 False"

definition sample_env :: environment where
  "sample_env = (\<lambda>_. '''')(''DATABASE_URL'' := ''postgres://db/analytics'', ''REDIS_URL'' := ''redis://cache:6379/0'',
     ''MANAGEMENT_API_KEY'' := ''secret'', ''RECOMPUTE_QUEUE_SIZE'' := ''1'')"

definition sample_cfg :: Config where
  "sample_cfg = env_config sample_env"

lemma sample_cfg_simps:
  "cfg_ManagementAPIKey sample_cfg = ''secret''" "cfg_MaxReportRangeDays sample_cfg = 366"
  "cfg_RecomputeLockTTL sample_cfg = 15 * ns_Minute" "cfg_RecomputeQueueSize sample_cfg = 1"
  "cfg_Version sample_cfg = ''dev''" "cfg_RecomputeWorkers sample_cfg = 1"
proof -
  have "Atoi ''1'' = Some 1" by code_simp
  then show "cfg_ManagementAPIKey sample_cfg = ''secret''" "cfg_MaxReportRangeDays sample_cfg = 366"
    "cfg_RecomputeLockTTL sample_cfg = 15 * ns_Minute" "cfg_RecomputeQueueSize sample_cfg = 1"
    "cfg_Version sample_cfg = ''dev''" "cfg_RecomputeWorkers sample_cfg = 1"
    by (simp_all add: sample_cfg_def sample_env_def env_config_def getString_def getInt_def getDuration_def)
qed

lemma sample_loads: "Load sample_env = Inr sample_cfg"
  unfolding Load_Inr_iff using sample_cfg_simps by (simp add: sample_cfg_def sample_env_def)

definition sample_get :: "string \<Rightarrow> (string \<times> string) list \<Rightarrow> http_request" where
  "sample_get path query =
     \<lparr>hr_Method = ''GET'', hr_Path = path, hr_Query = query,
      hr_Header = [(''Authorization'', ''Bearer secret'')], hr_Body = None, hr_Ctx = None\<rparr>"

definition sample_post :: "(string \<times> json) list \<Rightarrow> http_request" where
  "sample_post kvs =
     \<lparr>hr_Method = ''POST'', hr_Path = ''/api/v1/recomputations'', hr_Query = [],
      hr_Header = [(''X-Management-Key'', ''secret'')], hr_Body = Some (JObj kvs), hr_Ctx = None\<rparr>"

definition sample_fields :: "(string \<times> json) list" where
  "sample_fields =
     [(''report_slug'', JStr ''status-counts''), (''window'', JStr ''day''),
      (''date_from'', JStr ''0001-01-11''), (''date_to'', JStr ''0001-01-11''),
      (''requested_by'', JStr ''ops'')]"

lemma sample_keys:
  "provided_key key_headers (sample_get p q) = ''secret''"
  "provided_key key_headers (sample_post b) = ''secret''"
proof -
  have trim: "TrimSpace ''Bearer secret'' = ''Bearer secret''" "TrimSpace ''secret'' = ''secret''"
    by (rule TrimSpace_graphic; simp add: graphic_def)+
  have "HasPrefix (ToLower ''Bearer secret'') ''bearer ''" "\<not> HasPrefix (ToLower ''secret'') ''bearer ''"
    by code_simp+
  with trim have "bearer_value ''Bearer secret'' = ''secret''" "bearer_value ''secret'' = ''secret''"
    by (simp_all add: bearer_value_def)
  note this [simp] trim [simp]
  show "provided_key key_headers (sample_get p q) = ''secret''"
    "provided_key key_headers (sample_post b) = ''secret''"
    by (simp_all add: key_headers_def sample_get_def sample_post_def Header_Get_def first_value_def)
qed

text \<open>The request that the sample body decodes to.\<close>

definition sample_ctx :: ctx where
  "sample_ctx = Some (midnight 12 + requestTimeout)"

lemma sample_ctx_undisturbed [simp]: "undisturbed sample_ctx sample_world"
  by (simp add: undisturbed_def sample_ctx_def requestTimeout_def ns_Second_def)

lemma sample_post_decoded:
  "decode_body (hr_Body (sample_post sample_fields)) =
     Some \<lparr>rb_ReportSlug = ''status-counts'', rb_Window = ''day'', rb_DateFrom = ''0001-01-11'',
           rb_DateTo = ''0001-01-11'', rb_RequestedBy = ''ops''\<rparr>"
  unfolding sample_post_def sample_fields_def http_request.simps by code_simp

lemma sample_dates:
  "parseDateRangeWithValues h now ''0001-01-11'' ''0001-01-11'' = Inr (midnight 10, midnight 10)"
proof -
  have "TrimSpace ''0001-01-11'' = ''0001-01-11''" by (rule TrimSpace_graphic) (simp_all add: graphic_def)
  moreover have "ParseDate ''0001-01-11'' = Some (midnight 10)" by code_simp
  ultimately show ?thesis by (simp add: parseDateRangeWithValues_def Let_def)
qed

lemma sample_post_request:
  "TrimSpace ''status-counts'' = ''status-counts''"
  "recompute_request \<lparr>rb_ReportSlug = ''status-counts'', rb_Window = ''day'', rb_DateFrom = ''0001-01-11'',
      rb_DateTo = ''0001-01-11'', rb_RequestedBy = ''ops''\<rparr> (sample_post sample_fields) (midnight 10, midnight 10) =
    sample_request ''day''"
proof -
  have trim: "TrimSpace ''status-counts'' = ''status-counts''" "TrimSpace ''ops'' = ''ops''"
    by (rule TrimSpace_graphic; simp add: graphic_def)+
  then show "TrimSpace ''status-counts'' = ''status-counts''" by simp
  have "normalizeWindow ''day'' = ''day''" by code_simp
  then show "recompute_request \<lparr>rb_ReportSlug = ''status-counts'', rb_Window = ''day'', rb_DateFrom = ''0001-01-11'',
      rb_DateTo = ''0001-01-11'', rb_RequestedBy = ''ops''\<rparr> (sample_post sample_fields) (midnight 10, midnight 10) =
    sample_request ''day''"
    by (simp add: recompute_request_def sample_request_def requester_def trim)
qed

lemma sample_post_served:
  "\<exists>w' q' run. api_serve id sample_pg keyspace_server sample_cfg sample_chi ''tok'' (sample_post sample_fields)
      (sample_world, []) = ((w', q'), writeJSON StatusAccepted (run_json run) None) \<and>
    map job_runID q' = [uuid_of 1] \<and> w_script w' = [] \<and> w_now w' = midnight 12"
proof -
  let ?r = "sample_post sample_fields" and ?h = "api_handler sample_pg keyspace_server sample_cfg"
  have chi: "sample_chi (map (\<lambda>ro. (ro_Method ro, ro_Pattern ro))
      (Routes (api_runtime id) ?h ''tok'' ''secret'')) (hr_Method ?r) (hr_Path ?r) = ChiRoute 4 []"
    unfolding Routes_def Let_def sample_post_def http_request.simps list.map route.simps by code_simp
  have ctx: "WithTimeout (hr_Ctx ?r) (midnight 12) requestTimeout = sample_ctx"
    by (simp add: sample_post_def sample_ctx_def)
  obtain w' q' run where t: "RecomputeService_Trigger (sample_service 1) sample_ctx ''tok'' (sample_request ''day'')
      (sample_world, []) = ((w', q'), Inr run)"
      "st_queue (abs_state ks_view (w', q')) = [(uuid_of 1, lockKey (sample_request ''day''), ''tok'')]"
    using sample_trigger_at [OF sample_ctx_undisturbed] by blast
  have "api_serve id sample_pg keyspace_server sample_cfg sample_chi ''tok'' ?r (sample_world, []) =
      ((w', q'), writeJSON StatusAccepted (run_json run) None)"
    using t(1)
    by (simp add: api_serve_def serve_def Let_def sample_cfg_simps chi ctx Routes_nth auth_accepts sample_keys
        triggerRecompute_def sample_post_decoded sample_post_request sample_dates)
  moreover have "map job_runID q' = [uuid_of 1]" using t(2) by (auto simp: abs_state_def job_entry_def)
  moreover have "w_script w' = [] \<and> w_now w' = midnight 12" using quiet_Trigger [OF t(1)] by simp
  ultimately show ?thesis by (intro exI [of _ w'] exI [of _ q'] exI [of _ run] conjI) simp_all
qed

end
