(* ===== verification/Http_Properties.thy ===== *)
theory Http_Properties
  imports Sample_Http Service_Facts
begin

section \<open>Properties of the HTTP API\<close>

text \<open>
  Which requests the management key guards and which can change the data, what an accepted
  trigger leaves behind, the statuses of errors, and the dates and pages of the answers. The
  router is any function; the network is any script.
\<close>

subsection \<open>Dispatch\<close>

definition api_routes :: "(string \<times> string) list" where
  "api_routes =
     [(''GET'', ''/api/v1/health''), (''GET'', ''/api/v1/reports''), (''GET'', ''/api/v1/reports/{slug}''),
      (''GET'', ''/api/v1/reports/{slug}/run''), (''POST'', ''/api/v1/recomputations''),
      (''GET'', ''/api/v1/recomputations/{id}''), (''GET'', ''/api/v1/audit-entries'')]"

lemma Routes_table [simp]:
  "map (\<lambda>ro. (ro_Method ro, ro_Pattern ro)) (Routes rt h tok apiKey) = api_routes"
  by (simp add: Routes_def api_routes_def Let_def)

definition chi_choice :: "chi_router \<Rightarrow> http_request \<Rightarrow> chi_outcome" where
  "chi_choice chi r = chi api_routes (hr_Method r) (hr_Path r)"

lemma api_serve_route:
  assumes "chi_choice chi r = ChiRoute i params" and "i < 7"
  shows "api_serve sha pg srv cfg chi tok r s =
    ro_Handler (Routes (api_runtime sha) (api_handler pg srv cfg) tok (cfg_ManagementAPIKey cfg) ! i)
      (WithTimeout (hr_Ctx r) (w_now (fst s)) requestTimeout) params r s"
  using assms by (simp add: api_serve_def serve_def Let_def chi_choice_def)

lemma api_serve_elsewhere:
  assumes "\<not> (\<exists>i params. chi_choice chi r = ChiRoute i params \<and> i < 7)"
  shows "fst (api_serve sha pg srv cfg chi tok r s) = s"
    "resp_Status (snd (api_serve sha pg srv cfg chi tok r s)) \<noteq> StatusAccepted"
  using assms
  by (cases "chi_choice chi r";
      auto simp: api_serve_def serve_def Let_def chi_choice_def notFound_def http_status_defs)+

text \<open>A request that is not an authenticated trigger leaves the database and the channel alone.\<close>

lemma api_serve_reads:
  assumes "\<not> (provided_key key_headers r = cfg_ManagementAPIKey cfg \<and>
    (\<exists>params. chi_choice chi r = ChiRoute 4 params))"
  shows "w_db (fst (fst (api_serve sha pg srv cfg chi tok r s))) = w_db (fst s) \<and>
    snd (fst (api_serve sha pg srv cfg chi tok r s)) = snd s \<and>
    resp_Status (snd (api_serve sha pg srv cfg chi tok r s)) \<noteq> StatusAccepted"
proof (cases "\<exists>i params. chi_choice chi r = ChiRoute i params \<and> i < 7")
  case False
  show ?thesis by (simp add: api_serve_elsewhere [OF False])
next
  case True
  then obtain i params where i: "chi_choice chi r = ChiRoute i params" "i < 7" by blast
  show ?thesis
  proof (cases "i = 4")
    case True
    with assms i have "provided_key key_headers r \<noteq> cfg_ManagementAPIKey cfg" by blast
    with True show ?thesis
      by (simp add: api_serve_route [OF i] Routes_nth auth_refuses http_status_defs)
  next
    case False
    show ?thesis
      unfolding api_serve_route [OF i] by (rule read_handlerD [OF read_routes [OF i(2) False]])
  qed
qed

subsection \<open>The management key\<close>

definition management_routes :: "(string \<times> string) list" where
  "management_routes =
     [(''POST'', ''/api/v1/recomputations''), (''GET'', ''/api/v1/recomputations/{id}''),
      (''GET'', ''/api/v1/audit-entries'')]"

lemma management_index:
  assumes "i < 7" and "api_routes ! i \<in> set management_routes"
  shows "i = 4 \<or> i = 5 \<or> i = 6"
proof -
  have "i = 0 \<or> i = 1 \<or> i = 2 \<or> i = 3 \<or> i = 4 \<or> i = 5 \<or> i = 6" using assms(1) by linarith
  with assms(2) show ?thesis
    by (elim disjE) (simp_all add: api_routes_def management_routes_def eval_nat_numeral)
qed

lemma management_refused:
  assumes "chi_choice chi r = ChiRoute i params" and "i < 7" and "api_routes ! i \<in> set management_routes"
    and "provided_key key_headers r \<noteq> cfg_ManagementAPIKey cfg"
  shows "api_serve sha pg srv cfg chi tok r s =
    (s, writeError StatusUnauthorized ''unauthorized'' ''management authentication failed'' None)"
  using management_index [OF assms(2,3)] assms(4)
  by (elim disjE) (simp_all add: api_serve_route [OF assms(1,2)] Routes_nth auth_refuses)

text \<open>C29: Under a configuration that the environment gives, a management route is closed to a request
  that carries no key: with both headers absent or blank the answer is 401 and neither the
  stores nor the channel have changed. An empty MANAGEMENT_API_KEY does not open the routes.\<close>

theorem no_key_no_management:
  assumes "Load env = Inr cfg" and "chi_choice chi r = ChiRoute i params" and "i < 7"
    and "api_routes ! i \<in> set management_routes"
    and "TrimSpace (Header_Get r ''X-Management-Key'') = ''''" and "TrimSpace (Header_Get r ''Authorization'') = ''''"
  shows "api_serve sha pg srv cfg chi tok r s =
    (s, writeError StatusUnauthorized ''unauthorized'' ''management authentication failed'' None)"
proof (rule management_refused [OF assms(2-4)])
  have "cfg_ManagementAPIKey cfg \<noteq> ''''"
    using assms(1) by (simp add: Load_Inr_iff env_config_def getString_nonempty)
  moreover have "provided_key key_headers r = ''''" using assms(5,6) by (simp add: key_headers_def)
  ultimately show "provided_key key_headers r \<noteq> cfg_ManagementAPIKey cfg" by simp
qed

theorem no_key_no_management_witness:
  "resp_Status (snd (api_serve id sample_pg keyspace_server sample_cfg sample_chi ''tok''
      ((sample_get ''/api/v1/audit-entries'' [])\<lparr>hr_Header := []\<rparr>) (sample_world, []))) = 401"
proof -
  let ?r = "(sample_get ''/api/v1/audit-entries'' [])\<lparr>hr_Header := []\<rparr>"
  have "chi_choice sample_chi ?r = ChiRoute 6 []"
    unfolding chi_choice_def api_routes_def sample_get_def http_request.simps by code_simp
  moreover have "api_routes ! 6 \<in> set management_routes"
    by (simp add: api_routes_def management_routes_def eval_nat_numeral)
  ultimately show ?thesis
    using no_key_no_management [OF sample_loads, of sample_chi ?r 6 "[]" id sample_pg keyspace_server "''tok''"]
    by (simp add: Header_Get_def first_value_def StatusUnauthorized_def)
qed

text \<open>C30: Whatever the router does and whatever fails on the network, a request changes the database or
  the channel of jobs only if it was routed to POST /api/v1/recomputations and its key is the
  management key.\<close>

theorem only_trigger_writes:
  assumes "api_serve sha pg srv cfg chi tok r (w, q) = ((w', q'), resp)" and "w_db w' \<noteq> w_db w \<or> q' \<noteq> q"
  shows "provided_key key_headers r = cfg_ManagementAPIKey cfg \<and>
    (\<exists>params. chi_choice chi r = ChiRoute 4 params) \<and> api_routes ! 4 = (''POST'', ''/api/v1/recomputations'')"
proof -
  have "provided_key key_headers r = cfg_ManagementAPIKey cfg \<and> (\<exists>params. chi_choice chi r = ChiRoute 4 params)"
  proof (rule ccontr)
    assume no: "\<not> ?thesis"
    show False using api_serve_reads [OF no, of sha pg srv tok "(w, q)"] assms by simp
  qed
  then show ?thesis by (simp add: api_routes_def eval_nat_numeral)
qed

theorem only_trigger_writes_witness:
  "provided_key key_headers (sample_post sample_fields) = cfg_ManagementAPIKey sample_cfg"
proof -
  obtain w' q' run where "api_serve id sample_pg keyspace_server sample_cfg sample_chi ''tok''
      (sample_post sample_fields) (sample_world, []) = ((w', q'), writeJSON StatusAccepted (run_json run) None)"
      "map job_runID q' = [uuid_of 1]"
    using sample_post_served by (elim exE conjE)
  moreover from this(2) have "q' \<noteq> []" by auto
  ultimately show ?thesis using only_trigger_writes by blast
qed

subsection \<open>Accepted triggers\<close>

lemma triggerRecompute_cases:
  assumes "triggerRecompute rt h tok ctx params r s = (s', resp)"
  obtains (rejected) e where "s' = s" "resp = handleError e" "errors_As e \<noteq> None" "fst (the (errors_As e)) = ErrCodeInvalid"
    | (failed) body dates e where "decode_body (hr_Body r) = Some body" "resp = handleError e"
        "RecomputeService_Trigger (h_recompute h) ctx tok (recompute_request body r dates) s = (s', Inl e)"
    | (accepted) rq run where "RecomputeService_Trigger (h_recompute h) ctx tok rq s = (s', Inr run)"
        "resp = writeJSON StatusAccepted (run_json run) None"
proof -
  note T = assms [unfolded triggerRecompute_def]
  have dates: "\<exists>m. e = NewAppError ErrCodeInvalid m"
    if "parseDateRangeWithValues h now a b = Inl e" for now a b e
    using that by (auto simp: parseDateRangeWithValues_def Let_def split: option.splits if_splits)
  show ?thesis
  proof (cases "decode_body (hr_Body r)")
    case None
    with T show ?thesis by (intro rejected) auto
  next
    case (Some body)
    show ?thesis
    proof (cases "TrimSpace (rb_ReportSlug body) = ''''")
      case True
      with Some T show ?thesis by (intro rejected) auto
    next
      case False
      show ?thesis
      proof (cases "parseDateRangeWithValues h (rt_now rt (fst s)) (rb_DateFrom body) (rb_DateTo body)")
        case (Inl e)
        with Some False T dates [OF Inl] show ?thesis by (intro rejected [of e]) auto
      next
        case (Inr dt)
        let ?rq = "recompute_request body r dt"
        obtain s1 x where t: "RecomputeService_Trigger (h_recompute h) ctx tok ?rq s = (s1, x)" by fastforce
        with Some False Inr T show ?thesis
          by (cases x) (auto intro: failed [of body] accepted [of ?rq])
      qed
    qed
  qed
qed

text \<open>What an authenticated POST of a recomputation runs, and any request that is accepted.\<close>

lemma api_serve_trigger:
  assumes "provided_key key_headers r = cfg_ManagementAPIKey cfg" and "chi_choice chi r = ChiRoute 4 params"
  shows "api_serve sha pg srv cfg chi tok r s =
    triggerRecompute (api_runtime sha) (api_handler pg srv cfg) tok
      (WithTimeout (hr_Ctx r) (w_now (fst s)) requestTimeout) params r s"
  using assms by (simp add: api_serve_route Routes_nth auth_accepts)

lemma accepted_trigger:
  assumes "api_serve sha pg srv cfg chi tok r s = (s', resp)" and "resp_Status resp = StatusAccepted"
  obtains rq run ctx where "RecomputeService_Trigger (h_recompute (api_handler pg srv cfg)) ctx tok rq s = (s', Inr run)"
    "resp = writeJSON StatusAccepted (run_json run) None"
proof -
  have "provided_key key_headers r = cfg_ManagementAPIKey cfg \<and> (\<exists>params. chi_choice chi r = ChiRoute 4 params)"
  proof (rule ccontr)
    assume no: "\<not> ?thesis"
    show False using api_serve_reads [OF no, of sha pg srv tok s] assms by simp
  qed
  then obtain params where "triggerRecompute (api_runtime sha) (api_handler pg srv cfg) tok
      (WithTimeout (hr_Ctx r) (w_now (fst s)) requestTimeout) params r s = (s', resp)"
    using assms(1) api_serve_trigger by metis
  then show ?thesis
    using that assms(2) by (cases rule: triggerRecompute_cases) auto
qed

text \<open>C16: The status 202 tells the truth, on every network: exactly when it is answered one job has been
  appended to the channel, which had room, and the run in the answer's body is new and
  pending; with every other status the channel is as before and every run that existed has
  kept its state.\<close>

theorem accepted_means_queued:
  assumes "postgres_server pg" and "api_serve sha pg srv cfg chi tok r (w, q) = ((w', q'), resp)"
  shows "if resp_Status resp = StatusAccepted
    then \<exists>run job. resp = writeJSON StatusAccepted (run_json run) None \<and>
      run_status (w_db w) (run_ID run) = None \<and> run_status (w_db w') (run_ID run) = Some RunStatusPending \<and>
      int (length q) < cfg_RecomputeQueueSize cfg \<and> q' = q @ [job] \<and> job_runID job = run_ID run
    else q' = q \<and> (\<forall>i. run_status (w_db w) i \<noteq> None \<longrightarrow> run_status (w_db w') i = run_status (w_db w) i)"
proof (cases "provided_key key_headers r = cfg_ManagementAPIKey cfg \<and> (\<exists>params. chi_choice chi r = ChiRoute 4 params)")
  case False
  from api_serve_reads [OF this, of sha pg srv tok "(w, q)"] assms(2) show ?thesis by simp
next
  case True
  then obtain params where "chi_choice chi r = ChiRoute 4 params" by blast
  with assms(2) True have "triggerRecompute (api_runtime sha) (api_handler pg srv cfg) tok
      (WithTimeout (hr_Ctx r) (w_now w) requestTimeout) params r (w, q) = ((w', q'), resp)"
    by (simp add: api_serve_trigger)
  then show ?thesis
  proof (cases rule: triggerRecompute_cases)
    case (rejected e)
    then show ?thesis by simp
  next
    case (failed body dates e)
    from postgres_server.trigger_status [OF assms(1) failed(3) [unfolded api_handler_simps]] failed(2)
    show ?thesis by auto
  next
    case (accepted rq run)
    from postgres_server.trigger_status [OF assms(1) accepted(1) [unfolded api_handler_simps]] accepted(2)
    show ?thesis by (auto simp: wiring_simps)
  qed
qed

theorem accepted_means_queued_witness:
  "\<exists>w' q' run. api_serve id sample_pg keyspace_server sample_cfg sample_chi ''tok'' (sample_post sample_fields)
      (sample_world, []) = ((w', q'), writeJSON StatusAccepted (run_json run) None) \<and>
    length q' = 1 \<and> run_status (w_db w') (job_runID (hd q')) = Some RunStatusPending"
proof -
  obtain w' q' run where t: "api_serve id sample_pg keyspace_server sample_cfg sample_chi ''tok''
      (sample_post sample_fields) (sample_world, []) = ((w', q'), writeJSON StatusAccepted (run_json run) None)"
    using sample_post_served by (elim exE conjE)
  from accepted_means_queued [OF sample.postgres_server_axioms t] t show ?thesis by auto
qed

subsection \<open>Reading the run back\<close>

lemma Trigger_created:
  assumes "RecomputeService_Trigger s ctx tok rq (w, q) = ((w', q'), Inr run)"
  shows "\<exists>w2 w3. CreateRun (rcs_runs s) ctx (defaultRequester rq) RunStatusPending w2 = (w3, Inr run) \<and>
    w' = fst (CreateEntry (rcs_audits s) ctx (triggeredEntry (defaultRequester rq) (run_ID run)) w3)"
  using assms by (cases rule: Trigger_cases) auto

text \<open>The run that was created is the one that the database now has under its identifier.\<close>

lemma CreateRun_found:
  assumes "postgres_server pg" and "Store_CreateRun pg ctx rq st w = (w', Inr run)"
  shows "\<exists>row. pgs_uuid_text pg (run_ID run) = Some (run_ID run) \<and>
    filter (\<lambda>r. rn_id r = run_ID run) (db_runs (w_db w')) = [row] \<and> scan_run row = Inr run"
proof -
  let ?d = "w_db w" let ?row = "\<lambda>t. new_run pg rq st t ?d"
  from db_call_Inr(1) [OF assms(2) [unfolded Store_CreateRun_def]] obtain t where
      ins: "insert_run (?row t) (?d\<lparr>db_uuids := db_uuids ?d + 1\<rparr>) = Inr (w_db w')"
    and sc: "scan_run (?row t) = Inr run"
    by (auto simp: Let_def split: sum.splits)
  have rid: "run_ID run = rn_id (?row t)"
    using sc by (auto simp: scan_run_def run_of_row_def split: sum.splits)
  then have "pgs_uuid_text pg (run_ID run) = Some (run_ID run)"
    using postgres_server.uuid_text [OF assms(1)] by (simp add: new_run_def)
  moreover have "db_runs (w_db w') = db_runs ?d @ [?row t]" "\<not> run_exists ?d (rn_id (?row t))"
    using ins by (auto simp: insert_run_Inr_iff run_exists_def)
  ultimately show ?thesis
    using sc rid by (intro exI [of _ "?row t"]) (auto simp: run_exists_def filter_empty_conv image_iff)
qed

lemma CreateEntry_runs: "db_runs (w_db (fst (Store_CreateEntry ctx e w))) = db_runs (w_db w)"
  unfolding Store_CreateEntry_def by (rule db_call_keeps) simp

text \<open>C15: A run can be read back: after an accepted trigger, on whatever network, a served GET of the
  run's identifier under the management key answers 200 with the very document that the
  trigger answered.\<close>

theorem triggered_run_readable:
  assumes "postgres_server pg" and "api_serve sha pg srv cfg chi tok r (w, q) = ((w', q'), resp)"
    and "resp_Status resp = StatusAccepted"
  shows "\<exists>run. resp = writeJSON StatusAccepted (run_json run) None \<and> job_runID (last q') = run_ID run \<and>
    (\<forall>g. chi_choice chi g = ChiRoute 5 [(''id'', run_ID run)] \<and>
       provided_key key_headers g = cfg_ManagementAPIKey cfg \<and>
       undisturbed (WithTimeout (hr_Ctx g) (w_now w') requestTimeout) w' \<longrightarrow>
       snd (api_serve sha pg srv cfg chi tok' g (w', q')) = writeJSON StatusOK (run_json run) None)"
proof -
  obtain rq run ctx where t: "RecomputeService_Trigger (h_recompute (api_handler pg srv cfg)) ctx tok rq (w, q) =
      ((w', q'), Inr run)" "resp = writeJSON StatusAccepted (run_json run) None"
    using assms(2,3) by (rule accepted_trigger)
  from Trigger_created [OF t(1)] obtain w2 w3 e where c: "Store_CreateRun pg ctx (defaultRequester rq)
      RunStatusPending w2 = (w3, Inr run)" "w' = fst (Store_CreateEntry ctx e w3)"
    by (auto simp: wiring_simps)
  from CreateRun_found [OF assms(1) c(1)] obtain row where row: "pgs_uuid_text pg (run_ID run) = Some (run_ID run)"
      "filter (\<lambda>r. rn_id r = run_ID run) (db_runs (w_db w')) = [row]" "scan_run row = Inr run"
    by (auto simp: c(2) CreateEntry_runs)
  have "Store_GetRun pg ctx' (run_ID run) w' = (w', Inr run)" if "undisturbed ctx' w'" for ctx'
    using row by (simp add: Store_GetRun_def db_call_undisturbed [OF that])
  then have "snd (api_serve sha pg srv cfg chi tok' g (w', q')) = writeJSON StatusOK (run_json run) None"
    if "chi_choice chi g = ChiRoute 5 [(''id'', run_ID run)]"
      "provided_key key_headers g = cfg_ManagementAPIKey cfg"
      "undisturbed (WithTimeout (hr_Ctx g) (w_now w') requestTimeout) w'" for g
    using that
    by (simp add: api_serve_route Routes_nth auth_accepts getRecomputeRun_def RecomputeService_GetRun_def answer_def
        URLParam_def first_value_def wiring_simps)
  moreover have "job_runID (last q') = run_ID run"
    using postgres_server.trigger_status [OF assms(1) t(1) [unfolded api_handler_simps]] by auto
  ultimately show ?thesis using t(2) by blast
qed

theorem triggered_run_readable_witness:
  "\<exists>s' run. api_serve id sample_pg keyspace_server sample_cfg sample_chi ''tok'' (sample_post sample_fields)
      (sample_world, []) = (s', writeJSON StatusAccepted (run_json run) None) \<and>
    snd (api_serve id sample_pg keyspace_server sample_cfg sample_chi ''tok2''
      (sample_get ''/api/v1/recomputations/00000000-0000-4000-8000-000000000001'' []) s') =
    writeJSON StatusOK (run_json run) None"
proof -
  let ?g = "sample_get ''/api/v1/recomputations/00000000-0000-4000-8000-000000000001'' []"
  obtain w' q' run0 where t: "api_serve id sample_pg keyspace_server sample_cfg sample_chi ''tok''
      (sample_post sample_fields) (sample_world, []) = ((w', q'), writeJSON StatusAccepted (run_json run0) None)"
      "map job_runID q' = [uuid_of 1]" "w_script w' = []" "w_now w' = midnight 12"
    using sample_post_served by (elim exE conjE)
  from triggered_run_readable [OF sample.postgres_server_axioms t(1), where tok' = "''tok2''"]
  obtain run where run: "writeJSON StatusAccepted (run_json run0) None = writeJSON StatusAccepted (run_json run) None"
      "job_runID (last q') = run_ID run"
      "\<And>g. chi_choice sample_chi g = ChiRoute 5 [(''id'', run_ID run)] \<Longrightarrow>
         provided_key key_headers g = cfg_ManagementAPIKey sample_cfg \<Longrightarrow>
         undisturbed (WithTimeout (hr_Ctx g) (w_now w') requestTimeout) w' \<Longrightarrow>
         snd (api_serve id sample_pg keyspace_server sample_cfg sample_chi ''tok2'' g (w', q')) =
           writeJSON StatusOK (run_json run) None"
    by auto
  have "run_ID run = ''00000000-0000-4000-8000-000000000001''"
    using run(2) t(2) uuid_values(2) by (auto simp: last_map [symmetric])
  moreover have "chi_choice sample_chi ?g = ChiRoute 5 [(''id'', ''00000000-0000-4000-8000-000000000001'')]"
    unfolding chi_choice_def api_routes_def sample_get_def http_request.simps by code_simp
  moreover have "undisturbed (WithTimeout (hr_Ctx ?g) (w_now w') requestTimeout) w'"
    using t(3,4) by (simp add: sample_get_def undisturbed_def requestTimeout_def ns_Second_def)
  ultimately have "snd (api_serve id sample_pg keyspace_server sample_cfg sample_chi ''tok2'' ?g (w', q')) =
      writeJSON StatusOK (run_json run) None"
    using run(3) [of ?g] by (simp add: sample_keys sample_cfg_simps)
  with t(1) run(1) show ?thesis by auto
qed

subsection \<open>Refused triggers\<close>

lemma handleError_new:
  "handleError (NewAppError ErrCodeInvalid m) = writeError StatusBadRequest ErrCodeInvalid m None"
  "handleError (NewAppError ErrCodeNotFound m) = writeError StatusNotFound ErrCodeNotFound m None"
  "handleError (NewAppError ErrCodeConflict m) = writeError StatusConflict ErrCodeConflict m None"
  "handleError (NewAppError ErrCodeUnavailable m) =
     writeError StatusServiceUnavailable ErrCodeUnavailable m None"
  "handleError (WrapAppError ErrCodeInternal m e) =
     writeError StatusInternalServerError ErrCodeInternal m None"
  "errors_As e = None \<Longrightarrow> handleError e =
     writeError StatusInternalServerError ErrCodeInternal (''internal error: '' @ Error e) None"
  by (simp_all add: handleError_def code_defs)

text \<open>The request that a body asks for, if it can be decoded and passes every check.\<close>

definition trigger_request :: "'w Handler \<Rightarrow> gotime \<Rightarrow> http_request \<Rightarrow> RecomputeRequest option" where
  "trigger_request h now r =
     (case decode_body (hr_Body r) of
        None \<Rightarrow> None
      | Some body \<Rightarrow>
          if TrimSpace (rb_ReportSlug body) = '''' then None
          else
            (case parseDateRangeWithValues h now (rb_DateFrom body) (rb_DateTo body) of
               Inl err \<Rightarrow> None
             | Inr dates \<Rightarrow>
                 if checkRequest (h_recompute h) (recompute_request body r dates) = None
                 then Some (recompute_request body r dates) else None))"

definition public_report :: "pgdb \<Rightarrow> string \<Rightarrow> bool" where
  "public_report d slug \<longleftrightarrow> list_ex (\<lambda>r. df_slug r = slug \<and> df_is_public r) (db_definitions d)"

text \<open>One of the three calls that a trigger needs came back with an error of its store.\<close>

definition trigger_call_fails ::
    "pg_server \<Rightarrow> 'r redis_server \<Rightarrow> duration \<Rightarrow> ctx \<Rightarrow> string \<Rightarrow> RecomputeRequest \<Rightarrow> (pgdb, 'r) world \<Rightarrow> bool" where
  "trigger_call_fails pg srv ttl ctx tok rq w =
     (case Store_GetReportDefinition pg ctx (rq_ReportSlug rq) w of
        (w1, Inl err) \<Rightarrow> errors_As err = None
      | (w1, Inr report) \<Rightarrow>
          (case RedisStore_TryAcquire srv ctx (lockKey rq) tok ttl w1 of
             (w2, Inl err) \<Rightarrow> True
           | (w2, Inr False) \<Rightarrow> False
           | (w2, Inr True) \<Rightarrow>
               (case Store_CreateRun pg ctx (defaultRequester rq) RunStatusPending w2 of
                  (w3, Inl err) \<Rightarrow> True
                | (w3, Inr run) \<Rightarrow> False)))"

lemma triggerRecompute_valid:
  assumes "triggerRecompute rt h tok ctx params r s = (s', resp)" and "trigger_request h (rt_now rt (fst s)) r = Some rq"
  obtains x where "checkRequest (h_recompute h) rq = None" "RecomputeService_Trigger (h_recompute h) ctx tok rq s = (s', x)"
    "resp = (case x of Inl e \<Rightarrow> handleError e | Inr run \<Rightarrow> writeJSON StatusAccepted (run_json run) None)"
proof -
  from assms(2) obtain body dates where "decode_body (hr_Body r) = Some body" "TrimSpace (rb_ReportSlug body) \<noteq> ''''"
      "parseDateRangeWithValues h (rt_now rt (fst s)) (rb_DateFrom body) (rb_DateTo body) = Inr dates"
      "rq = recompute_request body r dates" "checkRequest (h_recompute h) rq = None"
    by (auto simp: trigger_request_def split: option.splits sum.splits if_splits)
  with assms(1) that show ?thesis
    by (auto simp: triggerRecompute_def split: prod.splits sum.splits)
qed

lemma triggerRecompute_invalid:
  assumes "triggerRecompute rt h tok ctx params r (w, q) = (s', resp)" and "trigger_request h (rt_now rt w) r = None"
  shows "s' = (w, q) \<and> resp_Status resp = 400"
proof -
  have bad: "\<exists>m. e = NewAppError ErrCodeInvalid m" if "parseDateRangeWithValues h now a b = Inl e" for now a b e
    using that by (auto simp: parseDateRangeWithValues_def Let_def split: option.splits if_splits)
  have check: "RecomputeService_Trigger (h_recompute h) ctx tok rq (w, q) = ((w, q), Inl e) \<and> resp_Status (handleError e) = 400"
    if "checkRequest (h_recompute h) rq = Some e" for rq e
    using that checkRequest_code [OF that]
    by (auto simp: RecomputeService_Trigger_def handleError_new StatusBadRequest_def)
  show ?thesis
  proof (cases "decode_body (hr_Body r)")
    case None
    with assms(1) show ?thesis by (auto simp: triggerRecompute_def handleError_new StatusBadRequest_def)
  next
    case (Some body)
    show ?thesis
    proof (cases "parseDateRangeWithValues h (rt_now rt w) (rb_DateFrom body) (rb_DateTo body)")
      case (Inl e)
      with Some assms(1) bad [OF Inl] show ?thesis
        by (auto simp: triggerRecompute_def handleError_new StatusBadRequest_def split: if_splits)
    next
      case (Inr dates)
      with Some assms check [of "recompute_request body r dates"] show ?thesis
        by (auto simp: triggerRecompute_def trigger_request_def handleError_new StatusBadRequest_def split: if_splits)
    qed
  qed
qed

lemma lookup_outcome:
  assumes "Store_GetReportDefinition pg ctx slug w = (w', x)"
  shows "x = Inr report \<Longrightarrow> public_report (w_db w) slug"
    and "x = Inl e \<Longrightarrow> errors_As e \<noteq> None \<Longrightarrow>
      e = NewAppError ErrCodeNotFound ''report was not found'' \<and> \<not> public_report (w_db w) slug"
  using GetReportDefinition_Inl [of pg ctx slug w w' e] GetReportDefinition_Inr [of pg ctx slug w w' report] assms
  by (auto simp: public_report_def list_ex_iff)

lemma errors_As_codes [simp]:
  "errors_As (NewAppError c m) \<noteq> None" "errors_As (WrapAppError c m e) \<noteq> None"
  by simp_all

text \<open>The status that a valid trigger gets, by what it met; \<open>held\<close> is whether its lock was.\<close>

definition trigger_code :: "bool \<Rightarrow> bool \<Rightarrow> bool \<Rightarrow> bool \<Rightarrow> int" where
  "trigger_code fails public held room =
     (if fails then 500 else if \<not> public then 404 else if held then 409 else if room then 202 else 503)"

context redis_protocol begin

lemma Trigger_answer:
  assumes t: "RecomputeService_Trigger (api_recomputeService pg srv D ttl n) ctx tok rq (w, q) = ((w', q'), x)"
    and ttl: "valid_ttl ttl" and ok: "checkRequest (api_recomputeService pg srv D ttl n) rq = None"
    and resp: "resp = (case x of Inl e \<Rightarrow> handleError e | Inr run \<Rightarrow> writeJSON StatusAccepted (run_json run) None)"
  shows "\<exists>t. w_now w \<le> t \<and> t \<le> w_now w' \<and>
    resp_Status resp = trigger_code (trigger_call_fails pg srv ttl ctx tok rq w) (public_report (w_db w) (rq_ReportSlug rq))
      (view t (w_rd w) (lockKey rq) \<noteq> None) (length q < n)"
proof -
  note status = trigger_code_def trigger_call_fails_def handleError_new http_status_defs resp
  show ?thesis
  proof (cases "Store_GetReportDefinition pg ctx (rq_ReportSlug rq) w")
    case (Pair w1 d)
    note later = reads_onlyD(3) [OF reads_only_GetReportDefinition Pair]
    show ?thesis
    proof (cases d)
      case (Inl e)
      from t have "x = Inl e" "w' = w1" by (cases rule: api_Trigger_cases; use ok Pair Inl in simp)+
      with lookup_outcome(2) [OF Pair Inl] later Pair Inl show ?thesis
        by (intro exI [of _ "w_now w"]) (auto simp: status)
    next
      case (Inr rep)
      note public = lookup_outcome(1) [OF Pair Inr]
      obtain w2 a where a: "RedisStore_TryAcquire srv ctx (lockKey rq) tok ttl w1 = (w2, a)" by fastforce
      note times = Trigger_times [OF t ttl ok Pair [unfolded Inr] a]
      have rd: "w_rd w1 = w_rd w" using reads_onlyD [OF reads_only_GetReportDefinition Pair] by simp
      note law = TryAcquire_law [OF ttl a, unfolded rd]
      have "resp_Status resp = trigger_code (trigger_call_fails pg srv ttl ctx tok rq w)
          (public_report (w_db w) (rq_ReportSlug rq)) (view (w_now w2) (w_rd w) (lockKey rq) \<noteq> None) (length q < n)"
        using t by (cases rule: api_Trigger_cases)
          (use ok Pair Inr a law public in \<open>auto simp: status split: sum.splits\<close>)
      with times show ?thesis by (intro exI [of _ "w_now w2"]) auto
    qed
  qed
qed

end

text \<open>Up to the creation of the run a trigger has written nothing to the database.\<close>

lemma Trigger_unwritten:
  assumes t: "RecomputeService_Trigger (api_recomputeService pg srv D ttl n) ctx tok rq (w, q) = ((w', q'), x)"
    and resp: "resp = (case x of Inl e \<Rightarrow> handleError e | Inr run \<Rightarrow> writeJSON StatusAccepted (run_json run) None)"
  shows "resp_Status resp = 404 \<Longrightarrow> w_db w' = w_db w \<and> w_rd w' = w_rd w" "resp_Status resp = 409 \<Longrightarrow> w_db w' = w_db w"
proof -
  note status = handleError_new http_status_defs resp
  have look: "w_db w1 = w_db w \<and> w_rd w1 = w_rd w"
    if "Store_GetReportDefinition pg ctx (rq_ReportSlug rq) w = (w1, d)" for w1 d
    using reads_onlyD [OF reads_only_GetReportDefinition that] by simp
  have lock: "w_db w2 = w_db w1" if "RedisStore_TryAcquire srv ctx (lockKey rq) tok ttl w1 = (w2, a)" for w1 w2 a
    using redis_frames(1) [of srv ctx "lockKey rq" tok ttl w1] by (simp add: that)
  from t show "resp_Status resp = 404 \<Longrightarrow> w_db w' = w_db w \<and> w_rd w' = w_rd w"
    by (cases rule: api_Trigger_cases) (auto simp: status dest: look split: sum.splits)
  from t show "resp_Status resp = 409 \<Longrightarrow> w_db w' = w_db w"
    by (cases rule: api_Trigger_cases) (auto simp: status dest!: look lock split: sum.splits)
qed

text \<open>C31: The status of an authenticated trigger is its cause, on every network. It is 400, with nothing
  changed, exactly when the body does not give a valid request. For a valid one there is an
  instant of the call such that the status is 500 exactly when the lookup, the acquisition of
  the lock or the creation of the run came back with an error of its store, otherwise 404
  exactly when the catalog has no public report of the slug, otherwise 409 exactly when the
  lock of the scope was held at that instant, otherwise 503 exactly when the channel has no
  room, and 202 where none of these is so. With 404 both stores are as before, with 409 the
  database is.\<close>

theorem refusals_explained:
  assumes "redis_protocol srv view" and "valid_ttl (cfg_RecomputeLockTTL cfg)"
    and "api_serve sha pg srv cfg chi tok r (w, q) = ((w', q'), resp)"
    and "chi_choice chi r = ChiRoute 4 params" and "provided_key key_headers r = cfg_ManagementAPIKey cfg"
  shows "case trigger_request (api_handler pg srv cfg :: (pgdb, 'r) world Handler) (w_now w) r of
      None \<Rightarrow> resp_Status resp = 400 \<and> w' = w \<and> q' = q
    | Some rq \<Rightarrow>
        (\<exists>t. w_now w \<le> t \<and> t \<le> w_now w' \<and>
           resp_Status resp = trigger_code
             (trigger_call_fails pg srv (cfg_RecomputeLockTTL cfg) (WithTimeout (hr_Ctx r) (w_now w) requestTimeout) tok rq w)
             (public_report (w_db w) (rq_ReportSlug rq)) (view t (w_rd w) (lockKey rq) \<noteq> None)
             (int (length q) < cfg_RecomputeQueueSize cfg)) \<and>
        (resp_Status resp = 404 \<longrightarrow> w_db w' = w_db w \<and> w_rd w' = w_rd w) \<and>
        (resp_Status resp = 409 \<longrightarrow> w_db w' = w_db w)"
proof -
  let ?h = "api_handler pg srv cfg :: (pgdb, 'r) world Handler"
  have run: "triggerRecompute (api_runtime sha) ?h tok
      (WithTimeout (hr_Ctx r) (w_now w) requestTimeout) params r (w, q) = ((w', q'), resp)"
    using assms(3-5) by (simp add: api_serve_trigger)
  show ?thesis
  proof (cases "trigger_request ?h (w_now w) r")
    case None
    with triggerRecompute_invalid [OF run] show ?thesis by simp
  next
    case (Some rq)
    from triggerRecompute_valid [OF run, of rq] Some obtain x where
        "checkRequest (h_recompute ?h) rq = None" and
        t: "RecomputeService_Trigger (h_recompute ?h) (WithTimeout (hr_Ctx r) (w_now w) requestTimeout) tok rq (w, q) = ((w', q'), x)"
        and x: "resp = (case x of Inl e \<Rightarrow> handleError e | Inr run \<Rightarrow> writeJSON StatusAccepted (run_json run) None)" by auto
    with redis_protocol.Trigger_answer [OF assms(1) t [unfolded api_handler_simps] assms(2) _ x]
      Trigger_unwritten [OF t [unfolded api_handler_simps] x] Some show ?thesis
      by (simp add: zless_nat_eq_int_zless)
  qed
qed


text \<open>The sample trigger meets no failure.\<close>

lemma sample_trigger_calls:
  "\<not> trigger_call_fails sample_pg keyspace_server (15 * ns_Minute) sample_ctx ''tok'' (sample_request ''day'') sample_world"
    "public_report sample_db (rq_ReportSlug (sample_request ''day''))"
proof -
  let ?rq = "sample_request ''day''"
  have slug: "rq_ReportSlug ?rq = ''status-counts''" by (simp add: sample_request_def)
  obtain rep where look: "Store_GetReportDefinition sample_pg sample_ctx ''status-counts'' sample_world = (sample_world, Inr rep)"
    using sample_lookup [OF sample_ctx_undisturbed] GetReportDefinition_undisturbed [OF sample_ctx_undisturbed]
    by (metis prod.collapse)
  from lookup_outcome(1) [OF look refl] show "public_report sample_db (rq_ReportSlug ?rq)" by (simp add: slug)
  have free: "ks_view (w_now sample_world) (w_rd sample_world) (lockKey ?rq) = None" by (simp add: ks_view_def)
  have ready: "report_exists (w_db sample_world) (rq_ReportSlug ?rq)"
      "\<not> run_exists (w_db sample_world) (pgs_uuid sample_pg (db_uuids (w_db sample_world)))"
    using sample_new_run by (simp_all add: slug)
  from ks.Trigger_undisturbed [OF sample.postgres_server_axioms sample_ctx_undisturbed sample_ttl(1) sample_check ready free]
  obtain r1 d2 run where "RedisStore_TryAcquire keyspace_server sample_ctx (lockKey ?rq) ''tok'' (15 * ns_Minute) sample_world =
        (sample_world\<lparr>w_rd := r1\<rparr>, Inr True)"
      "Store_CreateRun sample_pg sample_ctx (defaultRequester ?rq) RunStatusPending (sample_world\<lparr>w_rd := r1\<rparr>) =
        (sample_world\<lparr>w_rd := r1, w_db := d2\<rparr>, Inr run)" by blast
  with look show "\<not> trigger_call_fails sample_pg keyspace_server (15 * ns_Minute) sample_ctx ''tok'' ?rq sample_world"
    by (simp add: trigger_call_fails_def slug)
qed

definition waiting_job :: recomputeJob where
  "waiting_job = \<lparr>job_runID = uuid_of 7, job_request = sample_request ''week'',
     job_lockKey = lockKey (sample_request ''week''), job_lockToken = ''other''\<rparr>"

theorem refusals_explained_witness:
  "\<exists>s' resp. api_serve id sample_pg keyspace_server sample_cfg sample_chi ''tok'' (sample_post sample_fields)
      (sample_world, [waiting_job]) = (s', resp) \<and> resp_Status resp = 503"
proof -
  let ?r = "sample_post sample_fields" and ?h = "api_handler sample_pg keyspace_server sample_cfg :: (pgdb, keyspace) world Handler"
  have route: "chi_choice sample_chi ?r = ChiRoute 4 []"
    unfolding chi_choice_def api_routes_def sample_post_def http_request.simps by code_simp
  have key: "provided_key key_headers ?r = cfg_ManagementAPIKey sample_cfg" by (simp add: sample_keys sample_cfg_simps)
  have ctx: "WithTimeout (hr_Ctx ?r) (midnight 12) requestTimeout = sample_ctx" by (simp add: sample_post_def sample_ctx_def)
  have request: "trigger_request ?h (midnight 12) ?r = Some (sample_request ''day'')"
    by (simp add: trigger_request_def sample_post_decoded sample_post_request sample_dates sample_cfg_simps)
  have free: "ks_view t (\<lambda>k. None) k = None" for t k by (simp add: ks_view_def)
  obtain w' q' resp where t: "api_serve id sample_pg keyspace_server sample_cfg sample_chi ''tok'' ?r
      (sample_world, [waiting_job]) = ((w', q'), resp)" by (metis prod.exhaust)
  have ttl: "valid_ttl (cfg_RecomputeLockTTL sample_cfg)" by (simp add: sample_cfg_simps)
  from refusals_explained [OF ks.redis_protocol_axioms ttl t route key] show ?thesis
    using request sample_trigger_calls t by (auto simp: ctx trigger_code_def sample_cfg_simps free)
qed

end
