(* ===== verification/Http_Report_Properties.thy ===== *)
theory Http_Report_Properties
  imports Http_Properties
begin

section \<open>Properties of the reading handlers\<close>

text \<open>
  The dates of a range, the statuses of a report's run, and the pages of the two listings as
  the client sees them.
\<close>

subsection \<open>The range of dates\<close>

lemma ParseDate_blank: "ParseDate s = Some t \<Longrightarrow> TrimSpace s \<noteq> ''''"
proof -
  assume p: "ParseDate s = Some t"
  then obtain y1 y2 y3 y4 m1 m2 d1 d2 where s: "s = [y1, y2, y3, y4, CHR ''-'', m1, m2, CHR ''-'', d1, d2]"
    and "parse_digits [y1, y2, y3, y4] \<noteq> None" "parse_digits [d1, d2] \<noteq> None"
    by (auto simp: ParseDate_def split: list.splits option.splits if_splits)
  then have "is_digit y1" "is_digit d2" by (auto simp: parse_digits_def split: if_splits)
  then have "graphic (hd s)" "graphic (last s)" "s \<noteq> []" by (simp_all add: s graphic_digit)
  then show ?thesis using TrimSpace_graphic by metis
qed

text \<open>C33: The range of a request is what the client wrote: a date that is given is accepted only if
  printing it again gives the very text of the request, an absent end is the current day at
  midnight, an absent start makes the range the handler's default number of days, and an
  accepted range runs from one midnight to another that is not before it.\<close>

theorem date_range_echo:
  assumes "parseDateRangeWithValues h now rawFrom rawTo = Inr (dfrom, dto)"
  shows "(TrimSpace rawTo \<noteq> '''' \<longrightarrow> FormatDate dto = rawTo) \<and> (TrimSpace rawTo = '''' \<longrightarrow> dto = start_of_day now) \<and>
    (TrimSpace rawFrom \<noteq> '''' \<longrightarrow> FormatDate dfrom = rawFrom) \<and>
    (TrimSpace rawFrom = '''' \<longrightarrow> dfrom = AddDays dto (- (h_defaultDays h - 1))) \<and>
    dfrom \<le> dto \<and> dfrom = midnight (day_of dfrom) \<and> dto = midnight (day_of dto)"
proof -
  note D = assms [unfolded parseDateRangeWithValues_def Let_def]
  have mid: "u = midnight (day_of u)" if "ParseDate s = Some u" for s u
    using ParseDate_midnight [OF that] by (simp add: is_midnight_iff)
  obtain u where u: "(if TrimSpace rawTo \<noteq> '''' then ParseDate rawTo else Some (start_of_day now)) = Some u"
    using D by (auto split: option.splits)
  have dto: "dto = u" and le: "dfrom \<le> dto"
    using D u by (auto split: option.splits if_split_asm)
  have mid_to: "dto = midnight (day_of dto)"
    using u mid unfolding dto by (auto simp: start_of_day_def split: if_splits)
  have blank: "dfrom = AddDays dto (- (h_defaultDays h - 1))" if "TrimSpace rawFrom = ''''"
    using D u that by (auto simp: dto split: if_splits)
  have given: "ParseDate rawFrom = Some dfrom" if "TrimSpace rawFrom \<noteq> ''''"
    using D u that by (auto split: option.splits if_split_asm)
  have "dfrom = midnight (day_of dfrom)"
  proof (cases "TrimSpace rawFrom = ''''")
    case True
    then show ?thesis using blank mid_to by (metis AddDays_midnight day_of_midnight)
  next
    case False
    then show ?thesis using mid [OF given] by simp
  qed
  then show ?thesis
    using u dto le mid_to blank given FormatDate_ParseDate by (simp split: if_splits)
qed

theorem date_range_echo_witness:
  "parseDateRangeWithValues (api_handler sample_pg keyspace_server sample_cfg) (midnight 12 + 7) '''' ''0001-01-11'' =
     Inr (midnight (- 19), midnight 10) \<and> FormatDate (midnight 10) = ''0001-01-11''"
proof -
  let ?h = "api_handler sample_pg keyspace_server sample_cfg"
  have p: "ParseDate ''0001-01-11'' = Some (midnight 10)" by code_simp
  have trim: "TrimSpace ''0001-01-11'' \<noteq> ''''" using ParseDate_blank [OF p] .
  have r: "parseDateRangeWithValues ?h (midnight 12 + 7) '''' ''0001-01-11'' = Inr (midnight (- 19), midnight 10)"
    using p trim by (simp add: parseDateRangeWithValues_def Let_def midnight_less)
  from date_range_echo [OF r] trim r show ?thesis by blast
qed

subsection \<open>Running a report\<close>

text \<open>The statement that answers a report, if it is one of the three that have a query.\<close>

definition report_slugs :: "string list" where
  "report_slugs = [''volume-by-period'', ''status-counts'', ''top-entities'']"

definition report_query ::
    "pg_server \<Rightarrow> ctx \<Rightarrow> string \<Rightarrow> ReportRunParams \<Rightarrow> ((pgdb, 'r) world, report_row list) io" where
  "report_query pg ctx slug p =
     (if slug = ''volume-by-period'' then Store_RunVolumeReport pg ctx p
      else if slug = ''status-counts'' then Store_RunStatusCountsReport pg ctx p
      else Store_RunTopEntitiesReport pg ctx p)"

text \<open>The lookup came back with an error of the store, or the query did that had to be made.\<close>

definition run_call_fails ::
    "(string \<Rightarrow> string) \<Rightarrow> pg_server \<Rightarrow> 'r redis_server \<Rightarrow> int \<Rightarrow> ctx \<Rightarrow> string \<Rightarrow> ReportRunParams
     \<Rightarrow> (pgdb, 'r) world \<Rightarrow> bool" where
  "run_call_fails sha pg srv D ctx slug p w =
     (case Store_GetReportDefinition pg ctx slug w of
        (w1, Inl err) \<Rightarrow> errors_As err = None
      | (w1, Inr report) \<Rightarrow>
          validateRunParams (api_reportService pg srv D :: (pgdb, 'r) world ReportService) p = None \<and>
          (case cached_or_miss (api_runtime sha) (api_reportService pg srv D) ctx slug p
                  (rd_CacheTTLSeconds report * ns_Second) w1 of
             (w2, Some res) \<Rightarrow> False
           | (w2, None) \<Rightarrow>
               (case report_query pg ctx slug p w2 of (w3, Inl err) \<Rightarrow> True | (w3, Inr rows) \<Rightarrow> False)))"

definition report_code :: "bool \<Rightarrow> bool \<Rightarrow> bool \<Rightarrow> int" where
  "report_code fails public valid = (if fails then 500 else if \<not> public then 404 else if \<not> valid then 400 else 200)"

lemma executeReportQuery_query:
  assumes "report_query pg ctx slug p w = (w', x)"
  shows "slug \<in> set report_slugs \<Longrightarrow> \<exists>msg. executeReportQuery (api_reportService pg srv D) ctx slug p w =
      (w', case x of Inl err \<Rightarrow> Inl (WrapAppError ErrCodeInternal msg err) | Inr rows \<Rightarrow> Inr rows)"
    and "slug \<notin> set report_slugs \<Longrightarrow> executeReportQuery (api_reportService pg srv D) ctx slug p w =
      (w, Inl (NewAppError ErrCodeNotFound ''report was not found''))"
proof -
  note execute = executeReportQuery_def [of "api_reportService pg srv D", unfolded api_report_calls]
  assume "slug \<in> set report_slugs"
  then consider "slug = ''volume-by-period''" | "slug = ''status-counts''" | "slug = ''top-entities''"
    by (auto simp: report_slugs_def)
  then show "\<exists>msg. executeReportQuery (api_reportService pg srv D) ctx slug p w =
      (w', case x of Inl err \<Rightarrow> Inl (WrapAppError ErrCodeInternal msg err) | Inr rows \<Rightarrow> Inr rows)"
    by cases (use assms in \<open>cases x; simp add: execute report_query_def\<close>)+
qed (simp add: executeReportQuery_def report_slugs_def)

lemma cached_or_miss_hit: "cached_or_miss rt s ctx slug p ttl w = (w', Some res) \<Longrightarrow> rr_CacheHit res"
  by (auto simp: cached_or_miss_def split: if_splits prod.splits sum.splits option.splits)

text \<open>The answer to a run of a report, by what its calls came back with.\<close>

lemma RunReport_answer:
  assumes "ReportService_RunReport (api_runtime sha) (api_reportService pg srv D) ctx slug p w = (w', x)"
  shows "slug \<in> set report_slugs \<Longrightarrow> resp_Status (case x of Inl e \<Rightarrow> handleError e | Inr res \<Rightarrow> writeJSON StatusOK (doc res) (meta res)) =
      report_code (run_call_fails sha pg srv D ctx slug p w) (public_report (w_db w) slug)
        (validateRunParams (api_reportService pg srv D :: (pgdb, 'r) world ReportService) p = None)"
    and "x = Inr res \<Longrightarrow> \<not> rr_CacheHit res \<Longrightarrow>
      slug \<in> set report_slugs \<and> (\<exists>(v :: (pgdb, 'r) world) v'. w_db v = w_db w \<and> report_query pg ctx slug p v = (v', Inr (rr_Rows res)))"
proof -
  let ?s = "api_reportService pg srv D :: (pgdb, 'r) world ReportService"
  note status = report_code_def run_call_fails_def handleError_new http_status_defs
  have repo: "GetReportDefinition (rs_repo ?s) = Store_GetReportDefinition pg" by (simp add: wiring_simps)
  note cases = RunReport_cases [OF assms, unfolded repo]
  show "resp_Status (case x of Inl e \<Rightarrow> handleError e | Inr res \<Rightarrow> writeJSON StatusOK (doc res) (meta res)) =
      report_code (run_call_fails sha pg srv D ctx slug p w) (public_report (w_db w) slug) (validateRunParams ?s p = None)"
    if known: "slug \<in> set report_slugs"
  proof (cases rule: cases)
    case (1 err)
    with lookup_outcome(2) [OF 1(1) refl] show ?thesis by (auto simp: status)
  next
    case (2 rep err)
    with lookup_outcome(1) [OF 2(1) refl] validateRunParams_code [OF 2(2)] show ?thesis by (auto simp: status)
  next
    case (3 w1 rep res)
    with lookup_outcome(1) [OF 3(1) refl] show ?thesis by (simp add: status)
  next
    case (4 w1 rep w2 err)
    obtain w3 z where z: "report_query pg ctx slug p w2 = (w3, z)" by fastforce
    obtain msg where E: "executeReportQuery ?s ctx slug p w2 =
        (w3, case z of Inl err \<Rightarrow> Inl (WrapAppError ErrCodeInternal msg err) | Inr rows \<Rightarrow> Inr rows)"
      using executeReportQuery_query(1) [OF z known] by blast
    with 4(4,5) obtain e where "z = Inl e" "x = Inl (WrapAppError ErrCodeInternal msg e)" by (cases z) auto
    with 4(1-3) z lookup_outcome(1) [OF 4(1) refl] show ?thesis by (simp add: status)
  next
    case (5 w1 rep w2 w3 rows)
    obtain w4 z where z: "report_query pg ctx slug p w2 = (w4, z)" by fastforce
    from executeReportQuery_query(1) [OF z known, of srv D] 5(4) have "z = Inr rows" by (cases z) auto
    with 5 z lookup_outcome(1) [OF 5(1) refl] show ?thesis by (simp add: status)
  qed
  show "slug \<in> set report_slugs \<and> (\<exists>(v :: (pgdb, 'r) world) v'. w_db v = w_db w \<and> report_query pg ctx slug p v = (v', Inr (rr_Rows res)))"
    if x: "x = Inr res" and miss: "\<not> rr_CacheHit res"
  proof (cases rule: cases)
    case (3 w1 rep res')
    with cached_or_miss_hit [OF 3(3)] x miss show ?thesis by simp
  next
    case (5 w1 rep w2 w3 rows)
    have db: "w_db w2 = w_db w"
      using cached_or_miss_db [of "api_runtime sha" pg srv D ctx slug p "rd_CacheTTLSeconds rep * ns_Second" w1]
        reads_onlyD [OF reads_only_GetReportDefinition 5(1)] 5(3) by simp
    obtain w4 z where z: "report_query pg ctx slug p w2 = (w4, z)" by fastforce
    have known: "slug \<in> set report_slugs" using executeReportQuery_query(2) [OF z, of srv D] 5(4) by auto
    from executeReportQuery_query(1) [OF z this, of srv D] 5(4) have "z = Inr rows" by (cases z) auto
    moreover have "rr_Rows res = rows" using 5(5) x by (simp add: fresh_result_def)
    ultimately show ?thesis using z db known by blast
  qed (use x in simp_all)
qed

text \<open>C32: The status of a report's run is its cause, on every network: 400, with nothing changed, for
  bad dates; for one of the three reports with a query and good dates it is 500 exactly when
  the lookup failed at the store, or the query did that had to be made because the cache gave
  no answer, otherwise 404 exactly when the catalog does not show the report, 400 exactly
  when a parameter is out of bounds, and 200 otherwise. An answer 200 to any report that does
  not come from the cache holds the rows that PostgreSQL gave to the report's own query on
  the database as it is.\<close>

theorem run_report_statuses:
  assumes "api_serve sha pg srv cfg chi tok r (w, q) = (s', resp)"
    and "chi_choice chi r = ChiRoute 3 [(''slug'', slug)]"
  shows "case parseDateRange (api_handler pg srv cfg :: (pgdb, 'r) world Handler) (w_now w) r of
      Inl e \<Rightarrow> resp_Status resp = 400 \<and> s' = (w, q)
    | Inr dates \<Rightarrow>
        (let p = runParams r dates; D = cfg_MaxReportRangeDays cfg;
             ctx = WithTimeout (hr_Ctx r) (w_now w) requestTimeout in
         (slug \<in> set report_slugs \<longrightarrow>
            resp_Status resp = report_code (run_call_fails sha pg srv D ctx slug p w) (public_report (w_db w) slug)
              (validateRunParams (api_reportService pg srv D :: (pgdb, 'r) world ReportService) p = None)) \<and>
         (resp_Status resp = 200 \<longrightarrow>
            (\<exists>res. resp = writeJSON StatusOK (result_json res) (Some (JObj [(''cache_hit'', JBool (rr_CacheHit res))])) \<and>
               (\<not> rr_CacheHit res \<longrightarrow> slug \<in> set report_slugs \<and>
                  (\<exists>(v :: (pgdb, 'r) world) v'. w_db v = w_db w \<and> report_query pg ctx slug p v = (v', Inr (rr_Rows res)))))))"
proof -
  let ?h = "api_handler pg srv cfg :: (pgdb, 'r) world Handler"
  let ?ctx = "WithTimeout (hr_Ctx r) (w_now w) requestTimeout"
  have run: "runReport (api_runtime sha) ?h ?ctx [(''slug'', slug)] r (w, q) = (s', resp)"
    using assms by (simp add: api_serve_route Routes_nth)
  show ?thesis
  proof (cases "parseDateRange ?h (w_now w) r")
    case (Inl e)
    then obtain m where "e = NewAppError ErrCodeInvalid m"
      by (auto simp: parseDateRange_def parseDateRangeWithValues_def Let_def split: option.splits if_splits)
    with run Inl show ?thesis by (auto simp: runReport_def handleError_new http_status_defs)
  next
    case (Inr dates)
    let ?D = "cfg_MaxReportRangeDays cfg"
    obtain w1 x where x: "ReportService_RunReport (api_runtime sha) (api_reportService pg srv ?D) ?ctx slug (runParams r dates) w = (w1, x)"
      by fastforce
    have resp: "resp = (case x of Inl e \<Rightarrow> handleError e
        | Inr res \<Rightarrow> writeJSON StatusOK (result_json res) (Some (JObj [(''cache_hit'', JBool (rr_CacheHit res))])))"
      using run Inr x
      by (cases x) (auto simp: runReport_def answer_def URLParam_def first_value_def)
    have ok: "\<exists>res. x = Inr res" if "resp_Status resp = 200"
    proof (cases x)
      case (Inl e)
      with that handleError_status [of e] show ?thesis by (simp add: resp)
    qed simp
    note status = RunReport_answer(1) [OF x, of result_json "\<lambda>res. Some (JObj [(''cache_hit'', JBool (rr_CacheHit res))])", folded resp]
    have "\<exists>res. resp = writeJSON StatusOK (result_json res) (Some (JObj [(''cache_hit'', JBool (rr_CacheHit res))])) \<and>
        (\<not> rr_CacheHit res \<longrightarrow> slug \<in> set report_slugs \<and>
           (\<exists>(v :: (pgdb, 'r) world) v'. w_db v = w_db w \<and> report_query pg ?ctx slug (runParams r dates) v = (v', Inr (rr_Rows res))))"
      if "resp_Status resp = 200"
    proof -
      from ok [OF that] obtain res where "x = Inr res" by blast
      with RunReport_answer(2) [OF x this] show ?thesis by (intro exI [of _ res]) (simp add: resp)
    qed
    with status Inr show ?thesis by (simp add: Let_def)
  qed
qed


definition failing_world :: "(pgdb, keyspace) world" where
  "failing_world = sample_world\<lparr>w_script := [(0, LostRequest ''connection refused'')]\<rparr>"

theorem run_report_statuses_witness:
  "\<exists>s' resp. api_serve id sample_pg keyspace_server sample_cfg sample_chi ''tok''
      (sample_get ''/api/v1/reports/status-counts/run'' []) (failing_world, []) = (s', resp) \<and> resp_Status resp = 500"
proof -
  let ?r = "sample_get ''/api/v1/reports/status-counts/run'' []"
  let ?h = "api_handler sample_pg keyspace_server sample_cfg :: (pgdb, keyspace) world Handler"
  let ?ctx = "WithTimeout (hr_Ctx ?r) (w_now failing_world) requestTimeout"
  have route: "chi_choice sample_chi ?r = ChiRoute 3 [(''slug'', ''status-counts'')]"
    unfolding chi_choice_def api_routes_def sample_get_def http_request.simps by code_simp
  have "TrimSpace '''' = ''''" by code_simp
  then obtain dates where dates: "parseDateRange ?h (w_now failing_world) ?r = Inr dates"
    by (auto simp: parseDateRange_def parseDateRangeWithValues_def Query_Get_def first_value_def sample_get_def Let_def AddDays_def ns_Day_eq)
  have "\<not> ctx_done ?ctx (midnight 12)"
    by (simp add: sample_get_def failing_world_def requestTimeout_def ns_Second_def)
  then have "\<exists>w1. Store_GetReportDefinition sample_pg ?ctx ''status-counts'' failing_world = (w1, Inl (PlainError ''connection refused''))"
    by (simp add: Store_GetReportDefinition_def db_call_def remote_def failing_world_def next_outcome_def)
  then have fails: "run_call_fails id sample_pg keyspace_server 366 ?ctx ''status-counts'' (runParams ?r dates) failing_world"
    by (auto simp: run_call_fails_def)
  obtain s' resp where t: "api_serve id sample_pg keyspace_server sample_cfg sample_chi ''tok'' ?r (failing_world, []) = (s', resp)"
    by fastforce
  from run_report_statuses [OF t route] dates fails t show ?thesis
    by (simp add: Let_def report_slugs_def report_code_def sample_cfg_simps)
qed

subsection \<open>Listing the reports\<close>

lemma ListReportDefinitions_Inr:
  assumes "Store_ListReportDefinitions pg ctx flt w = (w', Inr (reports, num))"
  shows "\<exists>rows. list_all2 (\<lambda>row rep. scanReportDefinition (w_db w) row = Inr rep) rows reports \<and>
    rows = page (lf_Limit (clampListFilter flt)) (lf_Offset (clampListFilter flt))
      (sort_by (catalog_le pg (clampListFilter flt)) (filter (catalog_matches (lf_Search flt)) (db_definitions (w_db w)))) \<and>
    num = int (length (filter (catalog_matches (lf_Search flt)) (db_definitions (w_db w))))"
proof -
  let ?f = "clampListFilter flt"
  obtain w1 c where c: "db_call ctx (\<lambda>now d.
      (d, Inr (int (length (filter (catalog_matches (lf_Search ?f)) (db_definitions d)))))) w = (w1, c)"
    by fastforce
  then obtain cnt where cnt: "c = Inr cnt"
    using assms by (cases c) (auto simp: Store_ListReportDefinitions_def Let_def)
  note first = db_call_Inr(1) [OF c [unfolded cnt]]
  obtain w2 x where x: "db_call ctx (\<lambda>now d. (d, case catalog_page pg ?f d of
      Inl err \<Rightarrow> Inl err | Inr rows \<Rightarrow> scan_rows (scanReportDefinition d) rows)) w1 = (w2, x)" by fastforce
  with assms c cnt have "x = Inr reports" "num = cnt"
    by (cases x; simp add: Store_ListReportDefinitions_def Let_def)+
  with db_call_Inr(1) [OF x [unfolded this(1)]] first show ?thesis
    by (auto simp: catalog_page_clamped scan_rows_Inr_iff)
qed

lemma total_preorder_catalog:
  assumes "total_preorder (pgs_text_le pg)"
  shows "total_preorder (catalog_le pg flt)"
proof -
  have by_text: "total_preorder (\<lambda>a b. pgs_text_le pg (f a) (f b))" for f :: "definition_row \<Rightarrow> string"
    using assms unfolding total_preorder_def by blast
  have by_num: "total_preorder (\<lambda>a b. f a \<le> f b)" for f :: "definition_row \<Rightarrow> int"
    unfolding total_preorder_def by auto
  have "field_le pg field =
      (if field = ''slug'' then (\<lambda>a b. pgs_text_le pg (df_slug a) (df_slug b))
       else if field = ''updated_at'' then (\<lambda>a b. df_updated_at a \<le> df_updated_at b)
       else if field = ''cache_ttl_seconds'' then (\<lambda>a b. df_cache_ttl_seconds a \<le> df_cache_ttl_seconds b)
       else (\<lambda>a b. pgs_text_le pg (df_name a) (df_name b)))" for field
    by (intro ext) (simp add: field_le_def)
  then have "total_preorder (field_le pg field)" for field by (simp add: by_text by_num)
  then have "total_preorder (field_le pg (sortField flt))" .
  moreover have "total_preorder (\<lambda>a b. le b a)" if "total_preorder le" for le :: "definition_row \<Rightarrow> definition_row \<Rightarrow> bool"
    using that unfolding total_preorder_def by blast
  moreover have "catalog_le pg flt =
      (if descending flt then (\<lambda>a b. field_le pg (sortField flt) b a) else field_le pg (sortField flt))"
    by (intro ext) (simp add: catalog_le_def)
  ultimately show ?thesis by simp
qed

text \<open>C34: A successful listing of the reports, on every network, is a page of the public reports whose
  slug or name contains the search text, sorted by the chosen column in the chosen direction,
  as long as what is left after the offset allows and never more than 100, with their number over
  all pages. The pagination in the answer, though, repeats the limit and the offset of the
  request and not the ones the page was cut with.\<close>

theorem catalog_listing:
  assumes "postgres_server pg" and "api_serve sha pg srv cfg chi tok r (w, q) = (s', resp)"
    and "chi_choice chi r = ChiRoute 1 params" and "resp_Status resp = 200"
  shows "\<exists>rows reports num.
    resp = writeJSON 200 (JArr (map definition_json reports))
      (pagination_meta \<lparr>pg_Limit = parseIntWithDefault (Query_Get r ''limit'') 20,
                         pg_Offset = parseIntWithDefault (Query_Get r ''offset'') 0, pg_Total = num\<rparr>) \<and>
    list_all2 (\<lambda>row rep. scanReportDefinition (w_db w) row = Inr rep) rows reports \<and>
    sorted_wrt (catalog_le pg (listFilter r)) rows \<and>
    set rows \<subseteq> {d \<in> set (db_definitions (w_db w)). catalog_matches (TrimSpace (Query_Get r ''search'')) d} \<and>
    num = int (length (filter (catalog_matches (TrimSpace (Query_Get r ''search''))) (db_definitions (w_db w)))) \<and>
    int (length rows) = min (lf_Limit (clampListFilter (listFilter r)))
      (max 0 (num - lf_Offset (clampListFilter (listFilter r)))) \<and> length reports \<le> 100"
proof -
  let ?flt = "listFilter r" and ?ctx = "WithTimeout (hr_Ctx r) (w_now w) requestTimeout"
  let ?f = "clampListFilter ?flt"
  have l: "listReports (api_handler pg srv cfg) ?ctx params r (w, q) = (s', resp)"
    using assms(2,3) by (simp add: api_serve_route Routes_nth del: One_nat_def)
  obtain w1 x where x: "Store_ListReportDefinitions pg ?ctx ?flt w = (w1, x)" by fastforce
  have "\<exists>reports num. x = Inr (reports, num)"
  proof (rule ccontr)
    assume no: "\<not> ?thesis"
    then obtain e where "x = Inl e" by (cases x) auto
    with l x have "resp_Status resp = 500"
      by (auto simp: listReports_def answer_def ReportService_ListReports_def wiring_simps handleError_new
          http_status_defs)
    with assms(4) show False by simp
  qed
  then obtain reports num where xr: "x = Inr (reports, num)" by blast
  then have resp: "resp = writeJSON 200 (JArr (map definition_json reports))
      (pagination_meta \<lparr>pg_Limit = lf_Limit ?flt, pg_Offset = lf_Offset ?flt, pg_Total = num\<rparr>)"
    using l x
    by (auto simp: listReports_def answer_def ReportService_ListReports_def wiring_simps http_status_defs)
  obtain rows where rows: "list_all2 (\<lambda>row rep. scanReportDefinition (w_db w) row = Inr rep) rows reports"
      "rows = page (lf_Limit ?f) (lf_Offset ?f)
        (sort_by (catalog_le pg ?f) (filter (catalog_matches (lf_Search ?flt)) (db_definitions (w_db w))))"
      "num = int (length (filter (catalog_matches (lf_Search ?flt)) (db_definitions (w_db w))))"
    using ListReportDefinitions_Inr [OF x [unfolded xr]] by blast
  have le: "catalog_le pg ?f = catalog_le pg ?flt"
    by (intro ext) (simp add: catalog_le_def descending_def sortField_def)
  have sorted: "sorted_wrt (catalog_le pg ?flt) rows"
    unfolding rows(2) le
    by (intro sorted_wrt_page sorted_sort_by total_preorder_catalog postgres_server.text_order [OF assms(1)])
  have sub: "set rows \<subseteq> {d \<in> set (db_definitions (w_db w)). catalog_matches (lf_Search ?flt) d}"
    using page_subseq unfolding rows(2) by fastforce
  have len: "int (length rows) = min (lf_Limit ?f) (max 0 (num - lf_Offset ?f))"
    using clampListFilter_bounds [of ?flt] unfolding rows(2,3) length_page by (simp add: nat_diff_split)
  have "length reports \<le> 100"
    using len list_all2_lengthD [OF rows(1)] clampListFilter_bounds(2) [of ?flt] by linarith
  moreover have "lf_Search ?flt = TrimSpace (Query_Get r ''search'')"
      "lf_Limit ?flt = parseIntWithDefault (Query_Get r ''limit'') 20"
      "lf_Offset ?flt = parseIntWithDefault (Query_Get r ''offset'') 0" by (simp_all add: listFilter_def)
  ultimately show ?thesis
    using resp rows(1,3) sorted sub len by (intro exI [of _ rows] exI [of _ reports] exI [of _ num]) simp
qed

lemma sample_world_same [simp]: "sample_world\<lparr>w_db := sample_db\<rparr> = sample_world"
  by (simp add: sample_world_def)

lemma sample_list:
  assumes "undisturbed ctx sample_world"
  shows "\<exists>x. Store_ListReportDefinitions sample_pg ctx flt sample_world = (sample_world, Inr x)"
proof -
  let ?rows = "page (lf_Limit (clampListFilter flt)) (lf_Offset (clampListFilter flt))
      (sort_by (catalog_le sample_pg (clampListFilter flt)) (filter (catalog_matches (lf_Search flt)) (db_definitions sample_db)))"
  have "scanReportDefinition sample_db d \<noteq> Inl e" if "d \<in> set (db_definitions sample_db)" for d e
    using that by (auto simp: scanReportDefinition_def sample_db_def sample_definition_def)
  moreover have "set ?rows \<subseteq> set (db_definitions sample_db)" using page_subseq by fastforce
  ultimately have "scan_rows (scanReportDefinition sample_db) ?rows \<noteq> Inl e" for e
    using scan_rows_Inl [of "scanReportDefinition sample_db" ?rows e] by blast
  then obtain ys where "scan_rows (scanReportDefinition sample_db) ?rows = Inr ys"
    by (cases "scan_rows (scanReportDefinition sample_db) ?rows") auto
  then show ?thesis
    by (simp add: Store_ListReportDefinitions_def Let_def db_call_undisturbed [OF assms] catalog_page_clamped)
qed

theorem catalog_listing_witness:
  "\<exists>s' resp reports num. api_serve id sample_pg keyspace_server sample_cfg sample_chi ''tok''
      (sample_get ''/api/v1/reports'' [(''limit'', ''500'')]) (sample_world, []) = (s', resp) \<and>
    resp = writeJSON 200 (JArr (map definition_json reports))
      (pagination_meta \<lparr>pg_Limit = 500, pg_Offset = 0, pg_Total = num\<rparr>) \<and> length reports \<le> 100"
proof -
  let ?r = "sample_get ''/api/v1/reports'' [(''limit'', ''500'')]"
  have route: "chi_choice sample_chi ?r = ChiRoute 1 []"
    unfolding chi_choice_def api_routes_def sample_get_def http_request.simps by code_simp
  have ctx: "WithTimeout (hr_Ctx ?r) (midnight 12) requestTimeout = sample_ctx"
    by (simp add: sample_get_def sample_ctx_def)
  obtain s' resp where t: "api_serve id sample_pg keyspace_server sample_cfg sample_chi ''tok'' ?r
      (sample_world, []) = (s', resp)" by fastforce
  have l: "listReports (api_handler sample_pg keyspace_server sample_cfg) sample_ctx [] ?r (sample_world, []) = (s', resp)"
    using t by (simp add: api_serve_route [OF route] Routes_nth ctx del: One_nat_def)
  obtain x where "Store_ListReportDefinitions sample_pg sample_ctx (listFilter ?r) sample_world = (sample_world, Inr x)"
    using sample_list [OF sample_ctx_undisturbed] by blast
  with l have ok: "resp_Status resp = 200"
    by (cases x) (auto simp: listReports_def answer_def ReportService_ListReports_def wiring_simps http_status_defs)
  have "TrimSpace ''500'' = ''500''" by (rule TrimSpace_graphic) (simp_all add: graphic_def)
  moreover have "Atoi ''500'' = Some 500" by code_simp
  ultimately have "parseIntWithDefault (Query_Get ?r ''limit'') 20 = 500"
      "parseIntWithDefault (Query_Get ?r ''offset'') 0 = 0"
    by (simp_all add: parseIntWithDefault_def Query_Get_def first_value_def sample_get_def)
  with catalog_listing [OF sample.postgres_server_axioms t route ok] t show ?thesis by auto
qed

subsection \<open>Listing the audit entries\<close>

lemma ListEntries_Inr:
  assumes "Store_ListEntries ctx flt w = (w', Inr (entries, num))"
    and "0 \<le> af_Limit flt" and "0 \<le> af_Offset flt"
  shows "\<exists>rows. list_all2 (\<lambda>row e. scan_audit row = Inr e) rows entries \<and>
    rows = page (af_Limit flt) (af_Offset flt)
      (sort_by (\<lambda>a b. ar_created_at b \<le> ar_created_at a) (filter (audit_matches flt) (db_audits (w_db w)))) \<and>
    num = int (length (filter (audit_matches flt) (db_audits (w_db w))))"
proof -
  obtain w1 c where c: "db_call ctx (\<lambda>now d. (d, Inr (int (length (filter (audit_matches flt) (db_audits d)))))) w =
      (w1, c)" by fastforce
  then obtain cnt where cnt: "c = Inr cnt"
    using assms(1) by (cases c) (auto simp: Store_ListEntries_def)
  note first = db_call_Inr(1) [OF c [unfolded cnt]]
  obtain w2 x where x: "db_call ctx (\<lambda>now d.
      (d, case audit_page flt d of Inl err \<Rightarrow> Inl err | Inr rows \<Rightarrow> scan_rows scan_audit rows)) w1 = (w2, x)"
    by fastforce
  with assms(1) c cnt have "x = Inr entries" "num = cnt"
    by (cases x; simp add: Store_ListEntries_def)+
  with db_call_Inr(1) [OF x [unfolded this(1)]] first assms(2,3) show ?thesis
    by (auto simp: audit_page_def limit_offset_ok scan_rows_Inr_iff)
qed

text \<open>C35: A successful listing of the audit trail, on every network, is a page of the entries with the
  asked action and actor, the newest first, of at most 100, with their number over all pages;
  its pagination is the limit and the offset that cut the page, whatever the request asked for.\<close>

theorem audit_listing:
  assumes "api_serve sha pg srv cfg chi tok r (w, q) = (s', resp)" and "chi_choice chi r = ChiRoute 6 params"
    and "provided_key key_headers r = cfg_ManagementAPIKey cfg" and "resp_Status resp = 200"
  shows "\<exists>rows entries num lim off.
    resp = writeJSON 200 (JArr (map entry_json entries))
      (pagination_meta \<lparr>pg_Limit = lim, pg_Offset = off, pg_Total = num\<rparr>) \<and>
    1 \<le> lim \<and> lim \<le> 100 \<and> 0 \<le> off \<and>
    list_all2 (\<lambda>row e. scan_audit row = Inr e) rows entries \<and>
    sorted_wrt (\<lambda>a b. ar_created_at b \<le> ar_created_at a) rows \<and>
    set rows \<subseteq> {a \<in> set (db_audits (w_db w)). audit_matches (auditFilter r) a} \<and>
    num = int (length (filter (audit_matches (auditFilter r)) (db_audits (w_db w)))) \<and>
    int (length rows) = min lim (max 0 (num - off))"
proof -
  let ?f = "clampAuditFilter (auditFilter r)" and ?ctx = "WithTimeout (hr_Ctx r) (w_now w) requestTimeout"
  note bounds = clampAuditFilter_bounds [of "auditFilter r"]
  have l: "listAuditEntries (api_handler pg srv cfg) ?ctx params r (w, q) = (s', resp)"
    using assms(1-3) by (simp add: api_serve_route Routes_nth auth_accepts)
  obtain w1 x where x: "Store_ListEntries ?ctx ?f w = (w1, x)" by fastforce
  have "\<exists>entries num. x = Inr (entries, num)"
  proof (rule ccontr)
    assume no: "\<not> ?thesis"
    then obtain e where "x = Inl e" by (cases x) auto
    with l x have "resp_Status resp = 500"
      by (auto simp: listAuditEntries_def answer_def AuditService_ListEntries_def wiring_simps handleError_new
          http_status_defs)
    with assms(4) show False by simp
  qed
  then obtain entries num where xr: "x = Inr (entries, num)" by blast
  then have resp: "resp = writeJSON 200 (JArr (map entry_json entries))
      (pagination_meta \<lparr>pg_Limit = af_Limit ?f, pg_Offset = af_Offset ?f, pg_Total = num\<rparr>)"
    using l x
    by (auto simp: listAuditEntries_def answer_def AuditService_ListEntries_def wiring_simps Let_def http_status_defs)
  have match: "audit_matches ?f = audit_matches (auditFilter r)"
    by (intro ext) (simp add: audit_matches_def clampAuditFilter_def Let_def)
  obtain rows where rows: "list_all2 (\<lambda>row e. scan_audit row = Inr e) rows entries"
      "rows = page (af_Limit ?f) (af_Offset ?f)
        (sort_by (\<lambda>a b. ar_created_at b \<le> ar_created_at a) (filter (audit_matches ?f) (db_audits (w_db w))))"
      "num = int (length (filter (audit_matches ?f) (db_audits (w_db w))))"
    using ListEntries_Inr [OF x [unfolded xr]] bounds by auto
  have sorted: "sorted_wrt (\<lambda>a b. ar_created_at b \<le> ar_created_at a) rows"
    unfolding rows(2) by (intro sorted_wrt_page sorted_sort_by) (auto simp: total_preorder_def)
  have sub: "set rows \<subseteq> {a \<in> set (db_audits (w_db w)). audit_matches (auditFilter r) a}"
    using page_subseq unfolding rows(2) match by fastforce
  have len: "int (length rows) = min (af_Limit ?f) (max 0 (num - af_Offset ?f))"
    using bounds unfolding rows(2,3) length_page by (simp add: nat_diff_split)
  show ?thesis
    using resp rows(1,3) sorted sub len bounds match
    by (intro exI [of _ rows] exI [of _ entries] exI [of _ num] exI [of _ "af_Limit ?f"]
        exI [of _ "af_Offset ?f"]) simp
qed

theorem audit_listing_witness:
  "\<exists>s' resp num. api_serve id sample_pg keyspace_server sample_cfg sample_chi ''tok''
      (sample_get ''/api/v1/audit-entries'' [(''limit'', ''500'')]) (sample_world, []) = (s', resp) \<and>
    resp = writeJSON 200 (JArr []) (pagination_meta num) \<and> 1 \<le> pg_Limit num \<and> pg_Limit num \<le> 100"
proof -
  let ?r = "sample_get ''/api/v1/audit-entries'' [(''limit'', ''500'')]"
  let ?f = "clampAuditFilter (auditFilter ?r)"
  have route: "chi_choice sample_chi ?r = ChiRoute 6 []"
    unfolding chi_choice_def api_routes_def sample_get_def http_request.simps by code_simp
  have key: "provided_key key_headers ?r = cfg_ManagementAPIKey sample_cfg"
    by (simp add: sample_keys sample_cfg_simps)
  have ctx: "WithTimeout (hr_Ctx ?r) (midnight 12) requestTimeout = sample_ctx"
    by (simp add: sample_get_def sample_ctx_def)
  obtain s' resp where t: "api_serve id sample_pg keyspace_server sample_cfg sample_chi ''tok'' ?r
      (sample_world, []) = (s', resp)" by fastforce
  have l: "listAuditEntries (api_handler sample_pg keyspace_server sample_cfg) sample_ctx [] ?r (sample_world, []) =
      (s', resp)"
    using t by (simp add: api_serve_route [OF route] Routes_nth auth_accepts key ctx)
  have "Store_ListEntries sample_ctx ?f sample_world = (sample_world, Inr ([], 0))"
    using clampAuditFilter_bounds [of "auditFilter ?r"]
    by (simp add: Store_ListEntries_def db_call_undisturbed audit_page_def limit_offset_ok sample_db_def page_def)
  with l have ok: "resp_Status resp = 200"
    by (auto simp: listAuditEntries_def answer_def AuditService_ListEntries_def wiring_simps Let_def http_status_defs)
  from audit_listing [OF t route key ok] t show ?thesis by (auto simp: sample_db_def)
qed

end
