(* ===== verification/Migrator.thy ===== *)
theory Migrator
  imports Backend
begin

section \<open>Migrations\<close>

text \<open>
  \<open>internal/infrastructure/postgres/migrator.go\<close>: the files of a directory are applied in the
  order of their names, each in a transaction with the row that records it. The directory
  (\<open>os.ReadDir\<close>, \<open>os.ReadFile\<close>) is a parameter, and so is what the text of a migration does to
  the rest of the database, which the model leaves abstract: PostgreSQL runs the text, and
  a text that does not touch \<open>schema_migrations\<close> either fails or changes the rest.
\<close>

record file_system =
  fs_ReadDir :: "string \<Rightarrow> string + (string \<times> bool) list"
  fs_ReadFile :: "string \<Rightarrow> string + string"

record version_row =
  sm_version :: string
  sm_applied_at :: gotime

text \<open>\<open>mg_migrations\<close> is the table \<open>schema_migrations\<close>, if it exists; \<open>mg_schema\<close> is everything else.\<close>

record 's migrated =
  mg_migrations :: "version_row list option"
  mg_schema :: 's

type_synonym 's sql_engine = "string \<Rightarrow> gotime \<Rightarrow> 's \<Rightarrow> string + 's"

record Migrator =
  m_dir :: string
  m_fs :: file_system

subsection \<open>The files\<close>

text \<open>\<open>filepath.Ext\<close> of a name: from its last dot on.\<close>

definition filepath_Ext :: "string \<Rightarrow> string" where
  "filepath_Ext name =
     (if CHR ''.'' \<in> set name then CHR ''.'' # rev (takeWhile (\<lambda>c. c \<noteq> CHR ''.'') (rev name)) else '''')"

definition filepath_Join :: "string \<Rightarrow> string \<Rightarrow> string" where
  "filepath_Join dir file = dir @ ''/'' @ file"

text \<open>\<open>strings.Compare(a, b) < 0\<close>: the order of the bytes; the sort is an insertion sort here.\<close>

fun bytes_less :: "string \<Rightarrow> string \<Rightarrow> bool" where
  "bytes_less s [] = False"
| "bytes_less [] (d # t) = True"
| "bytes_less (c # s) (d # t) =
     (of_char c < (of_char d :: nat) \<or> c = d \<and> bytes_less s t)"

fun insert_name :: "string \<Rightarrow> string list \<Rightarrow> string list" where
  "insert_name x [] = [x]"
| "insert_name x (y # ys) = (if bytes_less y x then y # insert_name x ys else x # y # ys)"

fun sort_names :: "string list \<Rightarrow> string list" where
  "sort_names [] = []"
| "sort_names (x # xs) = insert_name x (sort_names xs)"

definition migration_files :: "(string \<times> bool) list \<Rightarrow> string list" where
  "migration_files entries =
     sort_names (map fst (filter (\<lambda>(name, isDir). \<not> isDir \<and> filepath_Ext name = ''.sql'') entries))"

definition listMigrationFiles :: "Migrator \<Rightarrow> go_error + string list" where
  "listMigrationFiles m =
     (case fs_ReadDir (m_fs m) (m_dir m) of
        Inl msg \<Rightarrow> Inl (WrapError ''failed to read migration directory'' (PlainError msg))
      | Inr entries \<Rightarrow> Inr (migration_files entries))"

subsection \<open>The table of versions\<close>

definition wrap_error :: "string \<Rightarrow> go_error + 'a \<Rightarrow> go_error + 'a" where
  "wrap_error msg r = (case r of Inl e \<Rightarrow> Inl (WrapError msg e) | Inr x \<Rightarrow> Inr x)"

definition ensureMigrationsTable :: "ctx \<Rightarrow> (('s migrated, 'r) world, unit) io" where
  "ensureMigrationsTable ctx w =
     (case db_call ctx (\<lambda>now d.
             (d\<lparr>mg_migrations := Some (case mg_migrations d of None \<Rightarrow> [] | Some vs \<Rightarrow> vs)\<rparr>, Inr ())) w of
        (w1, r) \<Rightarrow> (w1, wrap_error ''failed to ensure schema_migrations table'' r))"

definition version_applied :: "string \<Rightarrow> 's migrated \<Rightarrow> go_error + bool" where
  "version_applied version d =
     (case mg_migrations d of
        None \<Rightarrow> Inl (PlainError ''ERROR: relation \"schema_migrations\" does not exist'')
      | Some vs \<Rightarrow> Inr (version \<in> set (map sm_version vs)))"

definition isApplied :: "ctx \<Rightarrow> string \<Rightarrow> (('s migrated, 'r) world, bool) io" where
  "isApplied ctx version w =
     (case db_call ctx (\<lambda>now d. (d, version_applied version d)) w of
        (w1, r) \<Rightarrow> (w1, wrap_error (''failed to query migration version '' @ version) r))"

definition record_version :: "string \<Rightarrow> gotime \<Rightarrow> 's migrated \<Rightarrow> go_error + 's migrated" where
  "record_version version now d =
     (case mg_migrations d of
        None \<Rightarrow> Inl (PlainError ''ERROR: relation \"schema_migrations\" does not exist'')
      | Some vs \<Rightarrow>
          if version \<in> set (map sm_version vs)
          then Inl (PlainError ''ERROR: duplicate key value violates unique constraint'')
          else Inr (d\<lparr>mg_migrations := Some (vs @ [\<lparr>sm_version = version, sm_applied_at = now\<rparr>])\<rparr>))"

definition run_sql :: "'s sql_engine \<Rightarrow> string \<Rightarrow> gotime \<Rightarrow> 's migrated \<Rightarrow> go_error + 's migrated" where
  "run_sql exec_sql sql now d =
     (case exec_sql sql now (mg_schema d) of
        Inl msg \<Rightarrow> Inl (PlainError msg)
      | Inr s \<Rightarrow> Inr (d\<lparr>mg_schema := s\<rparr>))"

subsection \<open>Applying one file\<close>

text \<open>
  The statements of the transaction work on a copy, which the commit publishes; a rollback
  leaves the database as it was.
\<close>

definition tx_step ::
    "ctx \<Rightarrow> ('s migrated \<Rightarrow> go_error + 's migrated) \<Rightarrow> 's migrated \<Rightarrow> (('s migrated, 'r) world, 's migrated) io" where
  "tx_step ctx stmt copy = remote ctx (\<lambda>w. (w, stmt copy))"

definition apply_file ::
    "'s sql_engine \<Rightarrow> Migrator \<Rightarrow> ctx \<Rightarrow> string \<Rightarrow> (('s migrated, 'r) world, unit) io" where
  "apply_file exec_sql m ctx file w =
     (case fs_ReadFile (m_fs m) (filepath_Join (m_dir m) file) of
        Inl msg \<Rightarrow> (w, Inl (WrapError (''failed to read migration '' @ file) (PlainError msg)))
      | Inr sql \<Rightarrow>
     (case remote ctx (\<lambda>w. (w, Inr (w_db w, w_now w))) w of
        (w1, Inl err) \<Rightarrow> (w1, Inl (WrapError ''failed to begin migration transaction'' err))
      | (w1, Inr (copy0, now)) \<Rightarrow>
     (case tx_step ctx (run_sql exec_sql sql now) copy0 w1 of
        (w2, Inl err) \<Rightarrow> (w2, Inl (WrapError (''failed to execute migration '' @ file) err))
      | (w2, Inr copy1) \<Rightarrow>
     (case tx_step ctx (record_version file now) copy1 w2 of
        (w3, Inl err) \<Rightarrow> (w3, Inl (WrapError (''failed to record migration '' @ file) err))
      | (w3, Inr copy2) \<Rightarrow>
     (case db_call ctx (\<lambda>t d. (copy2, Inr ())) w3 of
        (w4, Inl err) \<Rightarrow> (w4, Inl (WrapError (''failed to commit migration '' @ file) err))
      | (w4, Inr _) \<Rightarrow> (w4, Inr ()))))))"

subsection \<open>Up\<close>

fun apply_files ::
    "'s sql_engine \<Rightarrow> Migrator \<Rightarrow> ctx \<Rightarrow> string list \<Rightarrow> (('s migrated, 'r) world, unit) io" where
  "apply_files exec_sql m ctx [] w = (w, Inr ())"
| "apply_files exec_sql m ctx (file # files) w =
     (case isApplied ctx file w of
        (w1, Inl err) \<Rightarrow> (w1, Inl err)
      | (w1, Inr True) \<Rightarrow> apply_files exec_sql m ctx files w1
      | (w1, Inr False) \<Rightarrow>
          (case apply_file exec_sql m ctx file w1 of
             (w2, Inl err) \<Rightarrow> (w2, Inl err)
           | (w2, Inr _) \<Rightarrow> apply_files exec_sql m ctx files w2))"

definition Migrator_Up :: "'s sql_engine \<Rightarrow> Migrator \<Rightarrow> ctx \<Rightarrow> (('s migrated, 'r) world, unit) io" where
  "Migrator_Up exec_sql m ctx w =
     (case ensureMigrationsTable ctx w of
        (w1, Inl err) \<Rightarrow> (w1, Inl err)
      | (w1, Inr _) \<Rightarrow>
     (case listMigrationFiles m of
        Inl err \<Rightarrow> (w1, Inl err)
      | Inr files \<Rightarrow> apply_files exec_sql m ctx files w1))"

end
