(* ===== verification/Migrator_Properties.thy ===== *)
theory Migrator_Properties
  imports Migrator
begin

section \<open>Properties of the migrations\<close>

text \<open>
  An abstract account of what a run of the migrator does, \<open>migrated_by\<close>: files applied one
  after another, each a whole change of the database with its version recorded. On every
  network the migrator does a part of that from the front, and all of it when it succeeds.
\<close>

subsection \<open>Names\<close>

lemma bytes_less_irrefl: "\<not> bytes_less s s"
  by (induction s) auto

lemma bytes_less_asym: "bytes_less s t \<Longrightarrow> \<not> bytes_less t s"
  by (induction s t rule: bytes_less.induct) auto

lemma bytes_less_trans: "bytes_less s t \<Longrightarrow> bytes_less t u \<Longrightarrow> bytes_less s u"
proof (induction s t arbitrary: u rule: bytes_less.induct)
  case (3 c s d t)
  then show ?case by (cases u) auto
qed (auto elim: bytes_less.elims)

lemma bytes_less_total: "bytes_less s t \<or> s = t \<or> bytes_less t s"
proof (induction s t rule: bytes_less.induct)
  case (3 c s d t)
  have "of_char c < (of_char d :: nat) \<or> c = d \<or> of_char d < (of_char c :: nat)"
    by (metis linorder_neqE_nat of_char_eq_iff)
  with 3 show ?case by auto
qed (case_tac s; simp)+

text \<open>So the bytes' order is a linear order, and the sort of the names is the library's sort for it.\<close>

abbreviation bytes_le_eq :: "string \<Rightarrow> string \<Rightarrow> bool" where
  "bytes_le_eq a b \<equiv> \<not> bytes_less b a"

interpretation bytes: linorder bytes_le_eq bytes_less
proof
  fix a b c
  show "bytes_less a b \<longleftrightarrow> bytes_le_eq a b \<and> \<not> bytes_le_eq b a" using bytes_less_asym by blast
  show "bytes_le_eq a a" by (simp add: bytes_less_irrefl)
  show "bytes_le_eq a b \<Longrightarrow> bytes_le_eq b c \<Longrightarrow> bytes_le_eq a c" using bytes_less_total bytes_less_trans by metis
  show "bytes_le_eq a b \<Longrightarrow> bytes_le_eq b a \<Longrightarrow> a = b" using bytes_less_total by blast
  show "bytes_le_eq a b \<or> bytes_le_eq b a" using bytes_less_asym by blast
qed

lemma insert_name_insort: "insert_name x ys = bytes.insort x ys"
  by (induction ys) simp_all

lemma sort_names_sort: "sort_names xs = bytes.sort xs"
  by (induction xs) (simp_all add: insert_name_insort)

lemma set_sort_names [simp]: "set (sort_names xs) = set xs"
  by (simp add: sort_names_sort)

lemma sorted_sort_names: "sorted_wrt bytes_le_eq (sort_names xs)"
  unfolding sort_names_sort by (rule bytes.sorted_sort)

text \<open>Whatever algorithm sorts them, names that are all different have this one order.\<close>

lemma sort_names_unique: "sorted_wrt bytes_le_eq ys \<Longrightarrow> mset ys = mset xs \<Longrightarrow> ys = sort_names xs"
  unfolding sort_names_sort by (rule bytes.properties_for_sort [symmetric]) simp_all

lemma sorted_strict: "sorted_wrt bytes_le_eq xs \<Longrightarrow> distinct xs \<Longrightarrow> sorted_wrt bytes_less xs"
proof (induction xs)
  case (Cons x xs)
  have "bytes_less x y" if "y \<in> set xs" for y
    using Cons.prems that bytes_less_total [of x y] by auto
  with Cons show ?case by simp
qed simp

lemma sorted_listMigrationFiles: "listMigrationFiles m = Inr files \<Longrightarrow> sorted_wrt bytes_le_eq files"
  by (auto simp: listMigrationFiles_def migration_files_def sorted_sort_names split: sum.splits)

subsection \<open>One file and several\<close>

definition versions :: "'s migrated \<Rightarrow> string list" where
  "versions d = (case mg_migrations d of None \<Rightarrow> [] | Some vs \<Rightarrow> map sm_version vs)"

definition with_table :: "'s migrated \<Rightarrow> 's migrated" where
  "with_table d = d\<lparr>mg_migrations := Some (case mg_migrations d of None \<Rightarrow> [] | Some vs \<Rightarrow> vs)\<rparr>"

lemma with_table_simps [simp]:
  "versions (with_table d) = versions d" "mg_migrations (with_table d) \<noteq> None"
  "mg_schema (with_table d) = mg_schema d"
  by (simp_all add: versions_def with_table_def split: option.split)

lemma with_table_id: "mg_migrations d \<noteq> None \<Longrightarrow> with_table d = d"
  by (auto simp: with_table_def)

definition migrate_one ::
    "'s sql_engine \<Rightarrow> Migrator \<Rightarrow> string \<Rightarrow> gotime \<Rightarrow> 's migrated \<Rightarrow> go_error + 's migrated" where
  "migrate_one exec_sql m file t d =
     (case fs_ReadFile (m_fs m) (filepath_Join (m_dir m) file) of
        Inl msg \<Rightarrow> Inl (PlainError msg)
      | Inr sql \<Rightarrow>
          (case run_sql exec_sql sql t d of Inl e \<Rightarrow> Inl e | Inr d1 \<Rightarrow> record_version file t d1))"

inductive migrated_by :: "'s sql_engine \<Rightarrow> Migrator \<Rightarrow> 's migrated \<Rightarrow> string list \<Rightarrow> 's migrated \<Rightarrow> bool"
  for exec_sql m where
  none: "migrated_by exec_sql m d [] d"
| one: "migrate_one exec_sql m file t d = Inr d1 \<Longrightarrow> migrated_by exec_sql m d1 files d2 \<Longrightarrow>
    migrated_by exec_sql m d (file # files) d2"

inductive_cases migrated_by_NilE: "migrated_by exec_sql m d [] d'"
inductive_cases migrated_by_ConsE: "migrated_by exec_sql m d (file # files) d'"

lemma migrate_one_versions:
  assumes "migrate_one exec_sql m file t d = Inr d'"
  shows "versions d' = versions d @ [file]" "file \<notin> set (versions d)" "mg_migrations d' \<noteq> None"
  using assms
  by (auto simp: migrate_one_def run_sql_def record_version_def versions_def split: sum.splits option.splits if_splits)

lemma migrated_by_versions:
  "migrated_by exec_sql m d ks d' \<Longrightarrow> versions d' = versions d @ ks"
  by (induction rule: migrated_by.induct) (auto simp: migrate_one_versions(1))

lemma migrated_by_table:
  "migrated_by exec_sql m d ks d' \<Longrightarrow> mg_migrations d \<noteq> None \<Longrightarrow> mg_migrations d' \<noteq> None"
  by (induction rule: migrated_by.induct) (auto dest: migrate_one_versions(3))

subsection \<open>The calls\<close>

lemma ensureMigrationsTable_cases:
  assumes "ensureMigrationsTable ctx w = (w1, r)"
  shows "w_db w1 = w_db w \<and> r \<noteq> Inr () \<or> w_db w1 = with_table (w_db w)"
proof -
  obtain w' x where c: "db_call ctx (\<lambda>now d.
      (d\<lparr>mg_migrations := Some (case mg_migrations d of None \<Rightarrow> [] | Some vs \<Rightarrow> vs)\<rparr>, Inr ())) w = (w', x)"
    by fastforce
  have s: "w' = w1" "r = wrap_error ''failed to ensure schema_migrations table'' x"
    using assms c by (simp_all add: ensureMigrationsTable_def)
  from c show ?thesis by (rule db_call_cases) (auto simp: s wrap_error_def with_table_def)
qed

lemma isApplied_cases:
  assumes "isApplied ctx file w = (w1, r)"
  shows "w_db w1 = w_db w" "r = Inr b \<Longrightarrow> b \<longleftrightarrow> file \<in> set (versions (w_db w))"
proof -
  obtain w' x where c: "db_call ctx (\<lambda>now d. (d, version_applied file d)) w = (w', x)" by fastforce
  have s: "w' = w1" "r = wrap_error (''failed to query migration version '' @ file) x"
    using assms c by (simp_all add: isApplied_def)
  from c show "w_db w1 = w_db w" by (rule db_call_cases) (auto simp: s)
  assume "r = Inr b"
  with s have "x = Inr b" by (auto simp: wrap_error_def split: sum.splits)
  with db_call_Inr(1) [OF c [unfolded this]] show "b \<longleftrightarrow> file \<in> set (versions (w_db w))"
    by (auto simp: version_applied_def versions_def split: option.splits)
qed

text \<open>A statement of a transaction leaves the database alone; its result is the statement's.\<close>

lemma remote_pure:
  assumes "remote ctx (\<lambda>w. (w, f w)) v = (v', x)"
  shows "w_db v' = w_db v" "x = Inr y \<Longrightarrow> \<exists>u. w_db u = w_db v \<and> f u = Inr y"
  using assms by (auto simp: remote_def split: if_splits outcome.splits intro!: exI [of _ "pass_time v"])

text \<open>A file is applied whole or not at all; it can be applied and its commit reported failed.\<close>

lemma apply_file_atomic:
  assumes "apply_file exec_sql m ctx file w = (w', r)"
  shows "w_db w' = w_db w \<and> r \<noteq> Inr () \<or> (\<exists>t. migrate_one exec_sql m file t (w_db w) = Inr (w_db w'))"
proof (cases "fs_ReadFile (m_fs m) (filepath_Join (m_dir m) file)")
  case (Inl msg)
  with assms show ?thesis by (auto simp: apply_file_def)
next
  case (Inr sql)
  obtain w1 x where b: "remote ctx (\<lambda>w. (w, Inr (w_db w, w_now w))) w = (w1, x)" by fastforce
  show ?thesis
  proof (cases x)
    case e: (Inl err)
    with assms Inr b remote_pure(1) [OF b] show ?thesis by (auto simp: apply_file_def)
  next
    case x: (Inr cn)
    obtain copy0 now where cn: "cn = (copy0, now)" by fastforce
    have copy0: "copy0 = w_db w" and w1: "w_db w1 = w_db w"
      using remote_pure [OF b] x cn by auto
    obtain w2 y where s1: "tx_step ctx (run_sql exec_sql sql now) copy0 w1 = (w2, y)" by fastforce
    have w2: "w_db w2 = w_db w1" "\<And>c. y = Inr c \<Longrightarrow> run_sql exec_sql sql now copy0 = Inr c"
      using remote_pure [OF s1 [unfolded tx_step_def]] by auto
    show ?thesis
    proof (cases y)
      case (Inl err)
      with assms Inr b x cn s1 w1 w2 show ?thesis by (auto simp: apply_file_def)
    next
      case y: (Inr copy1)
      obtain w3 z where s2: "tx_step ctx (record_version file now) copy1 w2 = (w3, z)" by fastforce
      have w3: "w_db w3 = w_db w2" "\<And>c. z = Inr c \<Longrightarrow> record_version file now copy1 = Inr c"
        using remote_pure [OF s2 [unfolded tx_step_def]] by auto
      show ?thesis
      proof (cases z)
        case (Inl err)
        with assms Inr b x cn s1 y s2 w1 w2 w3 show ?thesis by (auto simp: apply_file_def)
      next
        case z: (Inr copy2)
        have one: "migrate_one exec_sql m file now (w_db w) = Inr copy2"
          using Inr w2(2) [OF y] w3(2) [OF z] copy0 by (simp add: migrate_one_def)
        obtain w4 v where c: "db_call ctx (\<lambda>t d. (copy2, Inr ())) w3 = (w4, v)" by fastforce
        have last: "w' = w4" "r = Inr () \<longleftrightarrow> v = Inr ()"
          using assms Inr b x cn s1 y s2 z c by (auto simp: apply_file_def split: sum.splits)
        from c show ?thesis
          by (rule db_call_cases) (use one w1 w2 w3 last in auto)
      qed
    qed
  qed
qed

text \<open>The ways through one file of \<open>Up\<close>.\<close>

lemma apply_files_step:
  assumes "apply_files exec_sql m ctx (fn # files) w = (w', r)"
  obtains (stopped) "w_db w' = w_db w" "r \<noteq> Inr ()"
  | (skipped) w1 where "fn \<in> set (versions (w_db w))" "w_db w1 = w_db w" "apply_files exec_sql m ctx files w1 = (w', r)"
  | (unheard) t where "migrate_one exec_sql m fn t (w_db w) = Inr (w_db w')" "r \<noteq> Inr ()"
  | (applied) t w2 where "migrate_one exec_sql m fn t (w_db w) = Inr (w_db w2)"
      "apply_files exec_sql m ctx files w2 = (w', r)"
proof -
  obtain w1 a where a: "isApplied ctx fn w = (w1, a)" by fastforce
  note db1 = isApplied_cases(1) [OF a]
  obtain w2 c where c: "apply_file exec_sql m ctx fn w1 = (w2, c)" by fastforce
  consider err where "a = Inl err" | "a = Inr True" | err where "a = Inr False" "c = Inl err" | "a = Inr False" "c = Inr ()"
    by (cases a; cases c) auto
  then show ?thesis
  proof cases
    case 1
    with assms a db1 show ?thesis by (intro stopped) auto
  next
    case 2
    with assms a db1 isApplied_cases(2) [OF a 2] show ?thesis by (intro skipped) auto
  next
    case (3 err)
    with assms a c have w': "w' = w2" "r \<noteq> Inr ()" by auto
    from apply_file_atomic [OF c] show ?thesis
      unfolding db1 w'(1) [symmetric] using stopped unheard w'(2) by blast
  next
    case 4
    with assms a c have "apply_files exec_sql m ctx files w2 = (w', r)" by simp
    with apply_file_atomic [OF c] 4(2) applied show ?thesis unfolding db1 by auto
  qed
qed

text \<open>The loop over the files does a part of the pending ones, from the front.\<close>

lemma apply_files_prefix:
  assumes "apply_files exec_sql m ctx files w = (w', r)" and "distinct files" and "mg_migrations (w_db w) \<noteq> None"
  shows "\<exists>ks rest. filter (\<lambda>f. f \<notin> set (versions (w_db w))) files = ks @ rest \<and>
    migrated_by exec_sql m (w_db w) ks (w_db w') \<and> (r = Inr () \<longrightarrow> rest = [])"
  using assms
proof (induction files arbitrary: w)
  case Nil
  then show ?case by (auto intro: migrated_by.none)
next
  case (Cons fn files)
  let ?pending = "\<lambda>fs v. filter (\<lambda>f. f \<notin> set (versions (w_db v))) fs"
  have pend: "?pending (fn # files) w = fn # ?pending files v"
    if "migrate_one exec_sql m fn t (w_db w) = Inr (w_db v)" for t and v :: "('a migrated, 'b) world"
    using migrate_one_versions [OF that] Cons.prems(2) by (auto intro!: filter_cong)
  from Cons.prems(1) show ?case
  proof (cases rule: apply_files_step)
    case stopped
    then show ?thesis by (intro exI [of _ "[]"] exI [of _ "?pending (fn # files) w"]) (auto intro: migrated_by.none)
  next
    case (skipped w1)
    with Cons.IH [OF skipped(3)] Cons.prems(2,3) show ?thesis by simp
  next
    case (unheard t)
    with pend [OF unheard(1)] show ?thesis
      by (intro exI [of _ "[fn]"] exI [of _ "?pending files w'"]) (auto intro!: migrated_by.intros)
  next
    case (applied t w2)
    from Cons.IH [OF applied(2)] Cons.prems(2) migrate_one_versions(3) [OF applied(1)] obtain ks rest where
        "?pending files w2 = ks @ rest" "migrated_by exec_sql m (w_db w2) ks (w_db w')" "r = Inr () \<longrightarrow> rest = []"
      by auto
    with pend [OF applied(1)] applied(1) show ?thesis
      by (intro exI [of _ "fn # ks"] exI [of _ rest]) (auto intro: migrated_by.one)
  qed
qed

lemma Up_prefix:
  assumes "Migrator_Up exec_sql m ctx w = (w', r)" and "listMigrationFiles m = Inr files" and "distinct files"
  shows "w_db w' = w_db w \<and> r \<noteq> Inr () \<or>
    (\<exists>ks rest. filter (\<lambda>f. f \<notin> set (versions (w_db w))) files = ks @ rest \<and>
       migrated_by exec_sql m (with_table (w_db w)) ks (w_db w') \<and> (r = Inr () \<longrightarrow> rest = []))"
proof -
  obtain w1 x where e: "ensureMigrationsTable ctx w = (w1, x)" by fastforce
  show ?thesis
  proof (cases x)
    case (Inl err)
    with assms(1) e have w': "w' = w1" "r = Inl err" by (simp_all add: Migrator_Up_def)
    from ensureMigrationsTable_cases [OF e] show ?thesis
    proof (elim disjE)
      assume "w_db w1 = with_table (w_db w)"
      then show ?thesis
        using w' by (intro disjI2 exI [of _ "[]"] exI [of _ "filter (\<lambda>f. f \<notin> set (versions (w_db w))) files"])
          (auto intro: migrated_by.none)
    qed (auto simp: w')
  next
    case (Inr u)
    with ensureMigrationsTable_cases [OF e] have d: "w_db w1 = with_table (w_db w)" by simp
    have "apply_files exec_sql m ctx files w1 = (w', r)"
      using assms(1,2) e Inr by (simp add: Migrator_Up_def)
    from apply_files_prefix [OF this assms(3)] show ?thesis by (simp add: d)
  qed
qed

subsection \<open>Properties\<close>

text \<open>C36: On every network a run of the migrator applies the pending files of the directory from the
  first on, in increasing order of their names, each one whole with its version recorded and
  none twice, and stops where one fails; it reports success only when every file of the
  directory is applied.\<close>

theorem migrations_in_order:
  assumes "Migrator_Up exec_sql m ctx w = (w', r)" and "listMigrationFiles m = Inr files" and "distinct files"
  shows "w_db w' = w_db w \<and> r \<noteq> Inr () \<or>
    (\<exists>ks rest. filter (\<lambda>f. f \<notin> set (versions (w_db w))) files = ks @ rest \<and> sorted_wrt bytes_less ks \<and>
       migrated_by exec_sql m (with_table (w_db w)) ks (w_db w') \<and> versions (w_db w') = versions (w_db w) @ ks \<and>
       (r = Inr () \<longrightarrow> set files \<subseteq> set (versions (w_db w'))))"
proof -
  from Up_prefix [OF assms] show ?thesis
  proof (elim disjE exE conjE)
    fix ks rest
    assume ks: "filter (\<lambda>f. f \<notin> set (versions (w_db w))) files = ks @ rest"
      and by_ks: "migrated_by exec_sql m (with_table (w_db w)) ks (w_db w')" and complete: "r = Inr () \<longrightarrow> rest = []"
    have "sorted_wrt bytes_le_eq (ks @ rest)"
      using sorted_wrt_filter [OF sorted_listMigrationFiles [OF assms(2)]] unfolding ks [symmetric] .
    moreover have "distinct ks" using assms(3) distinct_filter ks by (metis distinct_append)
    ultimately have "sorted_wrt bytes_less ks" by (intro sorted_strict) (simp_all add: sorted_wrt_append)
    moreover have "versions (w_db w') = versions (w_db w) @ ks" using migrated_by_versions [OF by_ks] by simp
    moreover have "set files \<subseteq> set (versions (w_db w) @ ks)" if "rest = []"
    proof
      fix f
      assume "f \<in> set files"
      then show "f \<in> set (versions (w_db w) @ ks)"
        using ks that by (cases "f \<in> set (versions (w_db w))") (auto dest: arg_cong [of _ _ set])
    qed
    ultimately show ?thesis using ks by_ks complete by auto
  qed simp
qed

definition sample_files :: file_system where
  "sample_files =
     \<lparr>fs_ReadDir = (\<lambda>dir. Inr [(''0001_init.sql'', False), (''0002_data.sql'', False), (''README.md'', False),
        (''old.sql'', True)]),
      fs_ReadFile = (\<lambda>path. Inr (''-- '' @ path))\<rparr>"

definition sample_migrator :: Migrator where
  "sample_migrator = \<lparr>m_dir = ''migrations'', m_fs = sample_files\<rparr>"

definition sample_sql :: "string list sql_engine" where
  "sample_sql = (\<lambda>sql t s. Inr (s @ [sql]))"

definition empty_world :: "(string list migrated, unit) world" where
  "empty_world = \<lparr>w_now = 0, w_script = [], w_db = \<lparr>mg_migrations = None, mg_schema = []\<rparr>, w_rd = ()\<rparr>"

lemma sample_migration_files: "listMigrationFiles sample_migrator = Inr [''0001_init.sql'', ''0002_data.sql'']"
  by code_simp

lemma sample_Up:
  "Migrator_Up sample_sql sample_migrator None empty_world =
     (empty_world\<lparr>w_db := \<lparr>mg_migrations = Some [\<lparr>sm_version = ''0001_init.sql'', sm_applied_at = 0\<rparr>,
        \<lparr>sm_version = ''0002_data.sql'', sm_applied_at = 0\<rparr>],
      mg_schema = [''-- migrations/0001_init.sql'', ''-- migrations/0002_data.sql'']\<rparr>\<rparr>, Inr ())"
  by code_simp
theorem migrations_in_order_witness:
  "versions (w_db (fst (Migrator_Up sample_sql sample_migrator None empty_world))) =
     [''0001_init.sql'', ''0002_data.sql'']"
  using migrations_in_order [OF sample_Up sample_migration_files] sample_Up
  by (auto simp: versions_def empty_world_def)

text \<open>C39: Migrating again changes nothing: after a run that succeeded, a further run over the same
  directory leaves the database as it is, whatever the network does, and succeeds where no
  call fails.\<close>

theorem migrate_again:
  assumes "Migrator_Up exec_sql m ctx w = (w1, Inr ())" and "listMigrationFiles m = Inr files" and "distinct files"
    and "w_db v = w_db w1" and "Migrator_Up exec_sql' m ctx' v = (v1, r)"
  shows "w_db v1 = w_db w1 \<and> (undisturbed ctx' v \<longrightarrow> r = Inr ())"
proof -
  from Up_prefix [OF assms(1-3)] obtain ks where
      ks: "filter (\<lambda>f. f \<notin> set (versions (w_db w))) files = ks" "migrated_by exec_sql m (with_table (w_db w)) ks (w_db w1)"
    by auto
  have tab: "mg_migrations (w_db w1) \<noteq> None" using migrated_by_table [OF ks(2)] by simp
  have all: "set files \<subseteq> set (versions (w_db w1))"
    using ks(1) migrated_by_versions [OF ks(2)] by auto
  then have none: "filter (\<lambda>f. f \<notin> set (versions (w_db v))) files = []"
    by (auto simp: assms(4) filter_empty_conv)
  from Up_prefix [OF assms(5,2,3)] have "w_db v1 = w_db v \<or> w_db v1 = with_table (w_db v)"
    by (auto simp: none elim: migrated_by_NilE)
  then have same: "w_db v1 = w_db w1" using with_table_id [OF tab] by (auto simp: assms(4))
  have "r = Inr ()" if "undisturbed ctx' v"
  proof -
    have loop: "apply_files exec_sql' m ctx' fs v = (v, Inr ())" if "set fs \<subseteq> set files" for fs
      using that
    proof (induction fs)
      case (Cons x xs)
      then have "isApplied ctx' x v = (v, Inr True)"
        using tab all \<open>undisturbed ctx' v\<close>
        by (auto simp: isApplied_def db_call_undisturbed version_applied_def versions_def assms(4) wrap_error_def
            split: option.splits)
      with Cons show ?case by simp
    qed simp
    have "v\<lparr>w_db := with_table (w_db v)\<rparr> = v" using with_table_id [OF tab] by (simp add: assms(4))
    then have "ensureMigrationsTable ctx' v = (v, Inr ())"
      using that by (simp add: ensureMigrationsTable_def db_call_undisturbed wrap_error_def with_table_def)
    with loop [of files] assms(2,5) show ?thesis by (simp add: Migrator_Up_def)
  qed
  with same show ?thesis by blast
qed

theorem migrate_again_witness:
  "\<exists>v1. Migrator_Up sample_sql sample_migrator None (fst (Migrator_Up sample_sql sample_migrator None empty_world)) =
     (v1, Inr ()) \<and> mg_schema (w_db v1) = [''-- migrations/0001_init.sql'', ''-- migrations/0002_data.sql'']"
proof -
  let ?v = "fst (Migrator_Up sample_sql sample_migrator None empty_world)"
  obtain v1 r where v: "Migrator_Up sample_sql sample_migrator None ?v = (v1, r)" by fastforce
  have "undisturbed None ?v" unfolding sample_Up by (simp add: undisturbed_def empty_world_def)
  with migrate_again [OF sample_Up sample_migration_files _ _ v] v show ?thesis
    by (auto simp: sample_Up)
qed

end
