(* ===== verification/Seeder.thy ===== *)
theory Seeder
  imports Pg_Runs
begin

section \<open>The seeder\<close>

text \<open>
  \<open>internal/infrastructure/postgres/seed.go\<close> and \<open>parseBool\<close> of \<open>cmd/seed/main.go\<close>: 25000 demo
  events in one statement, then a run and a rebuild of the snapshots of each report and
  window over the last ninety days. The statements are not in one transaction.
\<close>

subsection \<open>The demo events\<close>

text \<open>\<open>MAX(id) FILTER (WHERE slug = ...)\<close>: NULL where there is no such source.\<close>

definition max_source_id :: "string \<Rightarrow> source_row list \<Rightarrow> int option" where
  "max_source_id slug sources =
     (case map src_id (filter (\<lambda>s. src_slug s = slug) sources) of
        [] \<Rightarrow> None
      | i # ids \<Rightarrow> Some (fold max ids i))"

definition hour_trunc :: "gotime \<Rightarrow> gotime" where
  "hour_trunc t = t - t mod ns_Hour"

definition seed_source :: "source_row list \<Rightarrow> int \<Rightarrow> int option" where
  "seed_source sources gs =
     (if gs mod 3 = 0 then max_source_id ''stripe'' sources
      else if gs mod 3 = 1 then max_source_id ''adyen'' sources
      else max_source_id ''paypal'' sources)"

definition seed_payload :: "int \<Rightarrow> json" where
  "seed_payload gs = JObj
     [(''region'', JStr ([''us-east'', ''eu-west'', ''ap-south''] ! nat (gs mod 3))),
      (''batch'', JNum (gs div 100)),
      (''provider_rank'', JNum (gs mod 5))]"

definition seed_event :: "gotime \<Rightarrow> int \<Rightarrow> int \<Rightarrow> event_row" where
  "seed_event now source gs =
     \<lparr>ev_source_id = source,
      ev_external_ref = ''evt-'' @ int_dec gs,
      ev_entity_id = ''entity-'' @ int_dec (gs mod 240 + 1),
      ev_status = (if gs mod 17 = 0 then ''failed'' else if gs mod 11 = 0 then ''pending'' else ''success''),
      ev_processing_ms = 80 + gs mod 700,
      ev_amount_cents = 100 + gs * 37 mod 100000,
      ev_occurred_at = hour_trunc (now - gs mod 90 * ns_Day - gs mod 24 * ns_Hour),
      ev_payload = seed_payload gs\<rparr>"

definition seed_size :: int where "seed_size = 25000"

text \<open>The constraints of the table on the inserted rows; a missing source violates \<open>NOT NULL\<close>.\<close>

definition insert_events :: "event_row list \<Rightarrow> pgdb \<Rightarrow> go_error + pgdb" where
  "insert_events rows d =
     (if \<not> list_all (event_ok (db_sources d)) rows then Inl (pg_error ''insert violates a constraint'')
      else if \<not> distinct (map ev_external_ref (db_events d @ rows))
        then Inl (pg_error ''duplicate key value violates unique constraint'')
      else Inr (d\<lparr>db_events := db_events d @ rows\<rparr>))"

definition sql_seed_events :: "gotime \<Rightarrow> pgdb \<Rightarrow> go_error + pgdb" where
  "sql_seed_events now d =
     (if \<exists>gs \<in> set [1..seed_size]. seed_source (db_sources d) gs = None
      then Inl (pg_error ''null value violates not-null constraint'')
      else insert_events
             (map (\<lambda>gs. seed_event now (the (seed_source (db_sources d) gs)) gs) [1..seed_size]) d)"

subsection \<open>Seeding\<close>

definition sql_truncate :: "pgdb \<Rightarrow> pgdb" where
  "sql_truncate d =
     d\<lparr>db_events := [], db_runs := [], db_snapshots := [], db_audits := [], db_audit_seq := 1\<rparr>"

definition seed_request :: "string \<Rightarrow> string \<Rightarrow> gotime \<Rightarrow> gotime \<Rightarrow> RecomputeRequest" where
  "seed_request slug window dfrom dto =
     \<lparr>rq_ReportSlug = slug, rq_Window = window, rq_DateFrom = dfrom, rq_DateTo = dto,
      rq_RequestedBy = ''seed'', rq_RequestedVia = ''''\<rparr>"

definition seedSnapshots ::
    "pg_server \<Rightarrow> ctx \<Rightarrow> string \<Rightarrow> string \<Rightarrow> gotime \<Rightarrow> gotime \<Rightarrow> ((pgdb, 'r) world, unit) io" where
  "seedSnapshots pg ctx slug window dfrom dto w =
     (let request = seed_request slug window dfrom dto; scope = slug @ ''/'' @ window in
      case Store_CreateRun pg ctx request RunStatusRunning w of
        (w1, Inl err) \<Rightarrow> (w1, Inl (WrapError (''failed to create seed run for '' @ scope) err))
      | (w1, Inr run) \<Rightarrow>
     (case Store_RecomputeReport pg ctx request (run_ID run) w1 of
        (w2, Inl err) \<Rightarrow>
          (fst (Store_MarkRunFailed pg ctx (run_ID run) (Error err) w2),
           Inl (WrapError (''failed to recompute seed snapshots for '' @ scope) err))
      | (w2, Inr summary) \<Rightarrow>
     (case Store_MarkRunCompleted pg ctx (run_ID run) summary w2 of
        (w3, Inl err) \<Rightarrow> (w3, Inl (WrapError (''failed to finalize seed run for '' @ scope) err))
      | (w3, Inr _) \<Rightarrow> (w3, Inr ()))))"

fun seed_all ::
    "pg_server \<Rightarrow> ctx \<Rightarrow> gotime \<Rightarrow> gotime \<Rightarrow> (string \<times> string) list \<Rightarrow> ((pgdb, 'r) world, unit) io" where
  "seed_all pg ctx dfrom dto [] w = (w, Inr ())"
| "seed_all pg ctx dfrom dto ((slug, window) # rest) w =
     (case seedSnapshots pg ctx slug window dfrom dto w of
        (w1, Inl err) \<Rightarrow> (w1, Inl err)
      | (w1, Inr _) \<Rightarrow> seed_all pg ctx dfrom dto rest w1)"

definition seed_pairs :: "(string \<times> string) list" where
  "seed_pairs =
     [(slug, window). slug \<leftarrow> [''volume-by-period'', ''status-counts'', ''top-entities''],
                      window \<leftarrow> [WindowDay, WindowWeek]]"

definition seed_reset :: "ctx \<Rightarrow> bool \<Rightarrow> ((pgdb, 'r) world, unit) io" where
  "seed_reset ctx force w =
     (if force then
        (case db_call ctx (\<lambda>now d. (sql_truncate d, Inr ())) w of
           (w1, Inl err) \<Rightarrow> (w1, Inl (WrapError ''failed to reset demo tables'' err))
         | (w1, Inr _) \<Rightarrow> (w1, Inr ()))
      else (w, Inr ()))"

definition Seeder_Seed :: "pg_server \<Rightarrow> ctx \<Rightarrow> bool \<Rightarrow> ((pgdb, 'r) world, unit) io" where
  "Seeder_Seed pg ctx force w =
     (case seed_reset ctx force w of
        (w1, Inl err) \<Rightarrow> (w1, Inl err)
      | (w1, Inr _) \<Rightarrow>
     (case db_call ctx (\<lambda>now d. (d, Inr (int (length (db_events d))))) w1 of
        (w2, Inl err) \<Rightarrow> (w2, Inl (WrapError ''failed to check analytics_events count'' err))
      | (w2, Inr eventsCount) \<Rightarrow>
          if 0 < eventsCount then (w2, Inr ())
          else
            (case db_call ctx (\<lambda>now d. case sql_seed_events now d of Inl e \<Rightarrow> (d, Inl e) | Inr d' \<Rightarrow> (d', Inr ())) w2 of
               (w3, Inl err) \<Rightarrow> (w3, Inl (WrapError ''failed to insert demo events'' err))
             | (w3, Inr _) \<Rightarrow> seed_all pg ctx (AddDays (w_now w3) (- 90)) (w_now w3) seed_pairs w3)))"

text \<open>The flag of \<open>cmd/seed\<close>.\<close>

definition parseBool :: "string \<Rightarrow> bool" where
  "parseBool raw = (if raw = '''' then False else case ParseBool raw of None \<Rightarrow> False | Some b \<Rightarrow> b)"

end
