(* ===== verification/Seeder_Properties.thy ===== *)
theory Seeder_Properties
  imports Seeder Recompute_Properties
begin

section \<open>Properties of the seeder\<close>

text \<open>
  The demo events meet the constraints and lie in the seeded range, a successful seed leaves
  exact snapshots for every event, and existing events are never touched without the flag.
\<close>

subsection \<open>The demo events\<close>

lemma seed_event_ok:
  assumes "0 \<le> gs" and "source \<in> set (map src_id sources)"
  shows "event_ok sources (seed_event now source gs)"
  using assms by (simp add: event_ok_def event_status_ok_def seed_event_def)

lemma fold_max_mem: "fold max xs x \<in> insert x (set xs)"
  for x :: int
proof (induction xs arbitrary: x)
  case (Cons a xs)
  from Cons.IH [of "max a x"] show ?case by (auto simp: max_def split: if_splits)
qed simp

lemma max_source_id_mem: "max_source_id slug sources = Some i \<Longrightarrow> i \<in> set (map src_id sources)"
proof -
  assume "max_source_id slug sources = Some i"
  then obtain j js where "map src_id (filter (\<lambda>s. src_slug s = slug) sources) = j # js" "i = fold max js j"
    by (auto simp: max_source_id_def split: list.splits)
  with fold_max_mem [of js j] have "i \<in> set (map src_id (filter (\<lambda>s. src_slug s = slug) sources))" by simp
  then show ?thesis by auto
qed

lemma seed_source_mem: "seed_source sources gs = Some i \<Longrightarrow> i \<in> set (map src_id sources)"
  unfolding seed_source_def by (auto split: if_splits dest: max_source_id_mem)

lemma seed_event_time:
  assumes "e = seed_event now source gs"
  shows "start_of_day (AddDays now (- 90)) \<le> ev_occurred_at e" "ev_occurred_at e \<le> now"
proof -
  let ?t = "now - gs mod 90 * ns_Day - gs mod 24 * ns_Hour"
  have day: "ns_Day = 24 * ns_Hour" "0 < ns_Hour"
    by (simp_all add: ns_Day_def ns_Hour_def ns_Minute_def ns_Second_def)
  have t: "ev_occurred_at e = ?t - ?t mod ns_Hour" using assms by (simp add: seed_event_def hour_trunc_def)
  have r: "0 \<le> ?t mod ns_Hour" "?t mod ns_Hour < ns_Hour" using day(2) by simp_all
  have "gs mod 90 * ns_Day \<le> 89 * ns_Day" "0 \<le> gs mod 90 * ns_Day" by (auto intro: mult_right_mono)
  moreover have "gs mod 24 * ns_Hour \<le> 23 * ns_Hour" "0 \<le> gs mod 24 * ns_Hour"
    using day(2) by (auto intro: mult_right_mono)
  ultimately have "now - 90 * ns_Day \<le> ?t - ?t mod ns_Hour" "?t - ?t mod ns_Hour \<le> now"
    using r day by linarith+
  then show "start_of_day (AddDays now (- 90)) \<le> ev_occurred_at e" "ev_occurred_at e \<le> now"
    using start_of_day_le [of "AddDays now (- 90)"] by (simp_all add: t AddDays_def)
qed

lemma sql_seed_events_Inr:
  assumes "sql_seed_events now d = Inr d'"
  shows "\<exists>rows. d' = d\<lparr>db_events := db_events d @ rows\<rparr> \<and> int (length rows) = seed_size \<and>
    (\<forall>e \<in> set rows. \<exists>source gs. e = seed_event now source gs) \<and>
    list_all (event_ok (db_sources d)) rows \<and> distinct (map ev_external_ref (db_events d @ rows))"
proof -
  let ?rows = "map (\<lambda>gs. seed_event now (the (seed_source (db_sources d) gs)) gs) [1..seed_size]"
  have "insert_events ?rows d = Inr d'"
    using assms by (auto simp: sql_seed_events_def split: if_splits)
  then show ?thesis
    by (intro exI [of _ ?rows])
      (auto simp: insert_events_def seed_size_def simp del: map_append split: if_splits)
qed

lemma sql_seed_events_ok:
  assumes "db_events d = []" and "\<And>gs. seed_source (db_sources d) gs \<noteq> None"
  shows "\<exists>d'. sql_seed_events now d = Inr d'"
proof -
  let ?f = "\<lambda>gs. seed_event now (the (seed_source (db_sources d) gs)) gs"
  have "event_ok (db_sources d) (?f gs)" if "0 \<le> gs" for gs
    using seed_event_ok [OF that seed_source_mem] assms(2) [of gs] by auto
  then have "list_all (event_ok (db_sources d)) (map ?f [1..seed_size])" by (auto simp: list_all_iff)
  moreover have "distinct (map ev_external_ref (map ?f [1..seed_size]))"
    by (auto simp: distinct_map seed_event_def inj_on_def comp_def)
  ultimately show ?thesis using assms by (simp add: sql_seed_events_def insert_events_def)
qed

subsection \<open>One report and window\<close>

lemma stored_count_same: "db_snapshots d' = db_snapshots d \<Longrightarrow> stored_count d' = stored_count d"
  by (intro ext) (simp add: stored_count_def split: option.split)

lemma bucket_events_same:
  "db_events d' = db_events d \<Longrightarrow> db_sources d' = db_sources d \<Longrightarrow> bucket_events d' = bucket_events d"
  by (intro ext) (simp add: bucket_events_def event_dimension_def)

text \<open>What a served call leaves of the events, the sources and the snapshots.\<close>

definition same_data :: "pgdb \<Rightarrow> pgdb \<Rightarrow> bool" where
  "same_data d d' \<longleftrightarrow> db_events d' = db_events d \<and> db_sources d' = db_sources d \<and> db_snapshots d' = db_snapshots d"

lemma CreateRun_Inr_keeps:
  assumes "Store_CreateRun pg ctx rq st w = (w', Inr run)" and "db_consistent (w_db w)"
  shows "db_consistent (w_db w') \<and> same_data (w_db w) (w_db w')"
proof -
  let ?d0 = "(w_db w)\<lparr>db_uuids := db_uuids (w_db w) + 1\<rparr>"
  from db_call_Inr(1) [OF assms(1) [unfolded Store_CreateRun_def]] obtain r where
      "insert_run r ?d0 = Inr (w_db w')" by (auto simp: Let_def split: sum.splits)
  moreover from this have "same_data (w_db w) (w_db w')" by (auto simp: insert_run_Inr_iff same_data_def)
  ultimately show ?thesis using insert_run_consistent assms(2) by auto
qed

lemma MarkRunCompleted_Inr_keeps:
  assumes "Store_MarkRunCompleted pg ctx i m w = (w', Inr ())" and "db_consistent (w_db w)"
  shows "db_consistent (w_db w') \<and> same_data (w_db w) (w_db w')"
proof -
  from db_call_Inr(1) [OF assms(1) [unfolded Store_MarkRunCompleted_def]]
  have u: "sql_update_run pg i (\<lambda>r. r\<lparr>rn_status := ''completed'', rn_finished_at := Some (w_now w'),
      rn_error_message := None, rn_summary := summary_json m\<rparr>) (w_db w) = (w_db w', Inr ())" .
  have "db_consistent (w_db w')"
    using sql_update_run_consistent [OF u assms(2)] by (simp add: status_ok_def)
  moreover obtain R where "w_db w' = (w_db w)\<lparr>db_runs := R\<rparr>"
    using u by (auto simp: sql_update_run_def split: option.splits dest: sym)
  then have "same_data (w_db w) (w_db w')" by (simp add: same_data_def)
  ultimately show ?thesis ..
qed

lemma seed_request_simps [simp]:
  "rq_ReportSlug (seed_request slug win f t) = slug" "rq_Window (seed_request slug win f t) = win"
  "fromTS_of (seed_request slug win f t) = start_of_day f"
  "toExclusive_of (seed_request slug win f t) = AddDays (start_of_day t) 1"
  by (simp_all add: seed_request_def fromTS_of_def toExclusive_of_def)

lemma seedSnapshots_Inr:
  assumes "seedSnapshots pg ctx slug win f t w = (w', Inr ())" and "db_consistent (w_db w)"
  shows "db_consistent (w_db w')" "db_events (w_db w') = db_events (w_db w)" "db_sources (w_db w') = db_sources (w_db w)"
    "affected_bucket win (start_of_day f) (AddDays (start_of_day t) 1) b \<Longrightarrow>
       stored_count (w_db w') slug win b v =
         int (length (filter (in_range (seed_request slug win f t)) (bucket_events (w_db w') slug win b v)))"
    "(slug', win') \<noteq> (slug, win) \<Longrightarrow> stored_count (w_db w') slug' win' b v = stored_count (w_db w) slug' win' b v"
proof -
  let ?rq = "seed_request slug win f t"
  obtain w1 run where c: "Store_CreateRun pg ctx ?rq RunStatusRunning w = (w1, Inr run)"
    using assms(1) by (auto simp: seedSnapshots_def Let_def split: prod.splits sum.splits)
  obtain w2 summary where r: "Store_RecomputeReport pg ctx ?rq (run_ID run) w1 = (w2, Inr summary)"
    using assms(1) c by (auto simp: seedSnapshots_def Let_def split: prod.splits sum.splits)
  have m: "Store_MarkRunCompleted pg ctx (run_ID run) summary w2 = (w', Inr ())"
    using assms(1) c r by (auto simp: seedSnapshots_def Let_def split: prod.splits sum.splits)
  have 1: "db_consistent (w_db w1)" "same_data (w_db w) (w_db w1)"
    using CreateRun_Inr_keeps [OF c assms(2)] by auto
  obtain now where tx: "recompute_tx pg ?rq (run_ID run) now (w_db w1) = Inr (w_db w2, summary)"
    using Store_RecomputeReport_Inr [OF r] by blast
  obtain S where S: "w_db w2 = (w_db w1)\<lparr>db_snapshots := S\<rparr>" using recompute_tx_keeps [OF tx] by blast
  have 3: "db_consistent (w_db w')" "same_data (w_db w2) (w_db w')"
    using MarkRunCompleted_Inr_keeps [OF m recompute_tx_consistent [OF tx 1(1)]] by auto
  have ev: "db_events (w_db w') = db_events (w_db w2)" "db_sources (w_db w') = db_sources (w_db w2)"
    using 3(2) by (simp_all add: same_data_def)
  have st: "stored_count (w_db w') = stored_count (w_db w2)"
    using 3(2) by (intro stored_count_same) (simp add: same_data_def)
  have be: "bucket_events (w_db w') = bucket_events (w_db w2)" by (rule bucket_events_same [OF ev])
  show "db_consistent (w_db w')" by (rule 3)
  show "db_events (w_db w') = db_events (w_db w)" "db_sources (w_db w') = db_sources (w_db w)"
    using 1(2) 3(2) S by (simp_all add: same_data_def)
  show "affected_bucket win (start_of_day f) (AddDays (start_of_day t) 1) b \<Longrightarrow>
       stored_count (w_db w') slug win b v =
         int (length (filter (in_range ?rq) (bucket_events (w_db w') slug win b v)))"
    using Store_RecomputeReport_counts [OF r 1(1), of b v] unfolding st be by simp
  have "stored_count (w_db w1) = stored_count (w_db w)"
    using 1(2) by (intro stored_count_same) (simp add: same_data_def)
  then show "(slug', win') \<noteq> (slug, win) \<Longrightarrow>
      stored_count (w_db w') slug' win' b v = stored_count (w_db w) slug' win' b v"
    using recompute_tx_frame [OF tx, of slug' win' b v] unfolding st by auto
qed

text \<open>All of them, one after another.\<close>

lemma seed_all_Inr:
  assumes "seed_all pg ctx f t ps w = (w', Inr ())" and "db_consistent (w_db w)" and "distinct ps"
  shows "db_events (w_db w') = db_events (w_db w) \<and> db_sources (w_db w') = db_sources (w_db w) \<and>
    (\<forall>slug win b v. (slug, win) \<in> set ps \<longrightarrow> affected_bucket win (start_of_day f) (AddDays (start_of_day t) 1) b \<longrightarrow>
       stored_count (w_db w') slug win b v =
         int (length (filter (in_range (seed_request slug win f t)) (bucket_events (w_db w') slug win b v)))) \<and>
    (\<forall>slug win b v. (slug, win) \<notin> set ps \<longrightarrow>
       stored_count (w_db w') slug win b v = stored_count (w_db w) slug win b v)"
  using assms
proof (induction ps arbitrary: w)
  case (Cons p ps)
  obtain slug win where p: "p = (slug, win)" by fastforce
  obtain w1 where w1: "seedSnapshots pg ctx slug win f t w = (w1, Inr ())"
      "seed_all pg ctx f t ps w1 = (w', Inr ())"
    using Cons.prems(1) by (auto simp: p split: prod.splits sum.splits)
  note one = seedSnapshots_Inr [OF w1(1) Cons.prems(2)]
  note rest = Cons.IH [OF w1(2) one(1)] 
  have d: "distinct ps" "(slug, win) \<notin> set ps" using Cons.prems(3) p by auto
  have be: "bucket_events (w_db w') = bucket_events (w_db w1)"
    using rest [OF d(1)] by (intro bucket_events_same) auto
  show ?case
  proof (intro conjI allI impI)
    fix s u b v
    assume m: "(s, u) \<in> set (p # ps)" and a: "affected_bucket u (start_of_day f) (AddDays (start_of_day t) 1) b"
    show "stored_count (w_db w') s u b v =
        int (length (filter (in_range (seed_request s u f t)) (bucket_events (w_db w') s u b v)))"
    proof (cases "(s, u) \<in> set ps")
      case True
      with rest [OF d(1)] a show ?thesis by blast
    next
      case False
      with m p have "s = slug" "u = win" by auto
      then show ?thesis using one(4) [of b v] a rest [OF d(1)] False by (simp add: be)
    qed
  next
    fix s u b v
    assume "(s, u) \<notin> set (p # ps)"
    then show "stored_count (w_db w') s u b v = stored_count (w_db w) s u b v"
      using rest [OF d(1)] one(5) [of s u b v] p by auto
  qed (use rest [OF d(1)] one in auto)
qed simp

subsection \<open>The whole seed\<close>

lemma sql_truncate_consistent: "db_consistent d \<Longrightarrow> db_consistent (sql_truncate d)"
  by (simp add: db_consistent_def sql_truncate_def)

lemma insert_events_consistent:
  assumes "db_consistent d" and "list_all (event_ok (db_sources d)) rows"
    and "distinct (map ev_external_ref (db_events d @ rows))"
  shows "db_consistent (d\<lparr>db_events := db_events d @ rows\<rparr>)"
proof -
  have "snapshot_ok (d\<lparr>db_events := E\<rparr>) = snapshot_ok d" for E
    by (intro ext) (simp add: snapshot_ok_def report_exists_def run_exists_def split: option.split)
  with assms show ?thesis by (simp add: db_consistent_def)
qed

text \<open>The parts of a seed that inserts: its reset, and the database it inserts into.\<close>

lemma seed_reset_Inr:
  assumes "seed_reset ctx force w = (w1, Inr ())"
  shows "w_db w1 = (if force then sql_truncate (w_db w) else w_db w)"
proof (cases force)
  case True
  obtain v x where c: "db_call ctx (\<lambda>now d. (sql_truncate d, Inr ())) w = (v, x)" by fastforce
  then have "v = w1" "x = Inr ()" using assms True by (auto simp: seed_reset_def split: sum.splits)
  with db_call_Inr(1) [OF c [unfolded this]] True show ?thesis by simp
qed (use assms in \<open>simp add: seed_reset_def\<close>)

lemma Seeder_Seed_inserts:
  assumes "Seeder_Seed pg ctx force w = (w', Inr ())" and "db_consistent (w_db w)"
    and "force \<or> db_events (w_db w) = []"
  shows "\<exists>w3. db_consistent (w_db w3) \<and> int (length (db_events (w_db w3))) = seed_size \<and>
    (\<forall>e \<in> set (db_events (w_db w3)). \<exists>source gs. e = seed_event (w_now w3) source gs) \<and>
    seed_all pg ctx (AddDays (w_now w3) (- 90)) (w_now w3) seed_pairs w3 = (w', Inr ())"
proof -
  obtain w1 where r: "seed_reset ctx force w = (w1, Inr ())"
    using assms(1) by (auto simp: Seeder_Seed_def split: prod.splits sum.splits)
  have d1: "db_events (w_db w1) = []" "db_consistent (w_db w1)"
    using seed_reset_Inr [OF r] assms(2,3) sql_truncate_consistent by (auto simp: sql_truncate_def)
  obtain w2 x where n: "db_call ctx (\<lambda>now d. (d, Inr (int (length (db_events d))))) w1 = (w2, x)" by fastforce
  obtain k where x: "x = Inr k" using assms(1) r n by (cases x) (simp_all add: Seeder_Seed_def)
  have w2: "w_db w2 = w_db w1" "k = 0" using db_call_Inr(1) [OF n [unfolded x]] d1 by simp_all
  let ?ins = "\<lambda>now d. case sql_seed_events now d of Inl e \<Rightarrow> (d, Inl e) | Inr d' \<Rightarrow> (d', Inr ())"
  obtain w3 y where i: "db_call ctx ?ins w2 = (w3, y)" by fastforce
  have y: "y = Inr ()" and all: "seed_all pg ctx (AddDays (w_now w3) (- 90)) (w_now w3) seed_pairs w3 = (w', Inr ())"
    using assms(1) r n i x w2 by (auto simp: Seeder_Seed_def split: sum.splits)
  have "sql_seed_events (w_now w3) (w_db w2) = Inr (w_db w3)"
    using db_call_Inr(1) [OF i [unfolded y]] by (auto split: sum.splits)
  from sql_seed_events_Inr [OF this] obtain rows where rows: "w_db w3 = (w_db w2)\<lparr>db_events := db_events (w_db w2) @ rows\<rparr>"
      "int (length rows) = seed_size" "\<forall>e \<in> set rows. \<exists>source gs. e = seed_event (w_now w3) source gs"
      "list_all (event_ok (db_sources (w_db w2))) rows" "distinct (map ev_external_ref (db_events (w_db w2) @ rows))"
    by blast
  have "db_consistent (w_db w3)"
    using insert_events_consistent [OF _ rows(4,5)] d1 w2 by (simp add: rows(1))
  with rows(1-3) d1 w2 all show ?thesis by (intro exI [of _ w3]) simp
qed

text \<open>When a seed is served: the three reports are registered and fresh UUIDs are free.\<close>

definition seed_ready :: "pg_server \<Rightarrow> pgdb \<Rightarrow> bool" where
  "seed_ready pg d \<longleftrightarrow>
     db_consistent d \<and> list_all (report_exists d) (map fst seed_pairs) \<and>
     (\<forall>n \<ge> db_uuids d. \<not> run_exists d (pgs_uuid pg n))"

lemma exists_update [simp]:
  "report_exists (d\<lparr>db_uuids := n\<rparr>) = report_exists d" "report_exists (d\<lparr>db_runs := R\<rparr>) = report_exists d"
  "report_exists (d\<lparr>db_snapshots := S\<rparr>) = report_exists d" "report_exists (d\<lparr>db_events := E\<rparr>) = report_exists d"
  "run_exists (d\<lparr>db_uuids := n\<rparr>) = run_exists d" "run_exists (d\<lparr>db_snapshots := S\<rparr>) = run_exists d"
  "run_exists (d\<lparr>db_events := E\<rparr>) = run_exists d"
  by (simp_all add: fun_eq_iff report_exists_def run_exists_def)

lemma seedSnapshots_served:
  assumes "postgres_server pg" and "undisturbed ctx w" and "seed_ready pg (w_db w)" and "(slug, win) \<in> set seed_pairs"
  shows "\<exists>d. seedSnapshots pg ctx slug win f t w = (w\<lparr>w_db := d\<rparr>, Inr ()) \<and> seed_ready pg d"
proof -
  let ?rq = "seed_request slug win f t" and ?db = "w_db w" and ?i = "pgs_uuid pg (db_uuids (w_db w))"
  let ?da = "?db\<lparr>db_uuids := db_uuids ?db + 1\<rparr>" and ?r = "new_run pg ?rq RunStatusRunning (w_now w) ?db"
  let ?dr = "?da\<lparr>db_runs := db_runs ?db @ [?r]\<rparr>"
  have req: "report_exists ?db slug" "window_ok win" "slug \<in> {''volume-by-period'', ''status-counts'', ''top-entities''}"
    using assms(3,4) by (auto simp: seed_ready_def seed_pairs_def window_ok_def window_defs list_all_iff)
  have fresh: "\<not> run_exists ?db ?i" and cons: "db_consistent ?db" using assms(3) by (simp_all add: seed_ready_def)
  have ins: "insert_run ?r ?da = Inr ?dr"
    using req(1,2) fresh by (simp add: insert_run_Inr_iff new_run_def status_ok_def status_defs report_exists_def
        run_exists_def seed_request_def)
  let ?wr = "w\<lparr>w_db := ?dr\<rparr>"
  have c: "Store_CreateRun pg ctx ?rq RunStatusRunning w = (?wr, Inr (run_of_row ?r []))"
    using ins assms(2) by (simp add: Store_CreateRun_def db_call_undisturbed scan_run_def new_run_def)
  have cons1: "db_consistent ?dr" using insert_run_consistent [OF ins] cons by simp
  have "distinct (map snapshot_key (db_snapshots ?dr))" using cons1 by (simp add: db_consistent_def)
  moreover obtain dim where "dimension_key_of slug = Some dim" using req(3) by (auto simp: dimension_key_of_def)
  moreover have "run_exists ?dr ?i" by (simp add: run_exists_def new_run_def)
  ultimately have "\<exists>d' summary. recompute_tx pg ?rq ?i (w_now w) ?dr = Inr (d', summary)"
    using req(1,2) postgres_server.uuid_text [OF assms(1)] by (intro recompute_tx_succeeds) simp_all
  then obtain d2 summary where tx: "recompute_tx pg ?rq ?i (w_now w) ?dr = Inr (d2, summary)" by blast
  obtain S where S: "d2 = ?dr\<lparr>db_snapshots := S\<rparr>" using recompute_tx_keeps [OF tx] by blast
  let ?wc = "w\<lparr>w_db := d2\<rparr>"
  have r: "Store_RecomputeReport pg ctx ?rq ?i ?wr = (?wc, Inr summary)"
    using tx assms(2) by (simp add: Store_RecomputeReport_undisturbed)
  obtain R where m: "Store_MarkRunCompleted pg ctx ?i summary ?wc = (?wc\<lparr>w_db := d2\<lparr>db_runs := R\<rparr>\<rparr>, Inr ())"
    and R: "map rn_id R = map rn_id (db_runs d2)"
    using assms(2) postgres_server.uuid_text [OF assms(1)]
    by (simp add: Store_MarkRunCompleted_def db_call_undisturbed sql_update_run_def update_ids)
  let ?dc = "d2\<lparr>db_runs := R\<rparr>"
  have all: "seedSnapshots pg ctx slug win f t w = (w\<lparr>w_db := ?dc\<rparr>, Inr ())"
    using c r m by (simp add: seedSnapshots_def Let_def run_of_row_def new_run_def)
  moreover have "db_consistent ?dc" using seedSnapshots_Inr(1) [OF all cons] by simp
  moreover have "\<not> run_exists ?dc (pgs_uuid pg n)" if "db_uuids ?db + 1 \<le> n" for n
  proof -
    have "pgs_uuid pg n \<noteq> ?i" using postgres_server.uuid_fresh [OF assms(1)] that by fastforce
    moreover have "\<not> run_exists ?db (pgs_uuid pg n)" using assms(3) that by (simp add: seed_ready_def)
    moreover have "map rn_id R = map rn_id (db_runs ?db) @ [?i]" using R S by (simp add: new_run_def)
    ultimately show ?thesis by (simp add: run_exists_def)
  qed
  ultimately show ?thesis
    using assms(3) S by (intro exI [of _ ?dc]) (simp add: seed_ready_def report_exists_def)
qed

lemma seed_all_served:
  assumes "postgres_server pg" and "undisturbed ctx w" and "seed_ready pg (w_db w)" and "set ps \<subseteq> set seed_pairs"
  shows "snd (seed_all pg ctx f t ps w) = Inr ()"
  using assms(2-4)
proof (induction ps arbitrary: w)
  case (Cons p ps)
  obtain slug win where p: "p = (slug, win)" by fastforce
  from seedSnapshots_served [OF assms(1) Cons.prems(1,2)] Cons.prems(3) p obtain d where
      "seedSnapshots pg ctx slug win f t w = (w\<lparr>w_db := d\<rparr>, Inr ())" "seed_ready pg d" by fastforce
  with Cons.IH [of "w\<lparr>w_db := d\<rparr>"] Cons.prems p show ?case by simp
qed simp

lemma seed_source_total:
  assumes "{''stripe'', ''adyen'', ''paypal''} \<subseteq> set (map src_slug sources)"
  shows "seed_source sources gs \<noteq> None"
proof -
  have "max_source_id slug sources \<noteq> None" if "slug \<in> set (map src_slug sources)" for slug
    using that by (auto simp: max_source_id_def filter_empty_conv split: list.splits)
  with assms show ?thesis by (simp add: seed_source_def)
qed

lemma Seeder_Seed_served:
  assumes "postgres_server pg" and "undisturbed ctx w" and "seed_ready pg (w_db w)" and "db_events (w_db w) = []"
    and "{''stripe'', ''adyen'', ''paypal''} \<subseteq> set (map src_slug (db_sources (w_db w)))"
  shows "snd (Seeder_Seed pg ctx False w) = Inr ()"
proof -
  obtain d where d: "sql_seed_events (w_now w) (w_db w) = Inr d"
    using sql_seed_events_ok [OF assms(4) seed_source_total [OF assms(5)]] by blast
  from sql_seed_events_Inr [OF d] obtain rows where rows: "d = (w_db w)\<lparr>db_events := db_events (w_db w) @ rows\<rparr>"
      "list_all (event_ok (db_sources (w_db w))) rows" "distinct (map ev_external_ref (db_events (w_db w) @ rows))"
    by blast
  have "db_consistent d"
    using insert_events_consistent [OF _ rows(2,3)] assms(3) by (simp add: rows(1) seed_ready_def)
  then have "seed_ready pg d" using assms(3) by (simp add: rows(1) seed_ready_def)
  with seed_all_served [OF assms(1), of ctx "w\<lparr>w_db := d\<rparr>" seed_pairs] assms(2,4) d show ?thesis
    by (simp add: Seeder_Seed_def seed_reset_def db_call_undisturbed)
qed

subsection \<open>Properties\<close>

text \<open>C37: A seed that reports success after inserting (its tables were empty, or emptied by the flag)
  leaves 25000 events, and the stored count of every bucket and value that any of them falls
  in, for each of the six report and window pairs, is the number of those events: no event is
  outside the seeded range and no pair spoils the snapshots of another.\<close>

theorem seed_counts_every_event:
  assumes "Seeder_Seed pg ctx force w = (w', Inr ())" and "db_consistent (w_db w)"
    and "force \<or> db_events (w_db w) = []" and "(slug, win) \<in> set seed_pairs"
  shows "int (length (db_events (w_db w'))) = seed_size \<and>
    (\<forall>b v. bucket_events (w_db w') slug win b v \<noteq> [] \<longrightarrow>
       stored_count (w_db w') slug win b v = int (length (bucket_events (w_db w') slug win b v)))"
proof -
  from Seeder_Seed_inserts [OF assms(1-3)] obtain w3 where w3: "db_consistent (w_db w3)"
      "int (length (db_events (w_db w3))) = seed_size"
      "\<forall>e \<in> set (db_events (w_db w3)). \<exists>source gs. e = seed_event (w_now w3) source gs"
      "seed_all pg ctx (AddDays (w_now w3) (- 90)) (w_now w3) seed_pairs w3 = (w', Inr ())"
    by blast
  let ?f = "AddDays (w_now w3) (- 90)" and ?t = "w_now w3"
  have "distinct seed_pairs" by (simp add: seed_pairs_def window_defs)
  note all = seed_all_Inr [OF w3(4,1) this]
  have r: "start_of_day ?f \<le> ev_occurred_at e" "ev_occurred_at e < AddDays (start_of_day ?t) 1"
    if "e \<in> set (db_events (w_db w'))" for e
  proof -
    from that all w3(3) obtain source gs where "e = seed_event ?t source gs" by metis
    from seed_event_time [OF this] start_of_day_gt [of ?t]
    show "start_of_day ?f \<le> ev_occurred_at e" "ev_occurred_at e < AddDays (start_of_day ?t) 1"
      by (simp_all add: AddDays_def)
  qed
  have "stored_count (w_db w') slug win b v = int (length (bucket_events (w_db w') slug win b v))"
    if ne: "bucket_events (w_db w') slug win b v \<noteq> []" for b v
  proof -
    from ne obtain e where "e \<in> set (bucket_events (w_db w') slug win b v)" by fastforce
    then have "e \<in> set (db_events (w_db w'))" "date_trunc win (ev_occurred_at e) = b"
      by (auto simp: bucket_events_def)
    then have "affected_bucket win (start_of_day ?f) (AddDays (start_of_day ?t) 1) b"
      using affected_bucket_event [OF r] by blast
    then have "stored_count (w_db w') slug win b v =
        int (length (filter (in_range (seed_request slug win ?f ?t)) (bucket_events (w_db w') slug win b v)))"
      using all assms(4) by blast
    also have "filter (in_range (seed_request slug win ?f ?t)) (bucket_events (w_db w') slug win b v) =
        bucket_events (w_db w') slug win b v"
      using r by (auto simp: in_range_def bucket_events_def intro!: filter_cong)
    finally show ?thesis .
  qed
  with all w3(2) show ?thesis by simp
qed

text \<open>A database as the migrations leave it: the three sources and reports, and no events.\<close>

definition fresh_db :: pgdb where
  "fresh_db = sample_db\<lparr>db_events := [], db_runs := [], db_snapshots := [],
     db_sources := [\<lparr>src_id = 1, src_slug = ''stripe'', src_is_active = True\<rparr>,
       \<lparr>src_id = 2, src_slug = ''adyen'', src_is_active = True\<rparr>,
       \<lparr>src_id = 3, src_slug = ''paypal'', src_is_active = True\<rparr>]\<rparr>"

lemma fresh_db_simps [simp]:
  "db_events fresh_db = []" "map src_slug (db_sources fresh_db) = [''stripe'', ''adyen'', ''paypal'']"
  by (simp_all add: fresh_db_def)

lemma fresh_db_ready: "seed_ready sample_pg fresh_db"
  by (simp add: seed_ready_def db_consistent_def fresh_db_def sample_defs seed_pairs_def report_exists_def
      run_exists_def)

lemma fresh_seeded:
  "\<exists>w'. Seeder_Seed sample_pg None False (sample_world\<lparr>w_db := fresh_db\<rparr>) = (w', Inr ())"
  using Seeder_Seed_served [OF sample.postgres_server_axioms, of None "sample_world\<lparr>w_db := fresh_db\<rparr>"]
  by (simp add: fresh_db_ready prod_eq_iff)

theorem seed_counts_every_event_witness:
  "\<exists>w'. Seeder_Seed sample_pg None False (sample_world\<lparr>w_db := fresh_db\<rparr>) = (w', Inr ()) \<and>
     length (db_events (w_db w')) = 25000 \<and>
     (\<forall>b v. bucket_events (w_db w') ''top-entities'' ''week'' b v \<noteq> [] \<longrightarrow>
        stored_count (w_db w') ''top-entities'' ''week'' b v =
          int (length (bucket_events (w_db w') ''top-entities'' ''week'' b v)))"
proof -
  obtain w' where s: "Seeder_Seed sample_pg None False (sample_world\<lparr>w_db := fresh_db\<rparr>) = (w', Inr ())"
    using fresh_seeded by blast
  have "db_consistent (w_db (sample_world\<lparr>w_db := fresh_db\<rparr>))" using fresh_db_ready by (simp add: seed_ready_def)
  with seed_counts_every_event [OF s, of "''top-entities''" "''week''"] s show ?thesis
    by (simp add: seed_pairs_def window_defs seed_size_def)
qed

text \<open>Without the flag a seed over existing events changes nothing, whatever the network does, and
  reports success if its count is served. The seed is not one transaction, so this holds also
  of the events that a failed seed left: their missing snapshots are never made up for.\<close>

theorem seed_over_events_is_void:
  assumes "Seeder_Seed pg ctx False w = (w', r)" and "db_events (w_db w) \<noteq> []"
  shows "w_db w' = w_db w \<and> (undisturbed ctx w \<longrightarrow> r = Inr ())"
proof -
  obtain v x where n: "db_call ctx (\<lambda>now d. (d, Inr (int (length (db_events d))))) w = (v, x)" by fastforce
  have db: "w_db v = w_db w" using n by (rule db_call_cases) auto
  have k: "x = Inr k \<Longrightarrow> 0 < k" for k
    using db_call_Inr(1) [of ctx _ w v k] n assms(2) by fastforce
  have "w' = v \<and> (r = Inr () \<longleftrightarrow> (\<exists>k. x = Inr k))"
    using assms(1) n k by (cases x) (auto simp: Seeder_Seed_def seed_reset_def)
  moreover have "\<exists>k. x = Inr k" if "undisturbed ctx w"
    using n by (auto simp: db_call_undisturbed [OF that])
  ultimately show ?thesis using db by blast
qed

theorem seed_over_events_is_void_witness:
  "\<exists>w'. Seeder_Seed sample_pg None False sample_world = (w', Inr ()) \<and> w_db w' = sample_db"
proof -
  obtain w' r where s: "Seeder_Seed sample_pg None False sample_world = (w', r)" by fastforce
  with seed_over_events_is_void [OF s] show ?thesis by (simp add: sample_defs)
qed

end
