(* ===== verification/Pipeline.thy ===== *)
theory Pipeline
  imports Recompute_Service
begin

section \<open>Triggers and workers call by call\<close>

text \<open>
  The goroutines of \<open>internal/application/recompute_service.go\<close> side by side: a trigger for each
  request and the workers of \<open>Start\<close>, each as a program counter that makes one call at a time
  on the repositories, the lock, the cache or the channel. Run alone, the steps of a trigger
  are \<open>RecomputeService_Trigger\<close> and those of a worker \<open>processJob\<close>; in the step relation they
  interleave in any order, with time and failures between them.
\<close>

subsection \<open>A worker\<close>

text \<open>Where a worker stands: the job, its two-minute context, and the call that comes next.\<close>

datatype worker =
    Idle
  | Stopped
  | Starting recomputeJob ctx
  | Rebuilding recomputeJob ctx
  | MarkingFailed recomputeJob ctx go_error
  | AuditingFailed recomputeJob ctx go_error
  | MarkingCompleted recomputeJob ctx RecomputeSummary
  | Bumping recomputeJob ctx RecomputeSummary
  | AuditingCompleted recomputeJob ctx RecomputeSummary
  | Releasing recomputeJob ctx

definition take_job :: "'w runtime \<Rightarrow> ctx \<Rightarrow> recomputeJob \<Rightarrow> 'w \<Rightarrow> worker" where
  "take_job rt ctx job w = Starting job (WithTimeout ctx (rt_now rt w) (2 * ns_Minute))"

fun worker_step :: "'w RecomputeService \<Rightarrow> worker \<Rightarrow> 'w \<Rightarrow> worker \<times> 'w" where
  "worker_step s Idle w = (Idle, w)"
| "worker_step s Stopped w = (Stopped, w)"
| "worker_step s (Starting job ctx) w =
     (case MarkRunRunning (rcs_runs s) ctx (job_runID job) w of
        (w1, Inl err) \<Rightarrow> (Releasing job ctx, w1)
      | (w1, Inr _) \<Rightarrow> (Rebuilding job ctx, w1))"
| "worker_step s (Rebuilding job ctx) w =
     (case RecomputeReport (rcs_reports s) ctx (job_request job) (job_runID job) w of
        (w1, Inl err) \<Rightarrow> (MarkingFailed job ctx err, w1)
      | (w1, Inr summary) \<Rightarrow> (MarkingCompleted job ctx summary, w1))"
| "worker_step s (MarkingFailed job ctx err) w =
     (AuditingFailed job ctx err, fst (MarkRunFailed (rcs_runs s) ctx (job_runID job) (Error err) w))"
| "worker_step s (AuditingFailed job ctx err) w =
     (Releasing job ctx, fst (CreateEntry (rcs_audits s) ctx (failedEntry job err) w))"
| "worker_step s (MarkingCompleted job ctx summary) w =
     (Bumping job ctx summary, fst (MarkRunCompleted (rcs_runs s) ctx (job_runID job) summary w))"
| "worker_step s (Bumping job ctx summary) w =
     (AuditingCompleted job ctx summary, bumpCache s ctx (rq_ReportSlug (job_request job)) w)"
| "worker_step s (AuditingCompleted job ctx summary) w =
     (Releasing job ctx, fst (CreateEntry (rcs_audits s) ctx (completedEntry job summary) w))"
| "worker_step s (Releasing job ctx) w =
     (Idle, fst (Release (rcs_locks s) ctx (job_lockKey job) (job_lockToken job) w))"

fun worker_calls_left :: "worker \<Rightarrow> nat" where
  "worker_calls_left Idle = 0"
| "worker_calls_left Stopped = 0"
| "worker_calls_left (Releasing job ctx) = 1"
| "worker_calls_left (AuditingCompleted job ctx summary) = 2"
| "worker_calls_left (AuditingFailed job ctx err) = 2"
| "worker_calls_left (Bumping job ctx summary) = 3"
| "worker_calls_left (MarkingFailed job ctx err) = 3"
| "worker_calls_left (MarkingCompleted job ctx summary) = 4"
| "worker_calls_left (Rebuilding job ctx) = 5"
| "worker_calls_left (Starting job ctx) = 6"

definition resting :: "worker \<Rightarrow> bool" where
  "resting p \<longleftrightarrow> p = Idle \<or> p = Stopped"

lemma resting_simps [simp]: "resting Idle" "resting Stopped"
  by (simp_all add: resting_def)

lemma worker_step_decreases:
  "\<not> resting p \<Longrightarrow> worker_calls_left (fst (worker_step s p w)) < worker_calls_left p"
  by (cases p) (auto split: prod.split sum.split)

function worker_run :: "'w RecomputeService \<Rightarrow> worker \<Rightarrow> 'w \<Rightarrow> 'w" where
  "worker_run s p w =
     (if resting p then w else worker_run s (fst (worker_step s p w)) (snd (worker_step s p w)))"
  by pat_completeness auto
termination
  by (relation "measure (\<lambda>(s, p, w). worker_calls_left p)") (auto simp: worker_step_decreases split_beta)

declare worker_run.simps [simp del]

lemma worker_run_Idle: "worker_run s Idle w = w"
  by (simp add: worker_run.simps)

lemma worker_run_processJob: "worker_run s (take_job rt ctx job w) w = processJob rt s ctx job w"
proof -
  let ?ctx = "WithTimeout ctx (rt_now rt w) (2 * ns_Minute)"
  have r: "worker_run s (Releasing job ?ctx) v =
      fst (Release (rcs_locks s) ?ctx (job_lockKey job) (job_lockToken job) v)" for v
    by (simp add: worker_run.simps [of s "Releasing job ?ctx"] worker_run_Idle resting_def)
  have f: "worker_run s (MarkingFailed job ?ctx err) v = worker_run s (Releasing job ?ctx)
      (fst (CreateEntry (rcs_audits s) ?ctx (failedEntry job err)
        (fst (MarkRunFailed (rcs_runs s) ?ctx (job_runID job) (Error err) v))))" for err v
    by (simp add: worker_run.simps [of s "MarkingFailed job ?ctx err"]
        worker_run.simps [of s "AuditingFailed job ?ctx err"] resting_def)
  have c: "worker_run s (MarkingCompleted job ?ctx sm) v = worker_run s (Releasing job ?ctx)
      (fst (CreateEntry (rcs_audits s) ?ctx (completedEntry job sm)
        (bumpCache s ?ctx (rq_ReportSlug (job_request job))
          (fst (MarkRunCompleted (rcs_runs s) ?ctx (job_runID job) sm v)))))" for sm v
    by (simp add: worker_run.simps [of s "MarkingCompleted job ?ctx sm"] worker_run.simps [of s "Bumping job ?ctx sm"]
        worker_run.simps [of s "AuditingCompleted job ?ctx sm"] resting_def)
  have b: "worker_run s (Rebuilding job ?ctx) v =
      (case RecomputeReport (rcs_reports s) ?ctx (job_request job) (job_runID job) v of
         (v1, Inl err) \<Rightarrow> worker_run s (MarkingFailed job ?ctx err) v1
       | (v1, Inr sm) \<Rightarrow> worker_run s (MarkingCompleted job ?ctx sm) v1)" for v
    by (simp add: worker_run.simps [of s "Rebuilding job ?ctx"] resting_def split: prod.split sum.split)
  show ?thesis
    unfolding take_job_def processJob_def Let_def
    by (simp add: worker_run.simps [of s "Starting job ?ctx"] resting_def r f c b split: prod.split sum.split)
qed

subsection \<open>A trigger\<close>

record trigger_call =
  tc_ctx :: ctx
  tc_token :: string
  tc_request :: RecomputeRequest

datatype stage =
    LookingUp
  | Acquiring
  | Creating
  | CreateFailed go_error
  | Auditing RecomputeRun
  | Sending RecomputeRun
  | QueueFull RecomputeRun
  | QueueFullMarked
  | Answered "go_error + RecomputeRun"

definition trigger_start :: "'w RecomputeService \<Rightarrow> RecomputeRequest \<Rightarrow> stage" where
  "trigger_start s request =
     (case checkRequest s request of Some err \<Rightarrow> Answered (Inl err) | None \<Rightarrow> LookingUp)"

definition job_of :: "trigger_call \<Rightarrow> RecomputeRun \<Rightarrow> recomputeJob" where
  "job_of c run =
     \<lparr>job_runID = run_ID run, job_request = defaultRequester (tc_request c),
      job_lockKey = lockKey (tc_request c), job_lockToken = tc_token c\<rparr>"

fun trigger_step ::
    "'w RecomputeService \<Rightarrow> trigger_call \<Rightarrow> stage \<Rightarrow> 'w \<times> recomputeJob list \<Rightarrow> stage \<times> 'w \<times> recomputeJob list" where
  "trigger_step s c LookingUp (w, q) =
     (case GetReportDefinition (rcs_reports s) (tc_ctx c) (rq_ReportSlug (tc_request c)) w of
        (w1, Inl err) \<Rightarrow> (Answered (Inl err), w1, q)
      | (w1, Inr _) \<Rightarrow> (Acquiring, w1, q))"
| "trigger_step s c Acquiring (w, q) =
     (case TryAcquire (rcs_locks s) (tc_ctx c) (lockKey (tc_request c)) (tc_token c) (rcs_lockTTL s) w of
        (w1, Inl err) \<Rightarrow>
          (Answered (Inl (WrapAppError ErrCodeInternal ''failed to acquire recompute lock'' err)), w1, q)
      | (w1, Inr False) \<Rightarrow>
          (Answered (Inl (NewAppError ErrCodeConflict
             ''a recompute run for this scope is already in progress'')), w1, q)
      | (w1, Inr True) \<Rightarrow> (Creating, w1, q))"
| "trigger_step s c Creating (w, q) =
     (case CreateRun (rcs_runs s) (tc_ctx c) (defaultRequester (tc_request c)) RunStatusPending w of
        (w1, Inl err) \<Rightarrow> (CreateFailed err, w1, q)
      | (w1, Inr run) \<Rightarrow> (Auditing run, w1, q))"
| "trigger_step s c (CreateFailed err) (w, q) =
     (Answered (Inl (WrapAppError ErrCodeInternal ''failed to create recompute run'' err)),
      fst (Release (rcs_locks s) (tc_ctx c) (lockKey (tc_request c)) (tc_token c) w), q)"
| "trigger_step s c (Auditing run) (w, q) =
     (Sending run,
      fst (CreateEntry (rcs_audits s) (tc_ctx c) (triggeredEntry (defaultRequester (tc_request c)) (run_ID run)) w), q)"
| "trigger_step s c (Sending run) (w, q) =
     (case trySend (rcs_queueSize s) (job_of c run) q of
        Some q' \<Rightarrow> (Answered (Inr run), w, q')
      | None \<Rightarrow> (QueueFull run, w, q))"
| "trigger_step s c (QueueFull run) (w, q) =
     (QueueFullMarked, fst (MarkRunFailed (rcs_runs s) (tc_ctx c) (run_ID run) ''worker queue is full'' w), q)"
| "trigger_step s c QueueFullMarked (w, q) =
     (Answered (Inl (NewAppError ErrCodeUnavailable ''recompute queue is full'')),
      fst (Release (rcs_locks s) (tc_ctx c) (lockKey (tc_request c)) (tc_token c) w), q)"
| "trigger_step s c (Answered r) wq = (Answered r, wq)"

fun trigger_calls_left :: "stage \<Rightarrow> nat" where
  "trigger_calls_left (Answered r) = 0"
| "trigger_calls_left (CreateFailed err) = 1"
| "trigger_calls_left QueueFullMarked = 1"
| "trigger_calls_left (QueueFull run) = 2"
| "trigger_calls_left (Sending run) = 3"
| "trigger_calls_left (Auditing run) = 4"
| "trigger_calls_left Creating = 5"
| "trigger_calls_left Acquiring = 6"
| "trigger_calls_left LookingUp = 7"

fun answered :: "stage \<Rightarrow> (go_error + RecomputeRun) option" where
  "answered (Answered r) = Some r"
| "answered _ = None"

lemma trigger_step_decreases:
  "answered p = None \<Longrightarrow> trigger_calls_left (fst (trigger_step s c p wq)) < trigger_calls_left p"
  by (cases wq; cases p) (auto split: prod.split sum.split bool.split option.split)

function trigger_run ::
    "'w RecomputeService \<Rightarrow> trigger_call \<Rightarrow> stage \<Rightarrow> ('w \<times> recomputeJob list, RecomputeRun) io" where
  "trigger_run s c p wq =
     (case answered p of
        Some r \<Rightarrow> (wq, r)
      | None \<Rightarrow> trigger_run s c (fst (trigger_step s c p wq)) (snd (trigger_step s c p wq)))"
  by pat_completeness auto
termination
  by (relation "measure (\<lambda>(s, c, p, wq). trigger_calls_left p)") (auto simp: trigger_step_decreases split_beta)

declare trigger_run.simps [simp del]

lemma trigger_run_Answered [simp]: "trigger_run s c (Answered r) wq = (wq, r)"
  by (simp add: trigger_run.simps)

lemma trigger_run_Trigger:
  "trigger_run s c (trigger_start s (tc_request c)) (w, q) =
     RecomputeService_Trigger s (tc_ctx c) (tc_token c) (tc_request c) (w, q)"
proof -
  let ?key = "lockKey (tc_request c)"
  have full: "trigger_run s c (QueueFull run) (v, q) =
      ((fst (Release (rcs_locks s) (tc_ctx c) ?key (tc_token c)
          (fst (MarkRunFailed (rcs_runs s) (tc_ctx c) (run_ID run) ''worker queue is full'' v))), q),
       Inl (NewAppError ErrCodeUnavailable ''recompute queue is full''))" for run v
    by (simp add: trigger_run.simps [of s c "QueueFull run"] trigger_run.simps [of s c QueueFullMarked])
  have send: "trigger_run s c (Sending run) (v, q) =
      (case trySend (rcs_queueSize s) (job_of c run) q of
         Some q' \<Rightarrow> ((v, q'), Inr run) | None \<Rightarrow> trigger_run s c (QueueFull run) (v, q))" for run v
    by (simp add: trigger_run.simps [of s c "Sending run"] split: option.split)
  have audit: "trigger_run s c (Auditing run) (v, q) = trigger_run s c (Sending run)
      (fst (CreateEntry (rcs_audits s) (tc_ctx c) (triggeredEntry (defaultRequester (tc_request c)) (run_ID run)) v), q)"
    for run v
    by (simp add: trigger_run.simps [of s c "Auditing run"])
  have undo: "trigger_run s c (CreateFailed err) (v, q) =
      ((fst (Release (rcs_locks s) (tc_ctx c) ?key (tc_token c) v), q),
       Inl (WrapAppError ErrCodeInternal ''failed to create recompute run'' err))" for err v
    by (simp add: trigger_run.simps [of s c "CreateFailed err"])
  have create: "trigger_run s c Creating (v, q) =
      (case CreateRun (rcs_runs s) (tc_ctx c) (defaultRequester (tc_request c)) RunStatusPending v of
         (v1, Inl err) \<Rightarrow> trigger_run s c (CreateFailed err) (v1, q)
       | (v1, Inr run) \<Rightarrow> trigger_run s c (Auditing run) (v1, q))" for v
    by (simp add: trigger_run.simps [of s c Creating] split: prod.split sum.split)
  have acquire: "trigger_run s c Acquiring (v, q) =
      (case TryAcquire (rcs_locks s) (tc_ctx c) ?key (tc_token c) (rcs_lockTTL s) v of
         (v1, Inl err) \<Rightarrow> ((v1, q), Inl (WrapAppError ErrCodeInternal ''failed to acquire recompute lock'' err))
       | (v1, Inr False) \<Rightarrow>
           ((v1, q), Inl (NewAppError ErrCodeConflict ''a recompute run for this scope is already in progress''))
       | (v1, Inr True) \<Rightarrow> trigger_run s c Creating (v1, q))" for v
    by (simp add: trigger_run.simps [of s c Acquiring] split: prod.split sum.split bool.split)
  show ?thesis
    unfolding trigger_start_def RecomputeService_Trigger_def Let_def
    by (simp add: trigger_run.simps [of s c LookingUp] acquire create undo audit send full job_of_def
        split: prod.split sum.split bool.split option.split)
qed

subsection \<open>The service\<close>

text \<open>
  The state of the process: the world behind the ports, the channel, the workers that \<open>Start\<close>
  launched and the triggers of the requests so far, answered or on their way.
\<close>

record 'w system =
  sy_world :: 'w
  sy_queue :: "recomputeJob list"
  sy_workers :: "worker list"
  sy_triggers :: "(trigger_call \<times> stage) list"

definition Start :: "int \<Rightarrow> 'w \<Rightarrow> 'w system" where
  "Start workers w =
     \<lparr>sy_world = w, sy_queue = [], sy_workers = replicate (nat (effectiveWorkers workers)) Idle, sy_triggers = []\<rparr>"

text \<open>
  The steps of the service itself: a trigger makes its next call, an idle worker takes the
  oldest job or makes its next call. Around them requests arrive, the context of the process
  ends and idle workers leave their loop, and \<open>env\<close> is whatever else happens to the world:
  time, failures, other requests.
\<close>

inductive service_step :: "'w runtime \<Rightarrow> 'w RecomputeService \<Rightarrow> ctx \<Rightarrow> 'w system \<Rightarrow> 'w system \<Rightarrow> bool"
  for rt s ctx where
  trigger: "service_step rt s ctx y
      (y\<lparr>sy_world := w', sy_queue := q', sy_triggers := l @ (c, p') # r\<rparr>)"
    if "sy_triggers y = l @ (c, p) # r" "answered p = None"
      "trigger_step s c p (sy_world y, sy_queue y) = (p', w', q')"
| take: "service_step rt s ctx y
      (y\<lparr>sy_queue := q, sy_workers := l @ take_job rt ctx job (sy_world y) # r\<rparr>)"
    if "sy_workers y = l @ Idle # r" "sy_queue y = job # q"
| work: "service_step rt s ctx y (y\<lparr>sy_world := w', sy_workers := l @ p' # r\<rparr>)"
    if "sy_workers y = l @ p # r" "\<not> resting p" "worker_step s p (sy_world y) = (p', w')"

inductive system_step ::
    "'w runtime \<Rightarrow> 'w RecomputeService \<Rightarrow> ctx \<Rightarrow> ('w \<Rightarrow> 'w \<Rightarrow> bool) \<Rightarrow> 'w system \<Rightarrow> 'w system \<Rightarrow> bool"
  for rt s ctx env where
  service: "service_step rt s ctx y y' \<Longrightarrow> system_step rt s ctx env y y'"
| arrive: "system_step rt s ctx env y
      (y\<lparr>sy_triggers := sy_triggers y @ [(c, trigger_start s (tc_request c))]\<rparr>)"
| stop: "system_step rt s ctx env y (y\<lparr>sy_workers := l @ Stopped # r\<rparr>)"
    if "sy_workers y = l @ Idle # r" "ctx_done ctx (rt_now rt (sy_world y))"
| other: "env (sy_world y) w' \<Longrightarrow> system_step rt s ctx env y (y\<lparr>sy_world := w'\<rparr>)"

definition reachable ::
    "'w runtime \<Rightarrow> 'w RecomputeService \<Rightarrow> ctx \<Rightarrow> ('w \<Rightarrow> 'w \<Rightarrow> bool) \<Rightarrow> 'w system \<Rightarrow> 'w system \<Rightarrow> bool" where
  "reachable rt s ctx env = (system_step rt s ctx env)\<^sup>*\<^sup>*"

inductive_cases service_stepE: "service_step rt s ctx y y'"
inductive_cases system_stepE: "system_step rt s ctx env y y'"

end
