(* ===== verification/Pipeline_Facts.thy ===== *)
theory Pipeline_Facts
  imports Pipeline Contracts "HOL-Library.Multiset"
begin

section \<open>Facts on the interleaved service\<close>

text \<open>
  Every step of the service uses up a bounded number of calls, so it comes to rest when no
  request arrives; and an invariant of all reachable states, from the contract of the runs'
  registry alone: no two of the channel, the workers and the triggers own the same run, and the
  state of an owned run is the one its owner has brought it to.
\<close>

subsection \<open>Coming to rest\<close>

definition calls_left :: "'w system \<Rightarrow> nat" where
  "calls_left y = 7 * length (sy_queue y) + sum_list (map worker_calls_left (sy_workers y)) +
     sum_list (map (\<lambda>(c, p). 4 * trigger_calls_left p) (sy_triggers y))"

lemma trigger_step_work:
  assumes "trigger_step s c p (w, q) = (p', w', q')" and "answered p = None"
  shows "7 * length q' + 4 * trigger_calls_left p' < 7 * length q + 4 * trigger_calls_left p"
  using assms by (cases p) (auto simp: trySend_def split: prod.splits sum.splits bool.splits if_splits)

lemma service_step_work: "service_step rt s ctx y y' \<Longrightarrow> calls_left y' < calls_left y"
proof (erule service_stepE, goal_cases)
  case (1 l c p r p' w' q')
  with trigger_step_work [OF 1(4,3)] show ?case by (simp add: calls_left_def)
next
  case (2 l r job q)
  then show ?case by (simp add: calls_left_def take_job_def)
next
  case (3 l p r p' w')
  with worker_step_decreases [OF 3(3), of s "sy_world y"] show ?case by (simp add: calls_left_def)
qed

lemma service_steps_work: "(service_step rt s ctx ^^ n) y y' \<Longrightarrow> n + calls_left y' \<le> calls_left y"
proof (induction n arbitrary: y')
  case (Suc n)
  then obtain z where "(service_step rt s ctx ^^ n) y z" "service_step rt s ctx z y'" by auto
  with Suc.IH service_step_work show ?case by fastforce
qed simp

text \<open>Where no step is left, everything is answered and nobody works.\<close>

lemma at_rest:
  assumes "\<not> (\<exists>y'. service_step rt s ctx y y')"
  shows "(\<forall>(c, p) \<in> set (sy_triggers y). answered p \<noteq> None) \<and> (\<forall>p \<in> set (sy_workers y). resting p) \<and>
    (Idle \<in> set (sy_workers y) \<longrightarrow> sy_queue y = [])"
proof (intro conjI ballI impI)
  fix x
  assume "x \<in> set (sy_triggers y)"
  then obtain l c p r where x: "sy_triggers y = l @ (c, p) # r" "x = (c, p)"
    by (metis split_list prod.exhaust)
  obtain p' w' q' where "trigger_step s c p (sy_world y, sy_queue y) = (p', w', q')" by (metis prod.exhaust)
  from service_step.trigger [OF x(1) _ this] assms x(2) show "case x of (c, p) \<Rightarrow> answered p \<noteq> None" by auto
next
  fix p
  assume "p \<in> set (sy_workers y)"
  then obtain l r where p: "sy_workers y = l @ p # r" by (metis split_list)
  obtain p' w' where "worker_step s p (sy_world y) = (p', w')" by fastforce
  from service_step.work [OF p _ this] assms show "resting p" by blast
next
  assume "Idle \<in> set (sy_workers y)"
  then obtain l r where i: "sy_workers y = l @ Idle # r" by (metis split_list)
  show "sy_queue y = []"
  proof (cases "sy_queue y")
    case (Cons job q)
    from service_step.take [OF i this] assms show ?thesis by blast
  qed
qed

subsection \<open>Who owns a run\<close>

fun worker_claim :: "worker \<Rightarrow> string multiset" where
  "worker_claim Idle = {#}"
| "worker_claim Stopped = {#}"
| "worker_claim (Starting job ctx) = {#job_runID job#}"
| "worker_claim (Rebuilding job ctx) = {#job_runID job#}"
| "worker_claim (MarkingFailed job ctx err) = {#job_runID job#}"
| "worker_claim (AuditingFailed job ctx err) = {#job_runID job#}"
| "worker_claim (MarkingCompleted job ctx summary) = {#job_runID job#}"
| "worker_claim (Bumping job ctx summary) = {#job_runID job#}"
| "worker_claim (AuditingCompleted job ctx summary) = {#job_runID job#}"
| "worker_claim (Releasing job ctx) = {#job_runID job#}"

fun stage_claim :: "stage \<Rightarrow> string multiset" where
  "stage_claim (Auditing run) = {#run_ID run#}"
| "stage_claim (Sending run) = {#run_ID run#}"
| "stage_claim (QueueFull run) = {#run_ID run#}"
| "stage_claim _ = {#}"

definition owned :: "'w system \<Rightarrow> string multiset" where
  "owned y = mset (map job_runID (sy_queue y)) + sum_list (map worker_claim (sy_workers y)) +
     sum_list (map (\<lambda>x. stage_claim (snd x)) (sy_triggers y))"

text \<open>The states that the run of a worker can be in, by where the worker stands.\<close>

fun worker_phase :: "worker \<Rightarrow> string set" where
  "worker_phase Idle = {}"
| "worker_phase Stopped = {}"
| "worker_phase (Starting job ctx) = {RunStatusPending}"
| "worker_phase (Rebuilding job ctx) = {RunStatusRunning}"
| "worker_phase (MarkingFailed job ctx err) = {RunStatusRunning}"
| "worker_phase (AuditingFailed job ctx err) = {RunStatusRunning, RunStatusFailed}"
| "worker_phase (MarkingCompleted job ctx summary) = {RunStatusRunning}"
| "worker_phase (Bumping job ctx summary) = {RunStatusRunning, RunStatusCompleted}"
| "worker_phase (AuditingCompleted job ctx summary) = {RunStatusRunning, RunStatusCompleted}"
| "worker_phase (Releasing job ctx) = {RunStatusPending, RunStatusRunning, RunStatusCompleted, RunStatusFailed}"

definition worker_ok :: "(string \<Rightarrow> string option) \<Rightarrow> worker \<Rightarrow> bool" where
  "worker_ok st p \<longleftrightarrow> (\<forall>i \<in># worker_claim p. st i \<in> Some ` worker_phase p)"

definition stage_ok :: "(string \<Rightarrow> string option) \<Rightarrow> stage \<Rightarrow> bool" where
  "stage_ok st p \<longleftrightarrow> (\<forall>i \<in># stage_claim p. st i = Some RunStatusPending)"

definition queue_ok :: "(string \<Rightarrow> string option) \<Rightarrow> recomputeJob list \<Rightarrow> bool" where
  "queue_ok st q \<longleftrightarrow> (\<forall>job \<in> set q. st (job_runID job) = Some RunStatusPending)"

definition system_inv :: "('w \<Rightarrow> string \<Rightarrow> string option) \<Rightarrow> (string \<Rightarrow> string option) \<Rightarrow> nat \<Rightarrow> 'w system \<Rightarrow> bool" where
  "system_inv status canon n y \<longleftrightarrow>
     length (sy_queue y) \<le> n \<and> (\<forall>i. count (owned y) i \<le> 1) \<and> (\<forall>i \<in># owned y. canon i = Some i) \<and>
     queue_ok (status (sy_world y)) (sy_queue y) \<and> (\<forall>p \<in> set (sy_workers y). worker_ok (status (sy_world y)) p) \<and>
     (\<forall>x \<in> set (sy_triggers y). stage_ok (status (sy_world y)) (snd x))"

text \<open>How the state of a run may go: on from pending, and no further from an end.\<close>

definition run_moves :: "string option \<Rightarrow> string option \<Rightarrow> bool" where
  "run_moves a b \<longleftrightarrow> a = b \<or>
     (a, b) \<in> {(None, Some RunStatusPending), (Some RunStatusPending, Some RunStatusRunning),
       (Some RunStatusPending, Some RunStatusFailed), (Some RunStatusRunning, Some RunStatusCompleted),
       (Some RunStatusRunning, Some RunStatusFailed)}"

lemma run_moves_refl [simp]: "run_moves a a"
  by (simp add: run_moves_def)

text \<open>The effect of one mark on a run whose state is known.\<close>

lemma marked_moves:
  assumes "marked st (Some i) {x} st'" and "st i = Some a" and "run_moves (Some a) (Some x)"
  shows "run_moves (st j) (st' j)" "st' i = Some a \<or> st' i = Some x" "j \<noteq> i \<Longrightarrow> st' j = st j"
proof -
  from assms(1,2) consider "st' = st" | "st' = st(i \<mapsto> x)" by (auto simp: marked_def)
  then show "run_moves (st j) (st' j)" "st' i = Some a \<or> st' i = Some x" "j \<noteq> i \<Longrightarrow> st' j = st j"
    by (cases; use assms(2,3) in auto)+
qed

lemma run_moves_marks:
  "run_moves (Some RunStatusPending) (Some RunStatusRunning)" "run_moves (Some RunStatusPending) (Some RunStatusFailed)"
  "run_moves (Some RunStatusRunning) (Some RunStatusFailed)" "run_moves (Some RunStatusRunning) (Some RunStatusCompleted)"
  "run_moves None (Some RunStatusPending)"
  by (simp_all add: run_moves_def)

context job_service begin

lemma worker_step_status:
  assumes "worker_step s p w = (p', w')" and "\<forall>i \<in># worker_claim p. canon i = Some i" and "worker_ok (status w) p"
  shows "worker_claim p' \<subseteq># worker_claim p" "worker_ok (status w') p'"
    "i \<notin># worker_claim p \<Longrightarrow> status w' i = status w i" "run_moves (status w i) (status w' i)"
proof -
  note frames' = frames audit_frame
  have *: "worker_claim p' \<subseteq># worker_claim p \<and> worker_ok (status w') p' \<and>
      (\<forall>i. (i \<notin># worker_claim p \<longrightarrow> status w' i = status w i) \<and> run_moves (status w i) (status w' i))"
  proof (cases p)
    case (Starting job ctx)
    let ?i = "job_runID job"
    obtain w1 u where m: "MarkRunRunning runs ctx ?i w = (w1, u)" by fastforce
    have c: "canon ?i = Some ?i" and st: "status w ?i = Some RunStatusPending"
      using assms(2,3) Starting by (auto simp: worker_ok_def)
    have w': "w' = w1" "p' = (case u of Inl e \<Rightarrow> Releasing job ctx | Inr _ \<Rightarrow> Rebuilding job ctx)"
      using assms(1) Starting m by (auto simp: runs_of split: sum.splits)
    have "marked (status w) (Some ?i) {RunStatusRunning} (status w')"
      using mark_running [of w ?i ctx] by (simp add: m c w')
    note mv = marked_moves [OF this st run_moves_marks(1)]
    have "status w' ?i = Some RunStatusRunning" if "u = Inr x" for x
      using running_law [OF m] that c st w' by auto
    with mv w' Starting show ?thesis by (cases u) (auto simp: worker_ok_def)
  next
    case (Rebuilding job ctx)
    obtain w1 u where m: "RecomputeReport (rcs_reports s) ctx (job_request job) (job_runID job) w = (w1, u)" by fastforce
    have same: "status w1 = status w" using report_frame [of ctx "job_request job" "job_runID job" w] m by simp
    have w': "w' = w1" "p' = (case u of Inl e \<Rightarrow> MarkingFailed job ctx e | Inr sm \<Rightarrow> MarkingCompleted job ctx sm)"
      using assms(1) Rebuilding m by (auto split: sum.splits)
    show ?thesis using assms(3) w' same Rebuilding by (cases u) (auto simp: worker_ok_def)
  next
    case (MarkingFailed job ctx err)
    let ?i = "job_runID job"
    have c: "canon ?i = Some ?i" and st: "status w ?i = Some RunStatusRunning"
      using assms(2,3) MarkingFailed by (auto simp: worker_ok_def)
    have w': "w' = fst (MarkRunFailed runs ctx ?i (Error err) w)" "p' = AuditingFailed job ctx err"
      using assms(1) MarkingFailed by (auto simp: runs_of)
    from mark_failed [of w ?i ctx "Error err"] have "marked (status w) (Some ?i) {RunStatusFailed} (status w')"
      by (simp add: c w')
    from marked_moves [OF this st run_moves_marks(3)] show ?thesis
      using MarkingFailed w'(2) by (auto simp: worker_ok_def)
  next
    case (MarkingCompleted job ctx sm)
    let ?i = "job_runID job"
    have c: "canon ?i = Some ?i" and st: "status w ?i = Some RunStatusRunning"
      using assms(2,3) MarkingCompleted by (auto simp: worker_ok_def)
    have w': "w' = fst (MarkRunCompleted runs ctx ?i sm w)" "p' = Bumping job ctx sm"
      using assms(1) MarkingCompleted by (auto simp: runs_of)
    from mark_completed [of w ?i ctx sm] have "marked (status w) (Some ?i) {RunStatusCompleted} (status w')"
      by (simp add: c w')
    from marked_moves [OF this st run_moves_marks(4)] show ?thesis
      using MarkingCompleted w'(2) by (auto simp: worker_ok_def)
  qed (use assms(1,3) in \<open>auto simp: worker_ok_def frames'\<close>)
  show "worker_claim p' \<subseteq># worker_claim p" "worker_ok (status w') p'" using * by blast+
  show "i \<notin># worker_claim p \<Longrightarrow> status w' i = status w i" "run_moves (status w i) (status w' i)" using * by blast+
qed

lemma trigger_step_status:
  assumes "trigger_step s c p (w, q) = (p', w', q')" and "answered p = None"
    and "\<forall>i \<in># stage_claim p. canon i = Some i" and "stage_ok (status w) p"
  shows "stage_ok (status w') p'" "run_moves (status w i) (status w' i)"
    "i \<notin># stage_claim p \<Longrightarrow> status w i \<noteq> None \<Longrightarrow> status w' i = status w i"
    "length q' \<le> length q \<or> length q' \<le> rcs_queueSize s"
    "job \<in> set q' \<Longrightarrow> job \<in> set q \<or> stage_claim p = {#job_runID job#} \<and> status w' = status w"
    "mset (map job_runID q') + stage_claim p' \<subseteq># mset (map job_runID q) + stage_claim p \<or>
     (\<exists>i. status w i = None \<and> canon i = Some i \<and> q' = q \<and> stage_claim p' = {#i#} \<and> stage_claim p = {#})"
proof -
  let ?C = "stage_ok (status w') p' \<and> (\<forall>i. run_moves (status w i) (status w' i)) \<and>
    (\<forall>i. i \<notin># stage_claim p \<longrightarrow> status w i \<noteq> None \<longrightarrow> status w' i = status w i) \<and>
    (length q' \<le> length q \<or> length q' \<le> rcs_queueSize s) \<and>
    (\<forall>job \<in> set q'. job \<in> set q \<or> stage_claim p = {#job_runID job#} \<and> status w' = status w) \<and>
    (mset (map job_runID q') + stage_claim p' \<subseteq># mset (map job_runID q) + stage_claim p \<or>
     (\<exists>i. status w i = None \<and> canon i = Some i \<and> q' = q \<and> stage_claim p' = {#i#} \<and> stage_claim p = {#}))"
  have ?C
  proof (cases p)
    case LookingUp
    with assms(1) have "q' = q" "status w' = status w" "stage_claim p' = {#}"
      using lookup_frame [of "tc_ctx c" "rq_ReportSlug (tc_request c)" w] by (auto split: prod.splits sum.splits)
    with LookingUp show ?thesis by (simp add: stage_ok_def)
  next
    case Acquiring
    with assms(1) have "q' = q" "status w' = status w" "stage_claim p' = {#}"
      using acquire_frame [of "tc_ctx c" "lockKey (tc_request c)" "tc_token c" "rcs_lockTTL s" w]
      by (auto split: prod.splits sum.splits bool.splits)
    with Acquiring show ?thesis by (simp add: stage_ok_def)
  next
    case Creating
    obtain w1 u where m: "CreateRun runs (tc_ctx c) (defaultRequester (tc_request c)) RunStatusPending w = (w1, u)"
      by fastforce
    have w': "w' = w1" "q' = q" "p' = (case u of Inl e \<Rightarrow> CreateFailed e | Inr run \<Rightarrow> Auditing run)"
      using assms(1) Creating m by (auto simp: runs_of split: sum.splits)
    from create_law [OF m] show ?thesis
    proof (elim disjE exE conjE)
      assume "status w1 = status w" "\<forall>run. u \<noteq> Inr run"
      with w' Creating show ?thesis by (cases u) (auto simp: stage_ok_def)
    next
      fix i
      assume i: "status w i = None" "canon i = Some i" "status w1 = (status w)(i \<mapsto> RunStatusPending)"
        "\<forall>run. u = Inr run \<longrightarrow> run_ID run = i \<and> run_Status run = RunStatusPending"
      with w' Creating run_moves_marks(5) show ?thesis by (cases u) (auto simp: stage_ok_def)
    qed
  next
    case (Sending run)
    show ?thesis
      using assms(1,4) Sending
      by (auto simp: trySend_def stage_ok_def job_of_def split: if_splits)
  next
    case (QueueFull run)
    let ?i = "run_ID run"
    have st: "status w ?i = Some RunStatusPending" "canon ?i = Some ?i"
      using assms(3,4) QueueFull by (auto simp: stage_ok_def)
    have w': "w' = fst (MarkRunFailed runs (tc_ctx c) ?i ''worker queue is full'' w)" "p' = QueueFullMarked" "q' = q"
      using assms(1) QueueFull by (auto simp: runs_of)
    from mark_failed [of w ?i "tc_ctx c"] have "marked (status w) (Some ?i) {RunStatusFailed} (status w')"
      by (simp add: st w')
    from marked_moves [OF this st(1) run_moves_marks(2)] show ?thesis
      using QueueFull w'(2,3) by (auto simp: stage_ok_def)
  qed (use assms in \<open>auto simp: stage_ok_def audit_frame release_frame\<close>)
  then show "stage_ok (status w') p'" "run_moves (status w i) (status w' i)"
    "i \<notin># stage_claim p \<Longrightarrow> status w i \<noteq> None \<Longrightarrow> status w' i = status w i"
    "length q' \<le> length q \<or> length q' \<le> rcs_queueSize s"
    "job \<in> set q' \<Longrightarrow> job \<in> set q \<or> stage_claim p = {#job_runID job#} \<and> status w' = status w"
    "mset (map job_runID q') + stage_claim p' \<subseteq># mset (map job_runID q) + stage_claim p \<or>
     (\<exists>i. status w i = None \<and> canon i = Some i \<and> q' = q \<and> stage_claim p' = {#i#} \<and> stage_claim p = {#})"
    by blast+
qed

end

subsection \<open>The invariant\<close>

lemma in_sum_list_claims: "x \<in> set xs \<Longrightarrow> i \<in># f x \<Longrightarrow> i \<in># sum_list (map f xs)"
  by (induction xs) auto

lemma once_disjoint:
  assumes "\<forall>i. count (A + B) i \<le> 1" and "i \<in># A"
  shows "i \<notin># B"
proof
  assume "i \<in># B"
  with assms(2) have "1 \<le> count A i" "1 \<le> count B i" by simp_all
  with assms(1) [rule_format, of i] show False by simp
qed

lemma once_subset: "\<forall>i. count A i \<le> 1 \<Longrightarrow> B \<subseteq># A \<Longrightarrow> \<forall>i. count B i \<le> 1"
  using mset_subset_eq_count le_trans by fast

text \<open>What is owned apart from one worker or one trigger keeps its state when that one acts.\<close>

lemma ok_same:
  "(\<And>i. i \<in># worker_claim p \<Longrightarrow> st' i = st i) \<Longrightarrow> worker_ok st p \<Longrightarrow> worker_ok st' p"
  "(\<And>i. i \<in># stage_claim g \<Longrightarrow> st' i = st i) \<Longrightarrow> stage_ok st g \<Longrightarrow> stage_ok st' g"
  "(\<And>i. i \<in># mset (map job_runID q) \<Longrightarrow> st' i = st i) \<Longrightarrow> queue_ok st q \<Longrightarrow> queue_ok st' q"
  by (auto simp: worker_ok_def stage_ok_def queue_ok_def)

lemma all_ok_same:
  "(\<And>i. i \<in># sum_list (map worker_claim ws) \<Longrightarrow> st' i = st i) \<Longrightarrow> \<forall>p \<in> set ws. worker_ok st p \<Longrightarrow>
     \<forall>p \<in> set ws. worker_ok st' p"
  "(\<And>i. i \<in># sum_list (map (\<lambda>x. stage_claim (snd x)) ts) \<Longrightarrow> st' i = st i) \<Longrightarrow> \<forall>x \<in> set ts. stage_ok st (snd x) \<Longrightarrow>
     \<forall>x \<in> set ts. stage_ok st' (snd x)"
  by (meson ok_same in_sum_list_claims)+

lemma owned_known:
  assumes "system_inv status canon n y" and "i \<in># owned y"
  shows "status (sy_world y) i \<noteq> None" "canon i = Some i"
proof -
  from assms(2) consider job where "job \<in> set (sy_queue y)" "i = job_runID job"
    | p where "p \<in> set (sy_workers y)" "i \<in># worker_claim p"
    | x where "x \<in> set (sy_triggers y)" "i \<in># stage_claim (snd x)"
    by (auto simp: owned_def)
  then show "status (sy_world y) i \<noteq> None"
    using assms(1) by cases (fastforce simp: system_inv_def queue_ok_def worker_ok_def stage_ok_def)+
  show "canon i = Some i" using assms by (simp add: system_inv_def)
qed

text \<open>What is owned after a trigger's step, if only its claim and the channel's have changed.\<close>

lemma owned_after:
  assumes inv: "system_inv status canon n y" and own: "owned y = C + (Q + R)" "owned y' = C' + (Q' + R)"
    and claim: "Q' + C' \<subseteq># Q + C \<or>
      (\<exists>i. status (sy_world y) i = None \<and> canon i = Some i \<and> Q' = Q \<and> C' = {#i#} \<and> C = {#})"
  shows "\<forall>i. count (owned y') i \<le> 1" "\<forall>i \<in># owned y'. canon i = Some i"
    "\<forall>i \<in># owned y'. i \<in># owned y \<or> status (sy_world y) i = None"
proof -
  have "(\<forall>i. count (owned y') i \<le> 1) \<and> (\<forall>i \<in># owned y'. canon i = Some i) \<and>
      (\<forall>i \<in># owned y'. i \<in># owned y \<or> status (sy_world y) i = None)"
    using claim
  proof (elim disjE exE conjE)
    assume "Q' + C' \<subseteq># Q + C"
    then have "Q' + C' + R \<subseteq># Q + C + R" by (rule subset_mset.add_right_mono)
    then have sub: "owned y' \<subseteq># owned y" by (simp add: own ac_simps)
    with inv once_subset [OF _ sub] mset_subset_eqD [OF sub] show ?thesis by (auto simp: system_inv_def)
  next
    fix i
    assume i: "status (sy_world y) i = None" "canon i = Some i" "Q' = Q" "C' = {#i#}" "C = {#}"
    have add: "owned y' = add_mset i (owned y)" unfolding own using i by simp
    have "i \<notin># owned y" using owned_known(1) [OF inv, of i] i(1) by blast
    then have "count (owned y) i = 0" by (simp add: not_in_iff)
    then show ?thesis unfolding add using inv i(1,2) by (auto simp: system_inv_def)
  qed
  note c = this [THEN conjunct1] this [THEN conjunct2, THEN conjunct1] this [THEN conjunct2, THEN conjunct2]
  show "\<forall>i. count (owned y') i \<le> 1" "\<forall>i \<in># owned y'. canon i = Some i"
    "\<forall>i \<in># owned y'. i \<in># owned y \<or> status (sy_world y) i = None" by (rule c)+
qed

context job_service begin

lemma work_inv:
  assumes inv: "system_inv status canon n y" and ws: "sy_workers y = l @ p # r"
    and step: "worker_step s p (sy_world y) = (p', w')"
  shows "system_inv status canon n (y\<lparr>sy_world := w', sy_workers := l @ p' # r\<rparr>)"
    "run_moves (status (sy_world y) i) (status w' i)"
    "i \<notin># owned y \<Longrightarrow> status w' i = status (sy_world y) i"
    "owned (y\<lparr>sy_world := w', sy_workers := l @ p' # r\<rparr>) \<subseteq># owned y"
proof -
  let ?st = "status (sy_world y)" and ?y = "y\<lparr>sy_world := w', sy_workers := l @ p' # r\<rparr>"
  define Q W T where "Q = mset (map job_runID (sy_queue y))" and
    "W = sum_list (map worker_claim (l @ r))" and "T = sum_list (map (\<lambda>x. stage_claim (snd x)) (sy_triggers y))"
  have own: "owned y = worker_claim p + (Q + W + T)" "owned ?y = worker_claim p' + (Q + W + T)"
    by (simp_all add: owned_def ws Q_def W_def T_def ac_simps)
  have pc: "\<forall>i \<in># worker_claim p. canon i = Some i" and po: "worker_ok ?st p"
    using inv by (auto simp: system_inv_def own ws)
  note ws' = worker_step_status [OF step pc po]
  show sub: "owned ?y \<subseteq># owned y" using ws'(1) by (simp add: own)
  show "run_moves (?st i) (status w' i)" by (rule ws'(4))
  show "i \<notin># owned y \<Longrightarrow> status w' i = ?st i" using ws'(3) by (simp add: own)
  have once: "\<forall>i. count (worker_claim p + (Q + W + T)) i \<le> 1" using inv by (simp add: system_inv_def own)
  have off: "status w' i = ?st i" if "i \<in># Q + W + T" for i
    using ws'(3) once_disjoint [OF once, of i] that by blast
  have "queue_ok (status w') (sy_queue y)"
    using inv ok_same(3) [of "sy_queue y" "status w'" ?st] off by (auto simp: system_inv_def Q_def)
  moreover have "\<forall>p \<in> set (l @ r). worker_ok (status w') p"
    using inv off by (intro all_ok_same(1) [of "l @ r" "status w'" ?st]) (auto simp: system_inv_def ws W_def)
  moreover have "\<forall>x \<in> set (sy_triggers y). stage_ok (status w') (snd x)"
    using inv off by (intro all_ok_same(2) [of _ "status w'" ?st]) (auto simp: system_inv_def T_def)
  moreover have "\<forall>i. count (owned ?y) i \<le> 1" "\<forall>i \<in># owned ?y. canon i = Some i"
    using once_subset [OF _ sub] inv mset_subset_eqD [OF sub] by (auto simp: system_inv_def)
  ultimately show "system_inv status canon n ?y"
    using inv ws'(2) by (auto simp: system_inv_def)
qed

lemma trigger_inv:
  assumes inv: "system_inv status canon (rcs_queueSize s) y" and ts: "sy_triggers y = l @ (c, p) # r"
    and un: "answered p = None" and step: "trigger_step s c p (sy_world y, sy_queue y) = (p', w', q')"
  shows "system_inv status canon (rcs_queueSize s) (y\<lparr>sy_world := w', sy_queue := q', sy_triggers := l @ (c, p') # r\<rparr>)"
    "run_moves (status (sy_world y) i) (status w' i)"
    "i \<notin># owned y \<Longrightarrow> status (sy_world y) i \<noteq> None \<Longrightarrow> status w' i = status (sy_world y) i"
    "i \<in># owned (y\<lparr>sy_world := w', sy_queue := q', sy_triggers := l @ (c, p') # r\<rparr>) \<Longrightarrow>
       i \<in># owned y \<or> status (sy_world y) i = None"
proof -
  let ?st = "status (sy_world y)" and ?y = "y\<lparr>sy_world := w', sy_queue := q', sy_triggers := l @ (c, p') # r\<rparr>"
  define W T where "W = sum_list (map worker_claim (sy_workers y))" and
    "T = sum_list (map (\<lambda>x. stage_claim (snd x)) (l @ r))"
  let ?Q = "mset (map job_runID (sy_queue y))" and ?Q' = "mset (map job_runID q')"
  have own: "owned y = stage_claim p + (?Q + (W + T))" "owned ?y = stage_claim p' + (?Q' + (W + T))"
    by (simp_all add: owned_def ts W_def T_def ac_simps)
  have pc: "\<forall>i \<in># stage_claim p. canon i = Some i" and po: "stage_ok ?st p"
    using inv by (auto simp: system_inv_def own ts)
  note ts' = trigger_step_status [OF step un pc po]
  show "run_moves (?st i) (status w' i)" by (rule ts'(2))
  show "i \<notin># owned y \<Longrightarrow> ?st i \<noteq> None \<Longrightarrow> status w' i = ?st i" using ts'(3) by (simp add: own)
  have once: "\<forall>i. count (stage_claim p + (?Q + (W + T))) i \<le> 1" using inv by (simp add: system_inv_def own)
  have off: "status w' i = ?st i" if "i \<in># ?Q + (W + T)" for i
    using ts'(3) [of i] once_disjoint [OF once, of i] that owned_known(1) [OF inv, of i] by (auto simp: own)
  have claim: "?Q' + stage_claim p' \<subseteq># ?Q + stage_claim p \<or>
      (\<exists>i. ?st i = None \<and> canon i = Some i \<and> ?Q' = ?Q \<and> stage_claim p' = {#i#} \<and> stage_claim p = {#})"
    using ts'(6) by blast
  note owns = owned_after [OF inv own claim]
  from owns(3) show "i \<in># owned ?y \<Longrightarrow> i \<in># owned y \<or> ?st i = None" by (rule bspec)
  have "queue_ok (status w') q'"
    unfolding queue_ok_def
  proof
    fix job
    assume "job \<in> set q'"
    with ts'(5) [OF this] po off [of "job_runID job"] inv show "status w' (job_runID job) = Some RunStatusPending"
      by (cases "job \<in> set (sy_queue y)") (auto simp: stage_ok_def system_inv_def queue_ok_def)
  qed
  moreover have "\<forall>p \<in> set (sy_workers y). worker_ok (status w') p"
    using inv off by (intro all_ok_same(1) [of _ "status w'" ?st]) (auto simp: system_inv_def W_def)
  moreover have "\<forall>x \<in> set (l @ r). stage_ok (status w') (snd x)"
    using inv off by (intro all_ok_same(2) [of _ "status w'" ?st]) (auto simp: system_inv_def ts T_def)
  ultimately show "system_inv status canon (rcs_queueSize s) ?y"
    using inv ts'(1,4) owns(1,2) by (auto simp: system_inv_def)
qed

text \<open>The queue's head passes to the worker that takes it.\<close>

lemma take_inv:
  assumes inv: "system_inv status canon n y" and ws: "sy_workers y = l @ Idle # r" and q: "sy_queue y = job # q"
  shows "system_inv status canon n (y\<lparr>sy_queue := q, sy_workers := l @ take_job rt ctx job (sy_world y) # r\<rparr>)"
    "owned (y\<lparr>sy_queue := q, sy_workers := l @ take_job rt ctx job (sy_world y) # r\<rparr>) = owned y"
proof -
  let ?y = "y\<lparr>sy_queue := q, sy_workers := l @ take_job rt ctx job (sy_world y) # r\<rparr>"
  show same: "owned ?y = owned y" by (simp add: owned_def ws q take_job_def ac_simps)
  have "worker_ok (status (sy_world y)) (take_job rt ctx job (sy_world y))"
    using inv q by (simp add: worker_ok_def take_job_def system_inv_def queue_ok_def)
  with inv ws q show "system_inv status canon n ?y"
    unfolding system_inv_def same by (auto simp: queue_ok_def)
qed

lemma system_step_inv:
  assumes inv: "system_inv status canon (rcs_queueSize s) y" and step: "system_step rt s ctx env y y'"
    and env: "\<And>w w'. env w w' \<Longrightarrow> status w' = status w"
  shows "system_inv status canon (rcs_queueSize s) y' \<and> run_moves (status (sy_world y) i) (status (sy_world y') i) \<and>
    (i \<notin># owned y \<longrightarrow> status (sy_world y) i \<noteq> None \<longrightarrow>
       status (sy_world y') i = status (sy_world y) i \<and> i \<notin># owned y')"
  using step
proof (cases rule: system_step.cases)
  case service
  from this show ?thesis
  proof (cases rule: service_step.cases)
    case (trigger l c p r p' w' q')
    from trigger_inv(1-3) [OF inv trigger(2-4)] trigger_inv(4) [OF inv trigger(2-4), of i]
    show ?thesis unfolding trigger(1) by auto
  next
    case (take l r job q)
    from take_inv [OF inv take(2,3)] show ?thesis unfolding take(1) by auto
  next
    case (work l p r p' w')
    from work_inv [OF inv work(2,4)] show ?thesis unfolding work(1) by (auto dest: mset_subset_eqD)
  qed
next
  case (arrive c)
  have "stage_claim (trigger_start s (tc_request c)) = {#}" by (simp add: trigger_start_def split: option.split)
  then have "owned y' = owned y" "stage_ok st (trigger_start s (tc_request c))" for st
    by (simp_all add: arrive owned_def stage_ok_def)
  with inv arrive show ?thesis by (auto simp: system_inv_def)
next
  case (stop l r)
  then have "owned y' = owned y" by (simp add: owned_def)
  with inv stop show ?thesis by (auto simp: system_inv_def worker_ok_def)
next
  case (other w')
  then have "owned y' = owned y" by (simp add: owned_def)
  with inv other env [OF other(2)] show ?thesis by (auto simp: system_inv_def)
qed

lemma Start_inv: "system_inv status canon (rcs_queueSize s) (Start n w)"
proof -
  have "sum_list (map worker_claim (replicate k Idle)) = {#}" for k by (induction k) simp_all
  then have "owned (Start n w) = {#}" by (simp add: owned_def Start_def)
  then show ?thesis by (auto simp: system_inv_def Start_def queue_ok_def worker_ok_def)
qed

lemma reachable_inv:
  assumes "reachable rt s ctx env y y'" and "system_inv status canon (rcs_queueSize s) y"
    and env: "\<And>w w'. env w w' \<Longrightarrow> status w' = status w"
  shows "system_inv status canon (rcs_queueSize s) y'"
  using assms(1,2) unfolding reachable_def
  by (induction rule: rtranclp_induct) (use system_step_inv [OF _ _ env] in blast)+

text \<open>A run that nobody owns and one that is done stay as they are for ever.\<close>

lemma reachable_unowned:
  assumes "reachable rt s ctx env y y'" and "system_inv status canon (rcs_queueSize s) y"
    and env: "\<And>w w'. env w w' \<Longrightarrow> status w' = status w"
    and "i \<notin># owned y" and "status (sy_world y) i \<noteq> None"
  shows "status (sy_world y') i = status (sy_world y) i"
proof -
  from assms(1) have "system_inv status canon (rcs_queueSize s) y' \<and> i \<notin># owned y' \<and>
      status (sy_world y') i = status (sy_world y) i"
    unfolding reachable_def
  proof (induction rule: rtranclp_induct)
    case base
    with assms show ?case by simp
  next
    case (step y1 y2)
    with system_step_inv [OF _ step(2) env, of i] assms(5) show ?case by metis
  qed
  then show ?thesis by blast
qed

lemma reachable_done:
  assumes "reachable rt s ctx env y y'" and "system_inv status canon (rcs_queueSize s) y"
    and env: "\<And>w w'. env w w' \<Longrightarrow> status w' = status w"
    and "status (sy_world y) i \<in> {Some RunStatusCompleted, Some RunStatusFailed}"
  shows "status (sy_world y') i = status (sy_world y) i"
proof -
  from assms(1) have "system_inv status canon (rcs_queueSize s) y' \<and> status (sy_world y') i = status (sy_world y) i"
    unfolding reachable_def
  proof (induction rule: rtranclp_induct)
    case base
    with assms show ?case by simp
  next
    case (step y1 y2)
    with system_step_inv [OF _ step(2) env, of i] assms(4) show ?case
      by (auto simp: run_moves_def)
  qed
  then show ?thesis by blast
qed

end

end
