(* ===== verification/Pipeline_Properties.thy ===== *)
theory Pipeline_Properties
  imports Pipeline_Facts Service_Properties Quiet_Network
begin

section \<open>Properties of the interleaved service\<close>

text \<open>
  The service of \<open>cmd/api\<close> with its triggers and workers side by side: the calls compose to the
  functions of the code, the service comes to rest, the states of the runs only go forward
  under every interleaving, an abandoned run stays where it is, and an undisturbed worker
  finishes every job.
\<close>

text \<open>The steps of one trigger made without interruption are \<open>Trigger\<close>, and those of one worker from
  the taking of a job to its release are \<open>processJob\<close>.\<close>

lemma steps_are_the_code:
  "trigger_run s \<lparr>tc_ctx = ctx, tc_token = tok, tc_request = rq\<rparr> (trigger_start s rq) (w, q) =
     RecomputeService_Trigger s ctx tok rq (w, q) \<and>
   worker_run s (take_job rt root job w) w = processJob rt s root job w"
  using trigger_run_Trigger [of s "\<lparr>tc_ctx = ctx, tc_token = tok, tc_request = rq\<rparr>"] worker_run_processJob [of s]
  by simp

text \<open>C13: Whatever the stores answer and however the goroutines are scheduled, the service makes at
  most \<open>calls_left\<close> steps without a new request; where no step is left, every trigger has been
  answered, no worker is on a job, and the channel is empty unless all workers have stopped.\<close>

theorem service_comes_to_rest:
  assumes "(service_step rt s ctx ^^ n) y y'"
  shows "n + calls_left y' \<le> calls_left y \<and>
    ((\<exists>z. service_step rt s ctx y' z) \<or>
     (\<forall>(c, p) \<in> set (sy_triggers y'). answered p \<noteq> None) \<and> (\<forall>p \<in> set (sy_workers y'). resting p) \<and>
     (Idle \<notin> set (sy_workers y') \<or> sy_queue y' = []))"
  using service_steps_work [OF assms] at_rest [of rt s ctx y'] by blast

definition sample_system :: "(pgdb, keyspace) world system" where
  "sample_system = (Start 1 sample_world)\<lparr>sy_queue := [sample_job]\<rparr>"

lemma sample_system_simps [simp]:
  "sy_world sample_system = sample_world" "sy_queue sample_system = [sample_job]"
  "sy_workers sample_system = [Idle]" "sy_triggers sample_system = []"
  by (simp_all add: sample_system_def Start_def effectiveWorkers_def)

lemma sample_take:
  "service_step rt s ctx sample_system
     (sample_system\<lparr>sy_queue := [], sy_workers := [take_job rt ctx sample_job sample_world]\<rparr>)"
  using service_step.take [of sample_system "[]" "[]" sample_job "[]" rt s ctx] by simp

theorem service_comes_to_rest_witness:
  "\<exists>y'. (service_step (api_runtime id) (sample_service 1) None ^^ 1) sample_system y' \<and> 1 + calls_left y' \<le> 7"
proof -
  let ?y = "sample_system\<lparr>sy_queue := [], sy_workers := [take_job (api_runtime id) None sample_job sample_world]\<rparr>"
  have "(service_step (api_runtime id) (sample_service 1) None ^^ 1) sample_system ?y"
    unfolding One_nat_def by (rule relpowp_Suc_I [where n = 0]) (simp, rule sample_take)
  with service_comes_to_rest [OF this] show ?thesis
    by (auto simp: calls_left_def take_job_def intro!: exI [of _ ?y])
qed

context postgres_server begin

lemmas system_step_laws = jobs.system_step_inv
lemmas start_laws = jobs.Start_inv
lemmas reachable_laws = jobs.reachable_inv jobs.reachable_unowned jobs.reachable_done

end

abbreviation run_states :: "(pgdb, 'r) world system \<Rightarrow> string \<Rightarrow> string option" where
  "run_states y \<equiv> run_status (w_db (sy_world y))"

lemma api_queueSize [simp]: "rcs_queueSize (api_recomputeService pg srv D ttl n) = n"
  by (simp add: wiring_simps)

lemma api_reachable_inv:
  assumes "postgres_server pg" and "\<And>w w'. env w w' \<Longrightarrow> run_status (w_db w') = run_status (w_db w)"
    and "reachable rt (api_recomputeService pg srv D ttl n) ctx env (Start k w) y"
  shows "system_inv (\<lambda>w. run_status (w_db w)) (pgs_uuid_text pg) n y"
  using postgres_server.reachable_laws(1) [OF assms(1,3) postgres_server.start_laws [OF assms(1)] assms(2)]
  by simp

text \<open>C7: In every state that the running service can reach, under every interleaving of its triggers
  and workers and every failure of the stores: the channel is within its size, no run is owned
  twice by the channel, the workers and the triggers, every job of the channel has a pending
  run; and the next step takes each run from pending to running or failed, from running to
  completed or failed, or leaves it.\<close>

theorem runs_go_forward:
  assumes "postgres_server pg" and "\<And>w w'. env w w' \<Longrightarrow> run_status (w_db w') = run_status (w_db w)"
    and "reachable rt (api_recomputeService pg srv D ttl n) ctx env (Start k w) y"
    and "system_step rt (api_recomputeService pg srv D ttl n) ctx env y y'"
  shows "length (sy_queue y) \<le> n \<and> (\<forall>i. count (owned y) i \<le> 1) \<and> queue_ok (run_states y) (sy_queue y) \<and>
    run_moves (run_states y i) (run_states y' i)"
proof -
  have inv: "system_inv (\<lambda>w. run_status (w_db w)) (pgs_uuid_text pg) n y" by (rule api_reachable_inv [OF assms(1-3)])
  then show ?thesis
    using postgres_server.system_step_laws [OF assms(1) _ assms(4,2), of i] by (simp add: system_inv_def)
qed

text \<open>A request of the sample service arrives.\<close>

definition sample_call :: trigger_call where
  "sample_call = \<lparr>tc_ctx = None, tc_token = ''tok'', tc_request = sample_request ''day''\<rparr>"

theorem runs_go_forward_witness:
  "\<exists>y'. system_step (api_runtime id) (sample_service 1) None (\<lambda>w w'. w' = w) (Start 1 sample_world) y' \<and>
     run_moves (run_states (Start 1 sample_world) sample_run_id) (run_states y' sample_run_id)"
proof -
  let ?y = "(Start 1 sample_world)\<lparr>sy_triggers :=
      sy_triggers (Start 1 sample_world) @ [(sample_call, trigger_start (sample_service 1) (tc_request sample_call))]\<rparr>"
  have step: "system_step (api_runtime id) (sample_service 1) None (\<lambda>w w'. w' = w) (Start 1 sample_world) ?y"
    by (rule system_step.arrive)
  have "reachable (api_runtime id) (sample_service 1) None (\<lambda>w w'. w' = w) (Start 1 sample_world) (Start 1 sample_world)"
    by (simp add: reachable_def)
  from runs_go_forward [OF sample.postgres_server_axioms _ this step, of sample_run_id] step show ?thesis by blast
qed

text \<open>C20: A run is done for good: once completed or failed, it stays so in every later state of the
  service. And a run that no trigger, worker or job of the channel owns any more stays in the
  state it has, whatever it is: nothing in the service takes up a run that was left pending or
  running.\<close>

theorem left_runs_stay:
  assumes "postgres_server pg" and "\<And>w w'. env w w' \<Longrightarrow> run_status (w_db w') = run_status (w_db w)"
    and "reachable rt (api_recomputeService pg srv D ttl n) ctx env (Start k w) y"
    and "reachable rt (api_recomputeService pg srv D ttl n) ctx env y y'"
    and "run_states y i \<in> {Some RunStatusCompleted, Some RunStatusFailed} \<or> i \<notin># owned y \<and> run_states y i \<noteq> None"
  shows "run_states y' i = run_states y i"
proof -
  have inv: "system_inv (\<lambda>w. run_status (w_db w)) (pgs_uuid_text pg)
      (rcs_queueSize (api_recomputeService pg srv D ttl n)) y"
    using api_reachable_inv [OF assms(1-3)] by simp
  from assms(5) show ?thesis
  proof
    assume "run_states y i \<in> {Some RunStatusCompleted, Some RunStatusFailed}"
    from postgres_server.reachable_laws(3) [OF assms(1,4) inv assms(2) this] show ?thesis .
  next
    assume "i \<notin># owned y \<and> run_states y i \<noteq> None"
    with postgres_server.reachable_laws(2) [OF assms(1,4) inv assms(2)] show ?thesis by blast
  qed
qed

theorem left_runs_stay_witness:
  "\<exists>y'. reachable (api_runtime id) (sample_service 1) None (\<lambda>w w'. w' = w\<lparr>w_now := w_now w + 1\<rparr>) (Start 1 sample_world) y' \<and>
     w_now (sy_world y') = midnight 12 + 1 \<and> run_states y' sample_run_id = Some RunStatusPending"
proof -
  let ?env = "\<lambda>w w' :: (pgdb, keyspace) world. w' = w\<lparr>w_now := w_now w + 1\<rparr>"
  let ?y = "(Start 1 sample_world)\<lparr>sy_world := sample_world\<lparr>w_now := midnight 12 + 1\<rparr>\<rparr>"
  have here: "reachable (api_runtime id) (sample_service 1) None ?env (Start 1 sample_world) (Start 1 sample_world)"
    by (simp add: reachable_def)
  have "system_step (api_runtime id) (sample_service 1) None ?env (Start 1 sample_world) ?y"
    by (rule system_step.other) (simp add: Start_def)
  then have r: "reachable (api_runtime id) (sample_service 1) None ?env (Start 1 sample_world) ?y"
    by (simp add: reachable_def r_into_rtranclp)
  have "run_states (Start 1 sample_world) sample_run_id = Some RunStatusPending"
    by (simp add: Start_def run_status_def run_row_of_def sample_defs status_defs)
  moreover have "sample_run_id \<notin># owned (Start 1 sample_world)"
    by (simp add: owned_def Start_def effectiveWorkers_def)
  ultimately have "run_states ?y sample_run_id = Some RunStatusPending"
    using left_runs_stay [OF sample.postgres_server_axioms _ here r, of sample_run_id] by simp
  with r show ?thesis by (intro exI [of _ ?y]) simp
qed


subsection \<open>A rebuild that outlasts the worker's context\<close>

text \<open>C21: The two minutes of a worker cover its last calls too: when the rebuild returns with the
  context done, the run is not marked, the failure is not audited and the lock is not given
  back, since every one of those calls fails without effect. The turn ends with the run
  running and every entry of Redis as before.\<close>

theorem late_rebuild_abandons_run:
  assumes "wctx = WithTimeout ctx (rt_now rt w) (2 * ns_Minute)"
    and "Store_MarkRunRunning pg wctx (job_runID job) w = (w1, Inr ())"
    and "Store_RecomputeReport pg wctx (job_request job) (job_runID job) w1 = (w2, v)"
    and "ctx_done wctx (w_now w2)" and "pgs_uuid_text pg (job_runID job) = Some i" and "run_exists (w_db w) i"
  shows "processJob rt (api_recomputeService pg srv D ttl n) ctx job w = w2 \<and>
    run_status (w_db w2) i = Some RunStatusRunning \<and> w_rd w2 = w_rd w"
proof -
  note dead = call_ctx_done [OF assms(4)]
  have rel: "RedisStore_Release srv wctx k tok w2 = (w2, Inl CtxError)" for k tok
    by (simp add: RedisStore_Release_def dead)
  have "fst (RedisStore_BumpVersion srv wctx slug w2) = w2" for slug
    by (simp add: RedisStore_BumpVersion_def dead)
  then have "processJob rt (api_recomputeService pg srv D ttl n) ctx job w = w2"
    using assms(2,3) rel
    by (simp add: processJob_def Let_def wiring_simps assms(1) [symmetric] Store_MarkRunFailed_def
        Store_MarkRunCompleted_def Store_CreateEntry_def bumpCache_def dead split: sum.split)
  moreover have "run_status (w_db w2) = run_status (w_db w1)"
    using recompute_status_frame [of pg wctx "job_request job" "job_runID job" w1] by (simp add: assms(3))
  moreover have "run_status (w_db w1) i = Some RunStatusRunning"
  proof -
    from mark_law [OF assms(2) [unfolded Store_MarkRunRunning_def], of RunStatusRunning] have
        "run_status (w_db w1) = (run_status (w_db w))(i := map_option (\<lambda>_. RunStatusRunning) (run_status (w_db w) i))"
      by (auto simp: assms(5) RunStatusRunning_def)
    with assms(6) run_status_None [of "w_db w" i] show ?thesis by auto
  qed
  moreover have "w_rd w2 = w_rd w"
    using pg_frames(3) [of pg wctx "job_runID job" w] pg_frames(7) [of pg wctx "job_request job" "job_runID job" w1]
    by (simp add: assms(2,3))
  ultimately show ?thesis by simp
qed

text \<open>The first call of the rebuild takes three minutes.\<close>

definition slow_world :: "(pgdb, keyspace) world" where
  "slow_world = sample_locked\<lparr>w_script := [(0, Served), (180000000000, Served)]\<rparr>"

lemma slow_world_simps [simp]:
  "w_now slow_world = midnight 12" "w_script slow_world = [(0, Served), (180000000000, Served)]"
  "w_db slow_world = sample_db"
  by (simp_all add: slow_world_def sample_locked_def)

theorem late_rebuild_abandons_run_witness:
  "\<exists>w2. processJob (api_runtime id) (sample_service 1) None sample_job slow_world = w2 \<and>
     run_status (w_db w2) sample_run_id = Some RunStatusRunning \<and>
     w_rd w2 (lockKey (sample_request ''day'')) = Some (Text ''other'', None)"
proof -
  let ?wctx = "WithTimeout None (rt_now (api_runtime id) slow_world) (2 * ns_Minute)"
  let ?i = "job_runID sample_job"
  note minute = ns_Minute_def ns_Second_def
  have id: "?i = sample_run_id" "pgs_uuid_text sample_pg sample_run_id = Some sample_run_id"
    by (simp_all add: sample_job_def sample_pg_def sample_run_id_def)
  let ?w = "slow_world\<lparr>w_now := midnight 12, w_script := [(180000000000, Served)]\<rparr>"
  have "remote ?wctx f slow_world = f ?w" for f :: "((pgdb, keyspace) world, unit) io"
    by (simp add: remote_def next_outcome_def pass_time_def minute del: pass_time_simps)
  then obtain d where m: "Store_MarkRunRunning sample_pg ?wctx ?i slow_world = (?w\<lparr>w_db := d\<rparr>, Inr ())"
    by (simp add: Store_MarkRunRunning_def db_call_def sql_update_run_def id)
  let ?w1 = "?w\<lparr>w_db := d\<rparr>"
  have "remote ?wctx f ?w1 = (pass_time ?w1, Inl CtxError)" and w2: "w_now (pass_time ?w1) = midnight 12 + 180000000000"
    for f :: "((pgdb, keyspace) world, pgdb \<times> gotime) io"
    by (simp_all add: remote_def next_outcome_def pass_time_def minute del: pass_time_simps)
  then have r: "Store_RecomputeReport sample_pg ?wctx (job_request sample_job) ?i ?w1 = (pass_time ?w1, Inl CtxError)"
    by (simp add: Store_RecomputeReport_def Let_def)
  have "run_exists (w_db slow_world) sample_run_id"
    by (simp add: run_exists_def sample_defs)
  from late_rebuild_abandons_run [OF refl m r _ _ this] show ?thesis
    by (simp add: minute w2 id) (simp add: slow_world_def sample_locked_def)
qed

subsection \<open>Draining the channel\<close>

context redis_protocol begin

lemma drain:
  assumes "undisturbed ctx w" and "\<forall>job \<in> set q. pgs_uuid_text pg (job_runID job) = Some (job_runID job) \<and>
      is_lock_key (job_lockKey job)"
  shows "\<exists>w'. (workerTurn (api_runtime sha) (api_recomputeService pg srv D ttl n) ctx ^^ length q) (w, q) = (w', []) \<and>
    (\<forall>i. run_status (w_db w') i = run_status (w_db w) i \<and> i \<notin> job_runID ` set q \<or>
       run_status (w_db w) i = None \<and> run_status (w_db w') i = None \<or>
       i \<in> job_runID ` set q \<and> run_status (w_db w') i \<in> {Some RunStatusCompleted, Some RunStatusFailed}) \<and>
    (\<forall>k. abs_locks (view (w_now w') (w_rd w')) k =
       (if \<exists>job \<in> set q. job_lockKey job = k \<and> abs_locks (view (w_now w) (w_rd w)) k = Some (Text (job_lockToken job))
        then None else abs_locks (view (w_now w) (w_rd w)) k))"
  using assms
proof (induction q arbitrary: w)
  case (Cons job q)
  let ?turn = "workerTurn (api_runtime sha) (api_recomputeService pg srv D ttl n) ctx"
  let ?w1 = "processJob (api_runtime sha) (api_recomputeService pg srv D ttl n) ctx job w"
  have job: "pgs_uuid_text pg (job_runID job) = Some (job_runID job)" "is_lock_key (job_lockKey job)"
    using Cons.prems(2) by simp_all
  from workerTurn_refines [OF Cons.prems(1) job, of sha D ttl n q] obtain b where
      one: "abs_state view (?w1, q) = spec_work b (abs_state view (w, job # q))" by auto
  have runs: "run_status (w_db ?w1) = (run_status (w_db w))(job_runID job := map_option
      (\<lambda>_. if b then RunStatusCompleted else RunStatusFailed) (run_status (w_db w) (job_runID job)))"
    using arg_cong [OF one, of st_runs] by (simp add: abs_state_def spec_work_def job_entry_def)
  have locks: "abs_locks (view (w_now ?w1) (w_rd ?w1)) =
      (if abs_locks (view (w_now w) (w_rd w)) (job_lockKey job) = Some (Text (job_lockToken job))
       then (abs_locks (view (w_now w) (w_rd w)))(job_lockKey job := None) else abs_locks (view (w_now w) (w_rd w)))"
    using arg_cong [OF one, of st_locks] by (simp add: abs_state_def spec_work_def job_entry_def)
  have "undisturbed ctx ?w1" by (rule quiet_undisturbed [OF quiet_processJob Cons.prems(1)])
  from Cons.IH [OF this] Cons.prems(2) obtain w' where w': "(?turn ^^ length q) (?w1, q) = (w', [])"
    "\<forall>i. run_status (w_db w') i = run_status (w_db ?w1) i \<and> i \<notin> job_runID ` set q \<or>
       run_status (w_db ?w1) i = None \<and> run_status (w_db w') i = None \<or>
       i \<in> job_runID ` set q \<and> run_status (w_db w') i \<in> {Some RunStatusCompleted, Some RunStatusFailed}"
    "\<forall>k. abs_locks (view (w_now w') (w_rd w')) k =
       (if \<exists>job \<in> set q. job_lockKey job = k \<and> abs_locks (view (w_now ?w1) (w_rd ?w1)) k = Some (Text (job_lockToken job))
        then None else abs_locks (view (w_now ?w1) (w_rd ?w1)) k)"
    by auto
  have "(?turn ^^ length (job # q)) (w, job # q) = (w', [])"
    using w'(1) by (simp add: funpow_Suc_right del: funpow.simps)
  moreover have "run_status (w_db w') i = run_status (w_db w) i \<and> i \<notin> job_runID ` set (job # q) \<or>
       run_status (w_db w) i = None \<and> run_status (w_db w') i = None \<or>
       i \<in> job_runID ` set (job # q) \<and> run_status (w_db w') i \<in> {Some RunStatusCompleted, Some RunStatusFailed}" for i
    using w'(2) [rule_format, of i] by (cases "run_status (w_db w) i") (auto simp: runs split: if_splits)
  moreover have "abs_locks (view (w_now w') (w_rd w')) k =
       (if \<exists>job \<in> set (job # q). job_lockKey job = k \<and>
          abs_locks (view (w_now w) (w_rd w)) k = Some (Text (job_lockToken job))
        then None else abs_locks (view (w_now w) (w_rd w)) k)" for k
    using w'(3) [rule_format, of k] by (auto simp: locks)
  ultimately show ?case by blast
qed simp

end


text \<open>C14: A worker that is left undisturbed drains the channel: after as many turns as there are jobs
  the channel is empty, the run of every job that has one is completed or failed, no other
  run has changed, and the lock of each job is given back if it was still held under the
  job's token, all other locks being as they were.\<close>

theorem queue_drains:
  assumes "redis_protocol srv view" and "undisturbed ctx w"
    and "\<forall>job \<in> set q. pgs_uuid_text pg (job_runID job) = Some (job_runID job) \<and> is_lock_key (job_lockKey job)"
  shows "\<exists>w'. (workerTurn (api_runtime sha) (api_recomputeService pg srv D ttl n) ctx ^^ length q) (w, q) = (w', []) \<and>
    (\<forall>i. run_status (w_db w') i = run_status (w_db w) i \<and> i \<notin> job_runID ` set q \<or>
       run_status (w_db w) i = None \<and> run_status (w_db w') i = None \<or>
       i \<in> job_runID ` set q \<and> run_status (w_db w') i \<in> {Some RunStatusCompleted, Some RunStatusFailed}) \<and>
    (\<forall>k. abs_locks (view (w_now w') (w_rd w')) k =
       (if \<exists>job \<in> set q. job_lockKey job = k \<and> abs_locks (view (w_now w) (w_rd w)) k = Some (Text (job_lockToken job))
        then None else abs_locks (view (w_now w) (w_rd w)) k))"
  by (rule redis_protocol.drain [OF assms])

theorem queue_drains_witness:
  "\<exists>w'. (workerTurn (api_runtime id) (sample_service 1) None ^^ 2) (sample_world, [sample_job, sample_job]) = (w', []) \<and>
     run_status (w_db w') sample_run_id \<in> {Some RunStatusCompleted, Some RunStatusFailed}"
proof -
  let ?q = "[sample_job, sample_job]"
  have "\<forall>job \<in> set ?q. pgs_uuid_text sample_pg (job_runID job) = Some (job_runID job) \<and> is_lock_key (job_lockKey job)"
    by (simp add: sample_job_def sample_pg_def sample_run_id_def)
  from queue_drains [OF ks.redis_protocol_axioms sample_undisturbed this, of id 366 "15 * ns_Minute" 1] obtain w' where
      w': "(workerTurn (api_runtime id) (sample_service 1) None ^^ length ?q) (sample_world, ?q) = (w', [])"
      "\<forall>i. run_status (w_db w') i = run_status sample_db i \<and> i \<notin> job_runID ` set ?q \<or>
         run_status sample_db i = None \<and> run_status (w_db w') i = None \<or>
         i \<in> job_runID ` set ?q \<and> run_status (w_db w') i \<in> {Some RunStatusCompleted, Some RunStatusFailed}"
    by auto
  have "run_status sample_db sample_run_id \<noteq> None" by (simp add: run_status_def run_row_of_def sample_defs)
  with w'(2) [rule_format, of sample_run_id] have "run_status (w_db w') sample_run_id \<in> {Some RunStatusCompleted, Some RunStatusFailed}"
    by (auto simp: sample_job_def)
  moreover have "length ?q = 2" by simp
  ultimately show ?thesis using w'(1) by metis
qed

end
