(* ===== verification/Cache_Properties.thy ===== *)
theory Cache_Properties
  imports Sample_Service Quiet_Network
begin

section \<open>Properties of the report cache\<close>

text \<open>
  The report service over PostgreSQL and Redis: the keys of cached results, what a hit is, that
  a result stored is served again, that a completed recompute makes the service read the
  database again, and what the generation counter does not prevent.
\<close>

subsection \<open>The calls on an undisturbed network\<close>

text \<open>The counter of a report, as Redis holds it at the time of a world.\<close>

definition generation :: "(gotime \<Rightarrow> 'r \<Rightarrow> string \<Rightarrow> entry option) \<Rightarrow> ('d, 'r) world \<Rightarrow> string \<Rightarrow> int \<Rightarrow> bool" where
  "generation view w slug n \<longleftrightarrow>
     view (w_now w) (w_rd w) (versionKey slug) = Some (Text (int_dec n), None) \<and> min_int64 \<le> n \<and> n < max_int64"

lemma generation_db [simp]: "generation view (w\<lparr>w_db := d\<rparr>) slug n = generation view w slug n"
  by (simp add: generation_def)

text \<open>Of one report the keys of results are not the key of the counter: a digest has 64 digits.\<close>

lemma cache_key_not_version:
  assumes "64 \<le> length d"
  shows "cache_key_text slug n d \<noteq> versionKey slug"
proof
  assume "cache_key_text slug n d = versionKey slug"
  from arg_cong [OF this, of length] assms show False by (simp add: cache_key_text_def versionKey_def)
qed

definition report_key :: "(string \<Rightarrow> string) \<Rightarrow> string \<Rightarrow> int \<Rightarrow> ReportRunParams \<Rightarrow> string" where
  "report_key sha slug n p = cache_key_text slug n (sha (params_blob p))"

definition no_hit ::
    "(gotime \<Rightarrow> 'r \<Rightarrow> string \<Rightarrow> entry option) \<Rightarrow> (string \<Rightarrow> string) \<Rightarrow> string \<Rightarrow> int \<Rightarrow> ReportRunParams
     \<Rightarrow> ('d, 'r) world \<Rightarrow> bool" where
  "no_hit view sha slug n p w \<longleftrightarrow>
     (\<forall>payload x res. view (w_now w) (w_rd w) (report_key sha slug n p) = Some (payload, x) \<longrightarrow>
        unmarshal_result payload \<noteq> Inr res)"

lemma api_report_ports [simp]:
  "rs_repo (api_reportService pg srv D) = pg_reports pg" "rs_cache (api_reportService pg srv D) = Some (redis_cache srv)"
  by (simp_all add: wiring_simps)

lemma reports_undisturbed:
  assumes "undisturbed ctx w"
  shows "fst (Store_RunVolumeReport pg ctx p w) = w" "fst (Store_RunStatusCountsReport pg ctx p w) = w"
    "fst (Store_RunTopEntitiesReport pg ctx p w) = w"
proof -
  have q: "fst (run_query ctx columns g w) = w" for columns g
    using run_query_undisturbed [OF assms, of columns g] by simp
  show "fst (Store_RunVolumeReport pg ctx p w) = w" "fst (Store_RunStatusCountsReport pg ctx p w) = w"
    "fst (Store_RunTopEntitiesReport pg ctx p w) = w"
    unfolding Store_RunVolumeReport_def Store_RunStatusCountsReport_def Store_RunTopEntitiesReport_def
    by (auto simp only: q split: if_split)
qed
lemma fst_answer: "fst x = w \<Longrightarrow> fst (case x of (w1, Inl e) \<Rightarrow> (w1, g e) | (w1, Inr y) \<Rightarrow> (w1, h y)) = w"
  by (cases x) (auto split: sum.split)

lemma execute_undisturbed:
  assumes "undisturbed ctx w"
  shows "fst (executeReportQuery (api_reportService pg srv D) ctx slug p w) = w"
  unfolding executeReportQuery_def api_report_ports pg_reports_def ReportRepository.simps
  by (simp only: fst_answer reports_undisturbed [OF assms] fst_conv split: if_split) simp

context redis_protocol begin

lemma GetVersion_undisturbed:
  assumes "undisturbed ctx w" and "generation view w slug n"
  shows "RedisStore_GetVersion srv ctx slug w = (w, Inr n)"
  using assms
  by (simp add: RedisStore_GetVersion_def Let_def client_Get_def rd_call_undisturbed get_law generation_def
      parse_version_def ParseInt64_int_dec)

lemma Get_undisturbed:
  "undisturbed ctx w \<Longrightarrow> RedisStore_Get srv ctx k w = (w, Inr (map_option fst (view (w_now w) (w_rd w) k)))"
  by (simp add: RedisStore_Get_def client_Get_def rd_call_undisturbed get_law split: option.split)

lemma cacheKey_undisturbed:
  assumes "undisturbed ctx w" and "generation view w slug n"
  shows "cacheKey (api_runtime sha) (api_reportService pg srv D) ctx slug p w = (w, Inr (report_key sha slug n p))"
  using GetVersion_undisturbed [OF assms] by (simp add: cacheKey_def redis_cache_def report_key_def)

lemma storeCachedResult_undisturbed:
  assumes "undisturbed ctx w" and "generation view w slug n" and "valid_ttl d"
  shows "\<exists>r'. storeCachedResult (api_runtime sha) (api_reportService pg srv D) ctx slug p res d w =
      (w\<lparr>w_rd := r'\<rparr>, Inr ()) \<and>
    view (w_now w) r' = (view (w_now w) (w_rd w))(report_key sha slug n p \<mapsto> (marshal_result res, expiry (w_now w) d))"
  using cacheKey_undisturbed [OF assms(1,2)] set_law [OF assms(3)] assms(1)
  by (intro exI [of _ "srv_set srv (w_now w) (report_key sha slug n p) (marshal_result res) d (w_rd w)"])
    (simp add: storeCachedResult_def redis_cache_def RedisStore_Set_def client_Set_def rd_call_undisturbed)

lemma getCachedResult_undisturbed:
  assumes "undisturbed ctx w" and "generation view w slug n"
  shows "getCachedResult (api_runtime sha) (api_reportService pg srv D) ctx slug p w =
    (w, case view (w_now w) (w_rd w) (report_key sha slug n p) of
          None \<Rightarrow> Inr None
        | Some (payload, x) \<Rightarrow> (case unmarshal_result payload of Inl e \<Rightarrow> Inl e | Inr res \<Rightarrow> Inr (Some res)))"
  using cacheKey_undisturbed [OF assms] Get_undisturbed [OF assms(1)]
  by (simp add: getCachedResult_def redis_cache_def split: option.split sum.split)

lemma RunReport_cached:
  assumes "undisturbed ctx w" and "generation view w slug n"
    and "Store_GetReportDefinition pg ctx slug w = (w, Inr rep)" and "0 < rd_CacheTTLSeconds rep"
    and "validateRunParams (api_reportService pg srv D :: (pgdb, 'r) world ReportService) p = None"
    and "view (w_now w) (w_rd w) (report_key sha slug n p) = Some (payload, x)" and "unmarshal_result payload = Inr res"
  shows "ReportService_RunReport (api_runtime sha) (api_reportService pg srv D) ctx slug p w =
    (w, Inr (res\<lparr>rr_CacheHit := True, rr_SourceSystem := ''redis''\<rparr>))"
  using assms getCachedResult_undisturbed [OF assms(1,2)]
  by (simp add: ReportService_RunReport_def cached_or_miss_def pg_reports_def Let_def ns_Second_def)

lemma RunReport_uncached:
  assumes "undisturbed ctx w" and "generation view w slug n"
    and "Store_GetReportDefinition pg ctx slug w = (w, Inr rep)" and "0 < rd_CacheTTLSeconds rep"
    and "validateRunParams (api_reportService pg srv D :: (pgdb, 'r) world ReportService) p = None"
    and "no_hit view sha slug n p w"
    and "snd (executeReportQuery (api_reportService pg srv D) ctx slug p w) = Inr rows"
  shows "\<exists>r'. ReportService_RunReport (api_runtime sha) (api_reportService pg srv D) ctx slug p w =
      (w\<lparr>w_rd := r'\<rparr>, Inr (fresh_result slug p rows (w_now w) (w_now w))) \<and>
    view (w_now w) r' = (view (w_now w) (w_rd w))(report_key sha slug n p \<mapsto>
      (marshal_result (fresh_result slug p rows (w_now w) (w_now w)), expiry (w_now w) (rd_CacheTTLSeconds rep * ns_Second)))"
proof -
  let ?res = "fresh_result slug p rows (w_now w) (w_now w)" and ?d = "rd_CacheTTLSeconds rep * ns_Second"
  have ttl: "valid_ttl ?d" "0 < ?d" using assms(4) by (auto simp: valid_ttl_def ns_Second_def)
  have q: "executeReportQuery (api_reportService pg srv D) ctx slug p w = (w, Inr rows)"
    using execute_undisturbed [OF assms(1)] assms(7) by (metis prod.collapse)
  obtain r' where r': "storeCachedResult (api_runtime sha) (api_reportService pg srv D) ctx slug p ?res ?d w =
      (w\<lparr>w_rd := r'\<rparr>, Inr ())"
    "view (w_now w) r' = (view (w_now w) (w_rd w))(report_key sha slug n p \<mapsto> (marshal_result ?res, expiry (w_now w) ?d))"
    using storeCachedResult_undisturbed [OF assms(1,2) ttl(1), of sha pg D p ?res] by blast
  have "cached_or_miss (api_runtime sha) (api_reportService pg srv D) ctx slug p ?d w = (w, None)"
    using getCachedResult_undisturbed [OF assms(1,2), of sha pg D p] assms(6) ttl(2)
    by (auto simp: cached_or_miss_def no_hit_def split: option.split sum.split)
  with assms(3,5) q ttl(2) r' show ?thesis
    by (intro exI [of _ r']) (simp add: ReportService_RunReport_def pg_reports_def Let_def)
qed

text \<open>The two ways to a result.\<close>

lemma RunReport_Inr:
  assumes "undisturbed ctx w" and "generation view w slug n"
    and "Store_GetReportDefinition pg ctx slug w = (w, Inr rep)" and "0 < rd_CacheTTLSeconds rep"
    and "ReportService_RunReport (api_runtime sha) (api_reportService pg srv D) ctx slug p w = (w1, Inr res)"
  shows "validateRunParams (api_reportService pg srv D :: (pgdb, 'r) world ReportService) p = None"
    "no_hit view sha slug n p w \<and>
       (\<exists>rows. snd (executeReportQuery (api_reportService pg srv D) ctx slug p w) = Inr rows \<and>
          res = fresh_result slug p rows (w_now w) (w_now w)) \<or>
     \<not> no_hit view sha slug n p w \<and> rr_CacheHit res"
proof -
  let ?s = "api_reportService pg srv D :: (pgdb, 'r) world ReportService"
  note R = assms(5) [unfolded ReportService_RunReport_def, simplified, unfolded pg_reports_def, simplified, unfolded assms(3), simplified]
  show v: "validateRunParams ?s p = None" using R by (cases "validateRunParams ?s p") auto
  show "no_hit view sha slug n p w \<and>
       (\<exists>rows. snd (executeReportQuery ?s ctx slug p w) = Inr rows \<and> res = fresh_result slug p rows (w_now w) (w_now w)) \<or>
     \<not> no_hit view sha slug n p w \<and> rr_CacheHit res"
  proof (cases "no_hit view sha slug n p w")
    case False
    then obtain payload x r0 where "view (w_now w) (w_rd w) (report_key sha slug n p) = Some (payload, x)"
        "unmarshal_result payload = Inr r0" by (auto simp: no_hit_def)
    from RunReport_cached [OF assms(1-4) v this] assms(5) False show ?thesis by auto
  next
    case True
    obtain y where q: "executeReportQuery ?s ctx slug p w = (w, y)"
      using execute_undisturbed [OF assms(1)] by (metis prod.collapse)
    show ?thesis
    proof (cases y)
      case (Inr rows)
      with q have "snd (executeReportQuery ?s ctx slug p w) = Inr rows" by simp
      from RunReport_uncached [OF assms(1-4) v True this] assms(5) True this show ?thesis by auto
    next
      case (Inl e)
      have "cached_or_miss (api_runtime sha) ?s ctx slug p (rd_CacheTTLSeconds rep * ns_Second) w = (w, None)"
        using getCachedResult_undisturbed [OF assms(1,2), of sha pg D p] True
        by (auto simp: cached_or_miss_def no_hit_def split: option.split sum.split)
      with R v q Inl show ?thesis by (simp add: Let_def)
    qed
  qed
qed

text \<open>What lies under the key of the current generation is served.\<close>

lemma stored_served:
  assumes "undisturbed ctx v" and "generation view v slug n"
    and "Store_GetReportDefinition pg ctx slug v = (v, Inr rep)" and "0 < rd_CacheTTLSeconds rep"
    and "validateRunParams (api_reportService pg srv D :: (pgdb, 'r) world ReportService) p = None"
    and "view t (w_rd v) (report_key sha slug n p) = Some (marshal_result res, Some x)" and "t \<le> w_now v" and "w_now v < x"
  shows "ReportService_RunReport (api_runtime sha) (api_reportService pg srv D) ctx slug p v =
    (v, Inr (res\<lparr>rr_Rows := decoded_rows (rr_Rows res), rr_CacheHit := True, rr_SourceSystem := ''redis''\<rparr>))"
proof -
  have "view (w_now v) (w_rd v) (report_key sha slug n p) = Some (marshal_result res, Some x)"
    using view_later [OF assms(7)] assms(6,8) by (simp add: alive_def)
  from RunReport_cached [OF assms(1-5) this unmarshal_marshal] show ?thesis by simp
qed

lemma generation_later:
  assumes "view t (w_rd v) (versionKey slug) = Some (Text (int_dec n), None)" and "t \<le> w_now v"
    and "min_int64 \<le> n" and "n < max_int64"
  shows "generation view v slug n"
  using assms view_later [OF assms(2)] by (simp add: generation_def alive_def)

end


subsection \<open>Keys\<close>

text \<open>Two runs share a cache entry exactly when they are of the same report, the same generation
  and the same query (window, days, breakdown, filters, limit and offset), provided the digest
  has no colon and does not collide on the two queries: the generation in the key keeps old
  results apart, and a slug cannot imitate another report's key.\<close>

theorem cache_keys_separate:
  assumes "\<And>t. CHR '':'' \<notin> set (sha t)" and "sha (params_blob p) = sha (params_blob q) \<Longrightarrow> params_blob p = params_blob q"
  shows "report_key sha slug n p = report_key sha slug' m q \<longleftrightarrow> slug = slug' \<and> n = m \<and> same_query p q"
proof -
  let ?l = "\<lambda>s i. s @ CHR '':'' # CHR ''v'' # int_dec i"
  have "report_key sha slug n p = report_key sha slug' m q \<longleftrightarrow>
      ?l slug n @ CHR '':'' # sha (params_blob p) = ?l slug' m @ CHR '':'' # sha (params_blob q)"
    by (simp add: report_key_def cache_key_text_def)
  also have "\<dots> \<longleftrightarrow> ?l slug n = ?l slug' m \<and> sha (params_blob p) = sha (params_blob q)"
    by (subst append_sep_eq_suffix) (simp_all add: assms(1))
  also have "?l slug n = ?l slug' m \<longleftrightarrow> slug = slug' \<and> n = m"
    by (subst append_sep_eq_suffix) (simp_all add: colon_not_in_int_dec)
  also have "sha (params_blob p) = sha (params_blob q) \<longleftrightarrow> same_query p q"
    using assms(2) params_blob_inject by metis
  finally show ?thesis by simp
qed

definition sample_params_at :: "int \<Rightarrow> ReportRunParams" where
  "sample_params_at lim =
     \<lparr>rp_Window = ''day'', rp_DateFrom = midnight 10, rp_DateTo = midnight 12, rp_Breakdown = '''',
      rp_Limit = lim, rp_Offset = 0, rp_Source = '''', rp_Status = ''''\<rparr>"

text \<open>A digest of 64 digits for the instances.\<close>

definition sample_sha :: "string \<Rightarrow> string" where
  "sample_sha t = take 64 (rev (filter (\<lambda>c. c \<noteq> CHR '':'') t) @ replicate 64 (CHR ''0''))"

theorem cache_keys_separate_witness:
  "report_key sample_sha ''a'' 1 (sample_params_at 20) \<noteq> report_key sample_sha ''a'' 2 (sample_params_at 20)"
proof -
  have "CHR '':'' \<notin> set (sample_sha t)" for t
    unfolding sample_sha_def by (auto dest!: in_set_takeD)
  from cache_keys_separate [OF this refl] show ?thesis by simp
qed

subsection \<open>A result is served again\<close>

text \<open>C11: A result that the service read from PostgreSQL and stored is served again, marked as a cache
  hit and with the same rows as JSON has them, to a later run of the same query on the same
  contents of Redis, both runs on an undisturbed network with a cached report and a counter
  in Redis, the second before the entry expires; the database may have changed in between.\<close>

theorem cached_result_served_again:
  assumes "redis_protocol srv view" and "undisturbed ctx w" and "generation view w slug n"
    and "Store_GetReportDefinition pg ctx slug w = (w, Inr rep)" and "0 < rd_CacheTTLSeconds rep"
    and "ReportService_RunReport (api_runtime sha) (api_reportService pg srv D) ctx slug p w = (w1, Inr res)"
    and "\<not> rr_CacheHit res" and "64 \<le> length (sha (params_blob p))"
    and "undisturbed ctx' v" and "w_rd v = w_rd w1" and "w_now w \<le> w_now v"
    and "w_now v < w_now w + rd_CacheTTLSeconds rep * ns_Second"
    and "Store_GetReportDefinition pg ctx' slug v = (v, Inr rep')" and "0 < rd_CacheTTLSeconds rep'"
  shows "ReportService_RunReport (api_runtime sha) (api_reportService pg srv D) ctx' slug p v =
    (v, Inr (res\<lparr>rr_Rows := decoded_rows (rr_Rows res), rr_CacheHit := True, rr_SourceSystem := ''redis''\<rparr>))"
proof -
  note run = redis_protocol.RunReport_Inr [OF assms(1-6)]
  from run(2) assms(7) obtain rows where rows: "no_hit view sha slug n p w"
      "snd (executeReportQuery (api_reportService pg srv D) ctx slug p w) = Inr rows"
      "res = fresh_result slug p rows (w_now w) (w_now w)" by auto
  from redis_protocol.RunReport_uncached [OF assms(1-5) run(1) rows(1,2)] assms(6) rows(3) obtain r' where
      r': "w1 = w\<lparr>w_rd := r'\<rparr>" "view (w_now w) r' = (view (w_now w) (w_rd w))(report_key sha slug n p \<mapsto>
         (marshal_result res, expiry (w_now w) (rd_CacheTTLSeconds rep * ns_Second)))" by auto
  have gen: "generation view v slug n"
    using assms(3,8,10,11) cache_key_not_version [OF assms(8), of slug n] r'
    by (intro redis_protocol.generation_later [OF assms(1), of "w_now w"]) (simp_all add: generation_def report_key_def)
  have "view (w_now w) (w_rd v) (report_key sha slug n p) =
      Some (marshal_result res, Some (w_now w + rd_CacheTTLSeconds rep * ns_Second))"
    using assms(5,10) r' by (simp add: expiry_def ns_Second_def)
  from redis_protocol.stored_served [OF assms(1,9) gen assms(13,14) run(1) this assms(11,12)] show ?thesis .
qed


text \<open>The sample world with the counter of the volume report at 1.\<close>

definition cache_world :: "(pgdb, keyspace) world" where
  "cache_world = sample_world\<lparr>w_rd := Map.empty(versionKey ''volume-by-period'' \<mapsto> (Text (int_dec 1), None))\<rparr>"

lemma cache_world_simps [simp]: "undisturbed None cache_world" "w_now cache_world = midnight 12" "w_db cache_world = sample_db"
  by (simp_all add: cache_world_def)

lemma cache_world_generation: "generation ks_view cache_world ''volume-by-period'' 1"
  by (simp add: generation_def cache_world_def ks_view_def alive_def min_int64_def max_int64_def)

lemma sample_volume_definition:
  assumes "undisturbed None w" and "db_definitions (w_db w) = db_definitions sample_db" and "db_windows (w_db w) = db_windows sample_db"
  shows "\<exists>rep. Store_GetReportDefinition pg None ''volume-by-period'' w = (w, Inr rep) \<and> rd_CacheTTLSeconds rep = 120"
  using assms
  by (simp add: Store_GetReportDefinition_def db_call_undisturbed sample_db_def sample_definition_def
      scanReportDefinition_def)

lemma sample_sha_length: "64 \<le> length (sample_sha t)"
  by (simp add: sample_sha_def)

lemma sample_volume_rows:
  assumes "undisturbed None w" and "w_db w = sample_db"
  shows "\<exists>rows. snd (executeReportQuery (api_reportService pg srv D) None ''volume-by-period'' (sample_params_at 50) w) = Inr rows"
proof -
  let ?p = "sample_params_at 50"
  have "\<not> EqualFold '''' ''source''" by code_simp
  moreover have "selected ''volume-by-period'' ''source'' ?p v sample_db = []" for v
    by (simp add: selected_def report_snapshot_def sample_db_def sample_snapshot_def)
  moreover have "grouped_page bucket_day cols le ?p [] = Inr []" for cols le
    by (simp add: grouped_page_Inr_iff sample_params_at_def group_sums_def page_def)
  ultimately show ?thesis
    using assms by (simp add: executeReportQuery_def pg_reports_def Store_RunVolumeReport_def run_query_undisturbed
        sample_params_at_def)
qed

lemma sample_volume_valid: "validateRunParams (api_reportService pg srv 366) (sample_params_at 50) = None"
proof -
  have "midnight 10 \<le> midnight 12" by (simp add: midnight_def ns_Day_eq)
  then show ?thesis
    by (simp add: validateRunParams_None_iff sample_params_at_def window_defs wiring_simps range_days_midnight)
qed
theorem cached_result_served_again_witness:
  "\<exists>w1 res. ReportService_RunReport (api_runtime sample_sha) (api_reportService sample_pg keyspace_server 366) None
       ''volume-by-period'' (sample_params_at 50) cache_world = (w1, Inr res) \<and>
     (let v = w1\<lparr>w_db := sample_db\<lparr>db_snapshots := []\<rparr>\<rparr> in
      ReportService_RunReport (api_runtime sample_sha) (api_reportService sample_pg keyspace_server 366) None
        ''volume-by-period'' (sample_params_at 50) v =
      (v, Inr (res\<lparr>rr_Rows := decoded_rows (rr_Rows res), rr_CacheHit := True, rr_SourceSystem := ''redis''\<rparr>)))"
proof -
  let ?s = "api_reportService sample_pg keyspace_server 366 :: (pgdb, keyspace) world ReportService"
  let ?slug = "''volume-by-period''" and ?p = "sample_params_at 50"
  obtain rep where rep: "Store_GetReportDefinition sample_pg None ?slug cache_world = (cache_world, Inr rep)"
      "rd_CacheTTLSeconds rep = 120"
    using sample_volume_definition [of cache_world sample_pg] by auto
  obtain rows where rows: "snd (executeReportQuery ?s None ?slug ?p cache_world) = Inr rows"
    using sample_volume_rows [of cache_world sample_pg keyspace_server 366] by auto
  have none: "no_hit ks_view sample_sha ?slug 1 ?p cache_world"
    using cache_key_not_version [OF sample_sha_length]
    by (auto simp: no_hit_def ks_view_def alive_def cache_world_def report_key_def split: option.splits)
  have ttl: "0 < rd_CacheTTLSeconds rep" using rep(2) by simp
  obtain r' where run: "ReportService_RunReport (api_runtime sample_sha) ?s None ?slug ?p cache_world =
      (cache_world\<lparr>w_rd := r'\<rparr>, Inr (fresh_result ?slug ?p rows (midnight 12) (midnight 12)))"
    using ks.RunReport_uncached [OF _ cache_world_generation rep(1) ttl sample_volume_valid none rows] by auto
  let ?v = "cache_world\<lparr>w_rd := r', w_db := sample_db\<lparr>db_snapshots := []\<rparr>\<rparr>"
  obtain rep' where rep': "Store_GetReportDefinition sample_pg None ?slug ?v = (?v, Inr rep')" "rd_CacheTTLSeconds rep' = 120"
    using sample_volume_definition [of ?v sample_pg] by auto
  have "\<not> rr_CacheHit (fresh_result ?slug ?p rows (midnight 12) (midnight 12))" by (simp add: fresh_result_def)
  from cached_result_served_again [OF ks.redis_protocol_axioms _ cache_world_generation rep(1) ttl run this
      sample_sha_length _ _ _ _ rep'(1)] rep(2) rep'(2) run
  show ?thesis by (simp add: Let_def ns_Second_def)
qed


subsection \<open>After a recompute\<close>

lemma db_call_fst: "undisturbed ctx w \<Longrightarrow> \<exists>d. fst (db_call ctx g w) = w\<lparr>w_db := d\<rparr>"
  by (auto simp: db_call_undisturbed split: prod.split)

lemma not_lock_keys: "\<not> is_lock_key (versionKey slug)" "\<not> is_lock_key (report_key sha slug n p)"
  unfolding report_key_def using lock_key_not_report_key by blast+

context redis_protocol begin

text \<open>What a completed job does to Redis: the counter goes up by one and the lock may go away.\<close>

lemma processJob_redis:
  assumes u: "undisturbed ctx w" and id: "pgs_uuid_text pg (job_runID job) = Some (job_runID job)"
    and lk: "is_lock_key (job_lockKey job)" and gen: "generation view w (rq_ReportSlug (job_request job)) n"
    and tx: "recompute_tx pg (job_request job) (job_runID job) (w_now w) (w_db w) = Inr (d', summary)"
    and w'_def: "w' = processJob (api_runtime sha) (api_recomputeService pg srv D ttl k) ctx job w"
  shows "undisturbed ctx w'" "w_now w' = w_now w"
    "\<not> is_lock_key key \<Longrightarrow> view (w_now w) (w_rd w') key =
       ((view (w_now w) (w_rd w))(versionKey (rq_ReportSlug (job_request job)) \<mapsto> (Text (int_dec (n + 1)), None))) key"
proof -
  let ?ctx = "WithTimeout ctx (w_now w) (2 * ns_Minute)" and ?i = "job_runID job" and ?d = "w_db w"
  let ?slug = "rq_ReportSlug (job_request job)"
  note u' = undisturbed_worker [OF u]
  obtain R1 where m: "Store_MarkRunRunning pg ?ctx ?i w = (w\<lparr>w_db := ?d\<lparr>db_runs := R1\<rparr>\<rparr>, Inr ())"
      and ids: "map rn_id R1 = map rn_id (db_runs ?d)"
    using marks_undisturbed(1) [OF u' id] by (auto simp: marked_db_def)
  let ?w1 = "w\<lparr>w_db := ?d\<lparr>db_runs := R1\<rparr>\<rparr>" and ?w2 = "w\<lparr>w_db := d'\<lparr>db_runs := R1\<rparr>\<rparr>"
  have rec: "Store_RecomputeReport pg ?ctx (job_request job) ?i ?w1 = (?w2, Inr summary)"
    using Store_RecomputeReport_undisturbed [of ?ctx ?w1 pg "job_request job" ?i] u'
    by (simp add: recompute_tx_runs [OF ids] tx)
  obtain d3 where f: "fst (Store_MarkRunCompleted pg ?ctx ?i summary ?w2) = w\<lparr>w_db := d3\<rparr>"
    using db_call_fst [of ?ctx ?w2] u' by (auto simp: Store_MarkRunCompleted_def)
  have g: "view (w_now w) (w_rd w) (versionKey ?slug) = Some (Text (int_dec n), None)" "min_int64 \<le> n" "n < max_int64"
    using gen by (simp_all add: generation_def)
  obtain r3 where b: "fst (RedisStore_BumpVersion srv ?ctx ?slug (w\<lparr>w_db := d3\<rparr>)) = w\<lparr>w_db := d3, w_rd := r3\<rparr>"
      and v3: "view (w_now w) r3 = (view (w_now w) (w_rd w))(versionKey ?slug \<mapsto> (Text (int_dec (n + 1)), None))"
    using incr_law [OF g] u' by (auto simp: RedisStore_BumpVersion_def rd_call_undisturbed)
  obtain d4 where e: "fst (Store_CreateEntry ?ctx (completedEntry job summary) (w\<lparr>w_db := d3, w_rd := r3\<rparr>)) =
      w\<lparr>w_db := d3, w_rd := r3, w_db := d4\<rparr>"
    using CreateEntry_undisturbed [of ?ctx "w\<lparr>w_db := d3, w_rd := r3\<rparr>"] u' by (auto simp only: undisturbed_update)
  let ?w4 = "w\<lparr>w_rd := r3, w_db := d4\<rparr>"
  obtain r5 where r: "fst (RedisStore_Release srv ?ctx (job_lockKey job) (job_lockToken job) ?w4) = ?w4\<lparr>w_rd := r5\<rparr>"
      and v5: "view (w_now w) r5 = view (w_now w) r3 \<or> view (w_now w) r5 = (view (w_now w) r3)(job_lockKey job := None)"
    using Release_undisturbed [of ?ctx ?w4 "job_lockKey job" "job_lockToken job"] u' by (auto split: if_splits)
  have w': "w' = ?w4\<lparr>w_rd := r5\<rparr>"
    using m rec f b e r unfolding w'_def by (simp add: processJob_def bumpCache_def Let_def wiring_simps)
  show "undisturbed ctx w'" "w_now w' = w_now w" using u by (simp_all add: w')
  show "\<not> is_lock_key key \<Longrightarrow> view (w_now w) (w_rd w') key =
      ((view (w_now w) (w_rd w))(versionKey ?slug \<mapsto> (Text (int_dec (n + 1)), None))) key"
    using v3 v5 lk by (auto simp: w')
qed

lemma processJob_generation:
  assumes "undisturbed ctx w" and "pgs_uuid_text pg (job_runID job) = Some (job_runID job)"
    and "is_lock_key (job_lockKey job)" and "generation view w (rq_ReportSlug (job_request job)) n" and "n + 1 < max_int64"
    and "recompute_tx pg (job_request job) (job_runID job) (w_now w) (w_db w) = Inr (d', summary)"
  shows "generation view (processJob (api_runtime sha) (api_recomputeService pg srv D ttl k) ctx job w)
    (rq_ReportSlug (job_request job)) (n + 1)"
  using processJob_redis(2,3) [OF assms(1-4,6) refl] not_lock_keys(1) assms(4,5)
  by (auto simp: generation_def)

end

text \<open>C10: On an undisturbed network, with the report's counter in Redis at some generation and no
  entry for the query under the next one, a worker's turn whose rebuild goes through takes the
  cached results of its report out of service: the run of the query that follows is answered
  from PostgreSQL, with the rows that its query gives on the database now.\<close>

theorem recompute_refreshes_reports:
  assumes "redis_protocol srv view" and "undisturbed root w"
    and "pgs_uuid_text pg (job_runID job) = Some (job_runID job)" and "is_lock_key (job_lockKey job)"
    and "rq_ReportSlug (job_request job) = slug" and "generation view w slug n" and "n + 1 < max_int64"
    and "view (w_now w) (w_rd w) (report_key sha slug (n + 1) p) = None" and "64 \<le> length (sha (params_blob p))"
    and "recompute_tx pg (job_request job) (job_runID job) (w_now w) (w_db w) = Inr (d', summary)"
    and "w1 = processJob (api_runtime sha) (api_recomputeService pg srv D ttl k) root job w"
    and "undisturbed ctx w1" and "Store_GetReportDefinition pg ctx slug w1 = (w1, Inr rep)" and "0 < rd_CacheTTLSeconds rep"
    and "ReportService_RunReport (api_runtime sha) (api_reportService pg srv D) ctx slug p w1 = (w2, Inr res)"
  shows "rr_CacheHit res = False \<and> rr_SourceSystem res = ''postgres'' \<and>
    executeReportQuery (api_reportService pg srv D) ctx slug p w1 = (w1, Inr (rr_Rows res))"
proof -
  note gen' = assms(6) [folded assms(5)]
  note gen = redis_protocol.processJob_generation [OF assms(1-4) gen' assms(7,10), of sha D ttl k,
      folded assms(11), unfolded assms(5)]
  have "view (w_now w1) (w_rd w1) (report_key sha slug (n + 1) p) = None"
    using redis_protocol.processJob_redis(2,3) [OF assms(1-4) gen' assms(10) refl] not_lock_keys(2)
      cache_key_not_version [OF assms(9)] assms(5,8)
    by (simp add: assms(11) report_key_def)
  then have "no_hit view sha slug (n + 1) p w1" by (simp add: no_hit_def)
  with redis_protocol.RunReport_Inr(2) [OF assms(1,12) gen assms(13-15)] obtain rows where
      "snd (executeReportQuery (api_reportService pg srv D) ctx slug p w1) = Inr rows"
      "res = fresh_result slug p rows (w_now w1) (w_now w1)" by auto
  with execute_undisturbed [OF assms(12), of pg srv D slug p] show ?thesis
    by (simp add: fresh_result_def prod_eq_iff)
qed

text \<open>
  In the instance a run before the recompute of day 10 finds no snapshots and caches its empty
  answer; after the recompute the same run answers the three events of the day.
\<close>

definition cache_job :: recomputeJob where
  "cache_job =
     (let rq = (sample_request ''day'')\<lparr>rq_ReportSlug := ''volume-by-period''\<rparr> in
      \<lparr>job_runID = sample_run_id, job_request = rq, job_lockKey = lockKey rq, job_lockToken = ''tok''\<rparr>)"

lemma cache_job_id: "job_runID cache_job = sample_run_id"
  by (simp add: cache_job_def Let_def)

definition sample_run_report ::
    "(pgdb, keyspace) world \<Rightarrow> (pgdb, keyspace) world \<times> (go_error + ReportResult)" where
  "sample_run_report =
     ReportService_RunReport (api_runtime sample_sha) (api_reportService sample_pg keyspace_server 366) None
       ''volume-by-period'' (sample_params_at 50)"

definition warm_world :: "(pgdb, keyspace) world" where
  "warm_world = fst (sample_run_report cache_world)"

definition refreshed_world :: "(pgdb, keyspace) world" where
  "refreshed_world = processJob (api_runtime sample_sha) (sample_service 1) None cache_job warm_world"

lemma warm_answer: "map_sum (\<lambda>_. ()) rr_Rows (snd (sample_run_report cache_world)) = Inr []"
  by code_simp

lemma refreshed_answer:
  "map_sum (\<lambda>_. ()) rr_Rows (snd (sample_run_report refreshed_world)) =
     Inr [[(''bucket_date'', GStr (FormatDate (midnight 10))), (''event_count'', GInt 3)]]"
  by code_simp

lemma warm_facts:
  "undisturbed None warm_world" "w_now warm_world = midnight 12"
  "is_ok (recompute_tx sample_pg (job_request cache_job) sample_run_id (w_now warm_world) (w_db warm_world))"
  "ks_view (midnight 12) (w_rd warm_world) (versionKey ''volume-by-period'') = Some (Text (int_dec 1), None)"
  "ks_view (midnight 12) (w_rd warm_world) (report_key sample_sha ''volume-by-period'' 2 (sample_params_at 50)) = None"
  by code_simp+

lemma refreshed_definition:
  "map_sum (\<lambda>_. ()) rd_CacheTTLSeconds
     (snd (Store_GetReportDefinition sample_pg None ''volume-by-period'' refreshed_world)) = Inr 120"
  by code_simp

lemma cache_job_simps:
  "pgs_uuid_text sample_pg (job_runID cache_job) = Some (job_runID cache_job)" "is_lock_key (job_lockKey cache_job)"
  "rq_ReportSlug (job_request cache_job) = ''volume-by-period''"
  by (simp_all add: cache_job_def sample_pg_def sample_run_id_def Let_def)

lemma warm_generation: "generation ks_view warm_world ''volume-by-period'' 1" "(1 :: int) + 1 < max_int64"
  using warm_facts(2,4) by (simp_all add: generation_def min_int64_def max_int64_def)

lemma warm_tx:
  "\<exists>d' summary. recompute_tx sample_pg (job_request cache_job) (job_runID cache_job) (w_now warm_world)
     (w_db warm_world) = Inr (d', summary)"
  using warm_facts(3) cache_job_id by (auto simp: is_ok_iff)

lemma refreshed_undisturbed: "undisturbed None refreshed_world"
  using warm_tx ks.processJob_redis(1) [OF warm_facts(1) cache_job_simps(1,2) warm_generation(1) [folded cache_job_simps(3)] _ refl]
  by (auto simp: refreshed_world_def)

lemma refreshed_rep:
  "\<exists>rep. Store_GetReportDefinition sample_pg None ''volume-by-period'' refreshed_world = (refreshed_world, Inr rep) \<and>
     rd_CacheTTLSeconds rep = 120"
  using refreshed_definition GetReportDefinition_undisturbed [OF refreshed_undisturbed, of sample_pg "''volume-by-period''"]
  by (cases "Store_GetReportDefinition sample_pg None ''volume-by-period'' refreshed_world";
      cases "snd (Store_GetReportDefinition sample_pg None ''volume-by-period'' refreshed_world)") auto

theorem recompute_refreshes_reports_witness:
  "\<exists>w1 w2 res res'. sample_run_report cache_world = (w1, Inr res) \<and> rr_Rows res = [] \<and>
     sample_run_report (processJob (api_runtime sample_sha) (sample_service 1) None cache_job w1) = (w2, Inr res') \<and>
     rr_Rows res' = [[(''bucket_date'', GStr (FormatDate (midnight 10))), (''event_count'', GInt 3)]] \<and>
     rr_SourceSystem res' = ''postgres''"
proof -
  obtain res where first: "sample_run_report cache_world = (warm_world, Inr res)" "rr_Rows res = []"
    using warm_answer unfolding warm_world_def
    by (cases "sample_run_report cache_world"; cases "snd (sample_run_report cache_world)") auto
  obtain w2 res' where second: "sample_run_report refreshed_world = (w2, Inr res')"
      "rr_Rows res' = [[(''bucket_date'', GStr (FormatDate (midnight 10))), (''event_count'', GInt 3)]]"
    using refreshed_answer
    by (cases "sample_run_report refreshed_world"; cases "snd (sample_run_report refreshed_world)") auto
  obtain d' summary where tx: "recompute_tx sample_pg (job_request cache_job) (job_runID cache_job) (w_now warm_world)
      (w_db warm_world) = Inr (d', summary)" using warm_tx by blast
  obtain rep where rep: "Store_GetReportDefinition sample_pg None ''volume-by-period'' refreshed_world =
      (refreshed_world, Inr rep)" "0 < rd_CacheTTLSeconds rep" using refreshed_rep by auto
  have none: "ks_view (w_now warm_world) (w_rd warm_world)
      (report_key sample_sha ''volume-by-period'' (1 + 1) (sample_params_at 50)) = None"
    using warm_facts(2,5) by simp
  from recompute_refreshes_reports [OF ks.redis_protocol_axioms warm_facts(1) cache_job_simps warm_generation none
      sample_sha_length tx refreshed_world_def refreshed_undisturbed rep second(1) [unfolded sample_run_report_def]]
  show ?thesis using first second unfolding refreshed_world_def by auto
qed

subsection \<open>What the generation does not prevent\<close>

lemma definition_elsewhere:
  assumes "undisturbed ctx w" and "Store_GetReportDefinition pg ctx slug w = (w, Inr rep)"
  shows "Store_GetReportDefinition pg ctx slug (w\<lparr>w_rd := r\<rparr>) = (w\<lparr>w_rd := r\<rparr>, Inr rep)"
  using assms by (auto simp: Store_GetReportDefinition_def db_call_undisturbed split: sum.splits list.splits if_splits)

text \<open>C24: The generation of a stored result is read when the result is stored and not before its
  query: a request whose query ran before a recompute and whose store comes after it puts the
  old rows under the new generation, and the next run of the report is answered with them,
  after the recompute has completed.\<close>

theorem late_store_revives_old_rows:
  assumes "redis_protocol srv view" and "undisturbed root w"
    and "pgs_uuid_text pg (job_runID job) = Some (job_runID job)" and "is_lock_key (job_lockKey job)"
    and "rq_ReportSlug (job_request job) = slug" and "generation view w slug n" and "n + 1 < max_int64"
    and "64 \<le> length (sha (params_blob p))"
    and "validateRunParams (api_reportService pg srv D :: (pgdb, 'r) world ReportService) p = None"
    and "executeReportQuery (api_reportService pg srv D) ctx slug p w = (w, Inr rows)"
    and "recompute_tx pg (job_request job) (job_runID job) (w_now w) (w_db w) = Inr (d', summary)"
    and "w1 = processJob (api_runtime sha) (api_recomputeService pg srv D ttl k) root job w"
    and "undisturbed ctx w1" and "Store_GetReportDefinition pg ctx slug w1 = (w1, Inr rep)" and "0 < rd_CacheTTLSeconds rep"
    and "storeCachedResult (api_runtime sha) (api_reportService pg srv D) ctx slug p
      (fresh_result slug p rows t0 t1) (rd_CacheTTLSeconds rep * ns_Second) w1 = (w2, u)"
  shows "\<exists>res. ReportService_RunReport (api_runtime sha) (api_reportService pg srv D) ctx slug p w2 = (w2, Inr res) \<and>
    rr_CacheHit res \<and> rr_Rows res = decoded_rows rows"
proof -
  let ?res = "fresh_result slug p rows t0 t1" and ?d = "rd_CacheTTLSeconds rep * ns_Second"
  have ttl: "valid_ttl ?d" "0 < ?d" using assms(15) by (auto simp: valid_ttl_def ns_Second_def)
  note gen = redis_protocol.processJob_generation [OF assms(1-4) assms(6) [folded assms(5)] assms(7,11), of sha D ttl k,
      folded assms(12), unfolded assms(5)]
  from redis_protocol.storeCachedResult_undisturbed [OF assms(1,13) gen ttl(1), of sha pg D p ?res] assms(16)
  obtain r' where w2: "w2 = w1\<lparr>w_rd := r'\<rparr>" "view (w_now w1) r' =
      (view (w_now w1) (w_rd w1))(report_key sha slug (n + 1) p \<mapsto> (marshal_result ?res, expiry (w_now w1) ?d))" by auto
  have gen2: "generation view w2 slug (n + 1)"
    using gen cache_key_not_version [OF assms(8), of slug "n + 1"] w2 by (simp add: generation_def report_key_def)
  have "view (w_now w1) (w_rd w2) (report_key sha slug (n + 1) p) = Some (marshal_result ?res, Some (w_now w1 + ?d))"
    using ttl(2) by (auto simp: w2 expiry_def)
  moreover have "undisturbed ctx w2" "w_now w1 \<le> w_now w2" "w_now w2 < w_now w1 + ?d"
    using assms(13) ttl(2) by (simp_all add: w2)
  moreover have "Store_GetReportDefinition pg ctx slug w2 = (w2, Inr rep)"
    using definition_elsewhere [OF assms(13,14)] by (simp add: w2)
  ultimately show ?thesis
    using redis_protocol.stored_served [OF assms(1) _ gen2 _ assms(15,9)] by (simp add: fresh_result_def)
qed

text \<open>In the instance the empty answer of before the recompute is served after it.\<close>

lemma warm_query:
  "executeReportQuery (api_reportService sample_pg keyspace_server 366) None ''volume-by-period'' (sample_params_at 50) warm_world =
     (warm_world, Inr [])"
proof -
  have "map_sum (\<lambda>_. ()) id (snd (executeReportQuery (api_reportService sample_pg keyspace_server 366) None
      ''volume-by-period'' (sample_params_at 50) warm_world)) = Inr []" by code_simp
  then show ?thesis
    using execute_undisturbed [OF warm_facts(1), of sample_pg keyspace_server 366 "''volume-by-period''" "sample_params_at 50"]
    by (cases "executeReportQuery (api_reportService sample_pg keyspace_server 366) None ''volume-by-period''
        (sample_params_at 50) warm_world"; cases "snd (executeReportQuery (api_reportService sample_pg keyspace_server 366)
        None ''volume-by-period'' (sample_params_at 50) warm_world)") auto
qed

theorem late_store_revives_old_rows_witness:
  "\<exists>w2 res. storeCachedResult (api_runtime sample_sha) (api_reportService sample_pg keyspace_server 366) None
       ''volume-by-period'' (sample_params_at 50) (fresh_result ''volume-by-period'' (sample_params_at 50) [] 0 0)
       (120 * ns_Second) refreshed_world = (w2, Inr ()) \<and>
     sample_run_report w2 = (w2, Inr res) \<and> rr_Rows res = []"
proof -
  obtain d' summary where tx: "recompute_tx sample_pg (job_request cache_job) (job_runID cache_job) (w_now warm_world)
      (w_db warm_world) = Inr (d', summary)" using warm_tx by blast
  obtain rep where rep: "Store_GetReportDefinition sample_pg None ''volume-by-period'' refreshed_world =
      (refreshed_world, Inr rep)" "0 < rd_CacheTTLSeconds rep" "rd_CacheTTLSeconds rep = 120" using refreshed_rep by auto
  have ttl: "valid_ttl (120 * ns_Second)" by (simp add: valid_ttl_def ns_Second_def)
  have gen: "generation ks_view refreshed_world ''volume-by-period'' (1 + 1)"
    using ks.processJob_generation [OF warm_facts(1) cache_job_simps(1,2) warm_generation(1) [folded cache_job_simps(3)]
        warm_generation(2) tx] by (simp add: refreshed_world_def cache_job_simps(3))
  from ks.storeCachedResult_undisturbed [OF refreshed_undisturbed gen ttl] obtain w2 where
      st: "storeCachedResult (api_runtime sample_sha) (api_reportService sample_pg keyspace_server 366) None
        ''volume-by-period'' (sample_params_at 50) (fresh_result ''volume-by-period'' (sample_params_at 50) [] 0 0)
        (120 * ns_Second) refreshed_world = (w2, Inr ())" by blast
  from late_store_revives_old_rows [OF ks.redis_protocol_axioms warm_facts(1) cache_job_simps warm_generation
      sample_sha_length sample_volume_valid warm_query tx refreshed_world_def refreshed_undisturbed rep(1,2)
      st [folded rep(3)]] st
  show ?thesis by (auto simp: sample_run_report_def decoded_rows_def)
qed

end
