(* ===== verification/Lock_Exclusion.thy ===== *)
theory Lock_Exclusion
  imports Pipeline_Facts Service_Facts
begin

section \<open>The lock among the triggers and the workers\<close>

text \<open>
  The lock of a scope passes from the trigger that acquired it to the job in the channel and on
  to the worker, who gives it back. While no lease of a holder runs out, each holder's entry is
  in Redis under its token, and no scope has two holders: an invariant of the interleaved
  service over any server that keeps the protocol of \<open>redis_protocol\<close>.
\<close>

subsection \<open>Who holds a lock\<close>

definition job_lock :: "recomputeJob \<Rightarrow> string \<times> string" where
  "job_lock job = (job_lockKey job, job_lockToken job)"

fun worker_job :: "worker \<Rightarrow> recomputeJob option" where
  "worker_job Idle = None"
| "worker_job Stopped = None"
| "worker_job (Starting job ctx) = Some job"
| "worker_job (Rebuilding job ctx) = Some job"
| "worker_job (MarkingFailed job ctx err) = Some job"
| "worker_job (AuditingFailed job ctx err) = Some job"
| "worker_job (MarkingCompleted job ctx summary) = Some job"
| "worker_job (Bumping job ctx summary) = Some job"
| "worker_job (AuditingCompleted job ctx summary) = Some job"
| "worker_job (Releasing job ctx) = Some job"

definition worker_holds :: "worker \<Rightarrow> (string \<times> string) multiset" where
  "worker_holds p = (case worker_job p of None \<Rightarrow> {#} | Some job \<Rightarrow> {#job_lock job#})"

fun lock_taken :: "stage \<Rightarrow> bool" where
  "lock_taken LookingUp = False"
| "lock_taken Acquiring = False"
| "lock_taken (Answered r) = False"
| "lock_taken _ = True"

definition trigger_holds :: "trigger_call \<times> stage \<Rightarrow> (string \<times> string) multiset" where
  "trigger_holds x = (if lock_taken (snd x) then {#(lockKey (tc_request (fst x)), tc_token (fst x))#} else {#})"

lemma holds_simps [simp]:
  "worker_job p = None \<Longrightarrow> worker_holds p = {#}" "worker_job p = Some job \<Longrightarrow> worker_holds p = {#job_lock job#}"
  "lock_taken p' \<Longrightarrow> trigger_holds (c, p') = {#(lockKey (tc_request c), tc_token c)#}"
  "\<not> lock_taken p' \<Longrightarrow> trigger_holds (c, p') = {#}"
  by (simp_all add: worker_holds_def trigger_holds_def)

definition holders :: "'w system \<Rightarrow> (string \<times> string) multiset" where
  "holders y = mset (map job_lock (sy_queue y)) + sum_list (map worker_holds (sy_workers y)) +
     sum_list (map trigger_holds (sy_triggers y))"

text \<open>No lease of a holder runs out between two states.\<close>

definition leases_last ::
    "(gotime \<Rightarrow> 'r \<Rightarrow> string \<Rightarrow> entry option) \<Rightarrow> (string \<times> string) multiset \<Rightarrow> ('d, 'r) world \<Rightarrow> ('d, 'r) world \<Rightarrow> bool" where
  "leases_last view H w w' \<longleftrightarrow>
     (\<forall>(k, tok) \<in># H. \<forall>x. view (w_now w) (w_rd w) k = Some (Text tok, Some x) \<longrightarrow> w_now w' < x)"

inductive timely ::
    "(gotime \<Rightarrow> 'r \<Rightarrow> string \<Rightarrow> entry option) \<Rightarrow> ('d, 'r) world runtime \<Rightarrow> ('d, 'r) world RecomputeService \<Rightarrow> ctx
     \<Rightarrow> (('d, 'r) world \<Rightarrow> ('d, 'r) world \<Rightarrow> bool) \<Rightarrow> ('d, 'r) world system \<Rightarrow> ('d, 'r) world system \<Rightarrow> bool"
  for view rt s ctx env where
  start: "timely view rt s ctx env y y"
| step: "timely view rt s ctx env y y2"
    if "timely view rt s ctx env y y1" "system_step rt s ctx env y1 y2"
      "leases_last view (holders y1) (sy_world y1) (sy_world y2)"

subsection \<open>The invariant\<close>

context redis_protocol begin

definition leased :: "gotime \<Rightarrow> 'r \<Rightarrow> string \<times> string \<Rightarrow> bool" where
  "leased t r h \<longleftrightarrow> is_lock_key (fst h) \<and> (\<exists>x. view t r (fst h) = Some (Text (snd h), x))"

definition lock_ok :: "gotime \<Rightarrow> 'r \<Rightarrow> (string \<times> string) multiset \<Rightarrow> bool" where
  "lock_ok t r H \<longleftrightarrow> (\<forall>k. count (image_mset fst H) k \<le> 1) \<and> (\<forall>h \<in># H. leased t r h)"

lemma leased_same: "view t r' (fst h) = view t r (fst h) \<Longrightarrow> leased t r' h = leased t r h"
  by (simp add: leased_def)

definition keeps_locks :: "('d, 'r) world \<Rightarrow> ('d, 'r) world \<Rightarrow> bool" where
  "keeps_locks w w' \<longleftrightarrow> (\<forall>k e. is_lock_key k \<longrightarrow> keeps k e w w')"

lemma keeps_locks_time: "keeps_locks w w' \<Longrightarrow> w_now w \<le> w_now w'"
proof -
  assume "keeps_locks w w'"
  moreover have "is_lock_key ''recompute:lock:''" by (simp add: is_lock_key_def)
  ultimately show ?thesis unfolding keeps_locks_def keeps_def by blast
qed

lemma keeps_locks_same: "w_rd w' = w_rd w \<Longrightarrow> w_now w \<le> w_now w' \<Longrightarrow> keeps_locks w w'"
  by (simp add: keeps_locks_def keeps_same)

lemma keeps_locks_calls:
  "keeps_locks w (fst (Store_GetReportDefinition pg ctx slug w))"
  "keeps_locks w (fst (Store_CreateRun pg ctx rq st w))"
  "keeps_locks w (fst (Store_MarkRunRunning pg ctx i w))"
  "keeps_locks w (fst (Store_RecomputeReport pg ctx rq i w))"
  "keeps_locks w (fst (Store_MarkRunFailed pg ctx i msg w))"
  "keeps_locks w (fst (Store_MarkRunCompleted pg ctx i m w))"
  "keeps_locks w (fst (Store_CreateEntry ctx en w))"
  "keeps_locks w (fst (RedisStore_BumpVersion srv ctx slug w))"
  by (simp_all add: keeps_locks_same frame_simps pg_times del: fst_conv)
    (simp add: keeps_locks_def keeps_bump [OF lock_key_not_report_key(1)])

lemma keeps_locks_results:
  "Store_GetReportDefinition pg ctx slug w = (w', r1) \<Longrightarrow> keeps_locks w w'"
  "Store_CreateRun pg ctx rq st w = (w', r2) \<Longrightarrow> keeps_locks w w'"
  "Store_MarkRunRunning pg ctx i w = (w', r3) \<Longrightarrow> keeps_locks w w'"
  "Store_RecomputeReport pg ctx rq i w = (w', r4) \<Longrightarrow> keeps_locks w w'"
  by (metis keeps_locks_calls(1) fst_conv, metis keeps_locks_calls(2) fst_conv, metis keeps_locks_calls(3) fst_conv,
      metis keeps_locks_calls(4) fst_conv)

lemma lock_ok_later:
  assumes "lock_ok (w_now w) (w_rd w) H" and "w_now w \<le> w_now w'" and "leases_last view H w w'"
  shows "lock_ok (w_now w') (w_rd w) H"
proof -
  have "leased (w_now w') (w_rd w) h" if h: "h \<in># H" for h
  proof -
    have l: "leased (w_now w) (w_rd w) h" using assms(1) h by (simp add: lock_ok_def)
    then obtain x where x: "view (w_now w) (w_rd w) (fst h) = Some (Text (snd h), x)" by (auto simp: leased_def)
    have "\<not> expired (w_now w') x"
      using assms(3) h x unfolding leases_last_def by (cases x) (auto simp: not_le)
    with x l view_later [OF assms(2), of "w_rd w" "fst h"] show ?thesis by (simp add: alive_def leased_def)
  qed
  with assms(1) show ?thesis by (simp add: lock_ok_def)
qed

lemma lock_ok_subset:
  assumes "lock_ok t r H" and "H' \<subseteq># H"
  shows "lock_ok t r H'"
proof -
  have "count (image_mset fst H') k \<le> 1" for k
    using assms mset_subset_eq_count [OF image_mset_subseteq_mono [OF assms(2)], of fst k]
    unfolding lock_ok_def by (meson le_trans)
  with assms mset_subset_eqD [OF assms(2)] show ?thesis by (simp add: lock_ok_def)
qed

lemma lock_ok_leased: "lock_ok t r H \<Longrightarrow> \<forall>h \<in># H. leased t r' h \<Longrightarrow> lock_ok t r' H"
  by (simp add: lock_ok_def)

lemma lock_ok_kept:
  assumes "lock_ok (w_now w) (w_rd w) H" and "leases_last view H w w'" and "keeps_locks w w'" and "H' \<subseteq># H"
  shows "lock_ok (w_now w') (w_rd w') H'"
proof -
  have ok: "lock_ok (w_now w') (w_rd w) H'"
    by (rule lock_ok_subset [OF lock_ok_later [OF assms(1) keeps_locks_time [OF assms(3)] assms(2)] assms(4)])
  then show ?thesis
  proof (rule lock_ok_leased)
    show "\<forall>h \<in># H'. leased (w_now w') (w_rd w') h"
      using ok assms(3) unfolding lock_ok_def leased_def keeps_locks_def keeps_def by blast
  qed
qed

text \<open>The owner gives its lock back: the other holders keep theirs.\<close>

lemma lock_ok_release:
  assumes "lock_ok (w_now w) (w_rd w) (H + {#(k, tok)#})" and "leases_last view (H + {#(k, tok)#}) w w'"
    and "RedisStore_Release srv ctx k tok w = (w', u)"
  shows "lock_ok (w_now w') (w_rd w') H"
proof -
  from Release_law [OF assms(3)] have le: "w_now w \<le> w_now w'"
    and rel: "view (w_now w') (w_rd w') = view (w_now w') (w_rd w) \<or>
      view (w_now w') (w_rd w') = (view (w_now w') (w_rd w))(k := None)" by blast+
  have ok: "lock_ok (w_now w') (w_rd w) (H + {#(k, tok)#})" by (rule lock_ok_later [OF assms(1) le assms(2)])
  have other: "fst h \<noteq> k" if h: "h \<in># H" for h
  proof
    assume "fst h = k"
    with h have "k \<in># image_mset fst H" by force
    then have "0 < count (image_mset fst H) k" by (simp only: count_greater_zero_iff)
    moreover have "count (image_mset fst (H + {#(k, tok)#})) k = Suc (count (image_mset fst H) k)" by simp
    moreover have "count (image_mset fst (H + {#(k, tok)#})) k \<le> 1" using ok unfolding lock_ok_def by blast
    ultimately show False by linarith
  qed
  have same: "view (w_now w') (w_rd w') (fst h) = view (w_now w') (w_rd w) (fst h)" if "h \<in># H" for h
    using rel other [OF that] by (elim disjE) simp_all
  have ok': "lock_ok (w_now w') (w_rd w) H" by (rule lock_ok_subset [OF ok]) simp
  have "leased (w_now w') (w_rd w') h" if "h \<in># H" for h
    using ok' that leased_same [OF same [OF that]] unfolding lock_ok_def by blast
  with ok' show ?thesis by (simp add: lock_ok_def)
qed

text \<open>A lock that is granted had no holder.\<close>

lemma lock_ok_acquire:
  assumes "lock_ok (w_now w) (w_rd w) H" and "leases_last view H w w'" and "valid_ttl d" and "is_lock_key k"
    and "RedisStore_TryAcquire srv ctx k tok d w = (w', a)"
  shows "lock_ok (w_now w') (w_rd w') (if a = Inr True then H + {#(k, tok)#} else H)"
proof -
  note acq = TryAcquire_law [OF assms(3,5)]
  then have le: "w_now w \<le> w_now w'" by blast
  have ok: "lock_ok (w_now w') (w_rd w) H" by (rule lock_ok_later [OF assms(1) le assms(2)])
  show ?thesis
  proof (cases "view (w_now w') (w_rd w') = view (w_now w') (w_rd w)")
    case True
    with acq have "a \<noteq> Inr True" by (metis fun_upd_same option.distinct(1))
    moreover have "lock_ok (w_now w') (w_rd w') H"
      using ok True leased_same by (simp add: lock_ok_def leased_def)
    ultimately show ?thesis by simp
  next
    case False
    with acq have free: "view (w_now w') (w_rd w) k = None"
      and upd: "view (w_now w') (w_rd w') = (view (w_now w') (w_rd w))(k \<mapsto> (Text tok, expiry (w_now w') d))" by blast+
    have other: "fst h \<noteq> k" if "h \<in># H" for h
      using ok that free by (auto simp: lock_ok_def leased_def)
    then have none: "count (image_mset fst H) k = 0" by (auto simp: count_eq_zero_iff)
    have "leased (w_now w') (w_rd w') h" if "h \<in># H" for h
      using ok that other [OF that] by (simp add: lock_ok_def leased_def upd)
    with ok have okH: "lock_ok (w_now w') (w_rd w') H" by (simp add: lock_ok_def)
    have "leased (w_now w') (w_rd w') (k, tok)" using assms(4) by (simp add: leased_def upd)
    with okH none have "lock_ok (w_now w') (w_rd w') (H + {#(k, tok)#})" by (simp add: lock_ok_def)
    with okH show ?thesis by simp
  qed
qed

subsection \<open>The steps\<close>

lemma worker_step_locks:
  assumes step: "worker_step (api_recomputeService pg srv D ttl n) p w = (p', w')"
    and ok: "lock_ok (w_now w) (w_rd w) (worker_holds p + H)" and last: "leases_last view (worker_holds p + H) w w'"
  shows "lock_ok (w_now w') (w_rd w') (worker_holds p' + H)"
proof (cases "\<exists>job ctx. p = Releasing job ctx")
  case True
  then obtain job ctx where p: "p = Releasing job ctx" by blast
  obtain w1 u where rel: "RedisStore_Release srv ctx (job_lockKey job) (job_lockToken job) w = (w1, u)" by fastforce
  have h: "worker_holds p + H = H + {#(job_lockKey job, job_lockToken job)#}" by (simp add: p job_lock_def)
  have w': "w' = w1" "p' = Idle" using step by (auto simp: p wiring_simps rel)
  from lock_ok_release [OF ok [unfolded h] _ rel] last show ?thesis unfolding h w' by simp
next
  case False
  have "keeps_locks w w' \<and> worker_holds p' = worker_holds p"
    using step False keeps_locks_calls keeps_locks_same [OF refl order_refl]
    by (cases p) (auto simp: wiring_simps bumpCache_def worker_holds_def split: prod.splits sum.splits
        dest: keeps_locks_results)
  with lock_ok_kept [OF ok last] show ?thesis by simp
qed

lemma trigger_step_locks:
  assumes step: "trigger_step (api_recomputeService pg srv D ttl n) c p (w, q) = (p', w', q')" and ttl: "valid_ttl ttl"
    and ok: "lock_ok (w_now w) (w_rd w) (mset (map job_lock q) + trigger_holds (c, p) + H)"
    and last: "leases_last view (mset (map job_lock q) + trigger_holds (c, p) + H) w w'" and un: "answered p = None"
  shows "lock_ok (w_now w') (w_rd w') (mset (map job_lock q') + trigger_holds (c, p') + H)"
proof -
  let ?S = "api_recomputeService pg srv D ttl n" and ?k = "lockKey (tc_request c)" and ?Q = "mset (map job_lock q)"
  have kept: ?thesis if "keeps_locks w w'" "mset (map job_lock q') + trigger_holds (c, p') = ?Q + trigger_holds (c, p)"
    using lock_ok_kept [OF ok last that(1) subset_mset.order_refl] by (simp only: that(2))
  have release: ?thesis
    if "trigger_holds (c, p) = {#(?k, tc_token c)#}" "p' = Answered r" "q' = q"
      "w' = fst (RedisStore_Release srv (tc_ctx c) ?k (tc_token c) w)" for r
  proof -
    obtain w1 u where rel: "RedisStore_Release srv (tc_ctx c) ?k (tc_token c) w = (w1, u)" by fastforce
    have h: "?Q + trigger_holds (c, p) + H = ?Q + H + {#(?k, tc_token c)#}" by (simp add: that(1))
    have "w' = w1" using that(4) rel by simp
    with lock_ok_release [OF ok [unfolded h] _ rel] last show ?thesis unfolding h by (simp add: that(2,3))
  qed
  show ?thesis
  proof (cases p)
    case LookingUp
    with step show ?thesis
      by (intro kept) (auto simp: wiring_simps split: prod.splits sum.splits dest: keeps_locks_results)
  next
    case Acquiring
    obtain w1 a where acq: "RedisStore_TryAcquire srv (tc_ctx c) ?k (tc_token c) ttl w = (w1, a)" by fastforce
    have w': "w' = w1" "q' = q" "trigger_holds (c, p') = (if a = Inr True then {#(?k, tc_token c)#} else {#})"
      using step Acquiring acq by (auto simp: wiring_simps split: sum.splits bool.splits)
    have h: "?Q + trigger_holds (c, p) + H = ?Q + H" by (simp add: Acquiring)
    from lock_ok_acquire [OF ok [unfolded h] _ ttl is_lock_key_lockKey acq] last show ?thesis
      unfolding h by (simp add: w' ac_simps split: if_splits)
  next
    case Creating
    with step show ?thesis
      by (intro kept) (auto simp: wiring_simps split: prod.splits sum.splits dest: keeps_locks_results)
  next
    case (CreateFailed err)
    with step show ?thesis by (intro release) (auto simp: wiring_simps)
  next
    case (Auditing run)
    with step show ?thesis by (intro kept) (auto simp: wiring_simps keeps_locks_calls)
  next
    case (Sending run)
    with step show ?thesis
      by (intro kept) (auto simp: trySend_def job_of_def job_lock_def keeps_locks_same split: if_splits)
  next
    case (QueueFull run)
    with step show ?thesis by (intro kept) (auto simp: wiring_simps keeps_locks_calls)
  next
    case QueueFullMarked
    with step show ?thesis by (intro release) (auto simp: wiring_simps)
  qed (use un in simp)
qed

lemma system_step_locks:
  assumes step: "system_step rt (api_recomputeService pg srv D ttl n) ctx env y y'" and ttl: "valid_ttl ttl"
    and ok: "lock_ok (w_now (sy_world y)) (w_rd (sy_world y)) (holders y)"
    and last: "leases_last view (holders y) (sy_world y) (sy_world y')" and env: "\<And>w w'. env w w' \<Longrightarrow> keeps_locks w w'"
  shows "lock_ok (w_now (sy_world y')) (w_rd (sy_world y')) (holders y')"
  using step
proof (cases rule: system_step.cases)
  case service
  from this show ?thesis
  proof (cases rule: service_step.cases)
    case (trigger l c p r p' w' q')
    let ?H = "sum_list (map worker_holds (sy_workers y)) + sum_list (map trigger_holds (l @ r))"
    have h: "holders y = mset (map job_lock (sy_queue y)) + trigger_holds (c, p) + ?H"
      "holders y' = mset (map job_lock q') + trigger_holds (c, p') + ?H"
      by (simp_all add: holders_def trigger ac_simps)
    show ?thesis
      using trigger_step_locks [OF trigger(4) ttl ok [unfolded h] _ trigger(3)] last unfolding h by (simp add: trigger(1))
  next
    case (take l r job q)
    have "holders y' = holders y" by (simp add: holders_def take take_job_def ac_simps)
    with ok take show ?thesis by simp
  next
    case (work l p r p' w')
    let ?H = "mset (map job_lock (sy_queue y)) + sum_list (map worker_holds (l @ r)) +
      sum_list (map trigger_holds (sy_triggers y))"
    have h: "holders y = worker_holds p + ?H" "holders y' = worker_holds p' + ?H"
      by (simp_all add: holders_def work ac_simps)
    show ?thesis
      using worker_step_locks [OF work(4) ok [unfolded h]] last unfolding h by (simp add: work(1))
  qed
next
  case (arrive c)
  have "trigger_holds (c, trigger_start s (tc_request c)) = {#}" for s :: "('d, 'r) world RecomputeService"
    by (simp add: trigger_start_def split: option.split)
  with ok arrive show ?thesis by (simp add: holders_def trigger_start_def split: option.split)
next
  case (stop l r)
  then have "holders y' = holders y" by (simp add: holders_def)
  with ok stop show ?thesis by simp
next
  case (other w')
  then have "holders y' = holders y" by (simp add: holders_def)
  with lock_ok_kept [OF ok last] env other show ?thesis by simp
qed

lemma timely_locks:
  assumes "timely view rt (api_recomputeService pg srv D ttl n) ctx env (Start k w) y" and "valid_ttl ttl"
    and "\<And>w w'. env w w' \<Longrightarrow> keeps_locks w w'"
  shows "lock_ok (w_now (sy_world y)) (w_rd (sy_world y)) (holders y)"
  using assms(1)
proof (induction "Start k w :: (pgdb, 'r) world system" y rule: timely.induct)
  case start
  have "sum_list (map worker_holds (replicate j Idle)) = {#}" for j by (induction j) simp_all
  then show ?case by (simp add: lock_ok_def holders_def Start_def)
next
  case (step y1 y2)
  from system_step_locks [OF step(3) assms(2) step(2) step(4) assms(3)] show ?case by simp
qed

end

end
