(* ===== verification/Lock_Properties.thy ===== *)
theory Lock_Properties
  imports Lock_Exclusion Sample_Service
begin

section \<open>Properties of the lock in the running service\<close>

text \<open>
  One holder for each scope as long as no lease runs out, and what happens when one does: the
  lease counts from the trigger, not from the start of the rebuild, so a job that waits
  longer than its lease no longer keeps the scope to itself.
\<close>

text \<open>C8: In every state that the running service reaches without a holder's lease running out, under
  every interleaving and every failure of the stores, each lock that a trigger, a job of the
  channel or a worker holds is in Redis under its token, and no two of them hold the lock of
  the same scope; so no two workers are on jobs of one scope.\<close>

theorem one_holder_per_scope:
  assumes "redis_protocol srv view" and "valid_ttl ttl"
    and "timely view rt (api_recomputeService pg srv D ttl n) ctx env (Start workers w) y"
    and "\<And>w w' k e. env w w' \<Longrightarrow> is_lock_key k \<Longrightarrow>
      w_now w \<le> w_now w' \<and> (view (w_now w') (w_rd w) k = Some e \<longrightarrow> view (w_now w') (w_rd w') k = Some e)"
  shows "(\<forall>(k, tok) \<in># holders y. \<exists>x. view (w_now (sy_world y)) (w_rd (sy_world y)) k = Some (Text tok, x)) \<and>
    (\<forall>k. count (image_mset fst (holders y)) k \<le> 1) \<and>
    (\<forall>l p m p' r job job'. sy_workers y = l @ p # m @ p' # r \<and> worker_job p = Some job \<and> worker_job p' = Some job' \<longrightarrow>
       job_lockKey job \<noteq> job_lockKey job')"
proof -
  have ok: "redis_protocol.lock_ok view (w_now (sy_world y)) (w_rd (sy_world y)) (holders y)"
    by (rule redis_protocol.timely_locks [OF assms(1,3,2)])
      (simp add: redis_protocol.keeps_locks_def [OF assms(1)] redis_protocol.keeps_def [OF assms(1)] assms(4))
  note ok' = ok [unfolded redis_protocol.lock_ok_def [OF assms(1)] redis_protocol.leased_def [OF assms(1)]]
  from ok' have once: "count (image_mset fst (holders y)) k \<le> 1" for k by blast
  have "job_lockKey job \<noteq> job_lockKey job'"
    if "sy_workers y = l @ p # m @ p' # r" "worker_job p = Some job" "worker_job p' = Some job'" for l p m p' r job job'
  proof
    assume "job_lockKey job = job_lockKey job'"
    moreover have "{#job_lock job, job_lock job'#} \<subseteq># holders y" by (simp add: holders_def that ac_simps)
    from image_mset_subseteq_mono [OF this, of fst] have
        "count {#job_lockKey job, job_lockKey job'#} (job_lockKey job) \<le>
          count (image_mset fst (holders y)) (job_lockKey job)"
      by (intro mset_subset_eq_count) (simp add: job_lock_def)
    ultimately show False using once [of "job_lockKey job"] by simp
  qed
  with ok' show ?thesis by auto
qed

definition sample_trigger_call :: trigger_call where
  "sample_trigger_call = \<lparr>tc_ctx = None, tc_token = ''tok'', tc_request = sample_request ''day''\<rparr>"

definition sample_holding :: "(pgdb, keyspace) world system" where
  "sample_holding = (Start 1 sample_world)\<lparr>
     sy_world := sample_world\<lparr>w_rd := Map.empty(lockKey (sample_request ''day'') \<mapsto>
       (Text ''tok'', Some (midnight 12 + 15 * ns_Minute)))\<rparr>,
     sy_triggers := [(sample_trigger_call, Creating)]\<rparr>"

lemma sample_holding_timely:
  "timely ks_view (api_runtime id) (sample_service 1) None (\<lambda>w w'. w' = w) (Start 1 sample_world) sample_holding"
proof -
  let ?S = "sample_service 1" and ?env = "\<lambda>w w' :: (pgdb, keyspace) world. w' = w"
  let ?timely = "timely ks_view (api_runtime id) ?S None ?env (Start 1 sample_world)"
  let ?at = "\<lambda>p. (Start 1 sample_world)\<lparr>sy_triggers := [(sample_trigger_call, p)]\<rparr>"
  have none: "holders (Start 1 sample_world) = {#}" "holders (?at LookingUp) = {#}" "holders (?at Acquiring) = {#}"
    by (simp_all add: holders_def Start_def effectiveWorkers_def)
  have trigger: "system_step (api_runtime id) ?S None ?env (?at p)
      ((Start 1 sample_world)\<lparr>sy_world := w', sy_triggers := [(sample_trigger_call, p')]\<rparr>)"
    if "trigger_step ?S sample_trigger_call p (sample_world, []) = (p', w', [])" "answered p = None" for p p' w'
  proof (rule system_step.service)
    show "service_step (api_runtime id) ?S None (?at p)
      ((Start 1 sample_world)\<lparr>sy_world := w', sy_triggers := [(sample_trigger_call, p')]\<rparr>)"
      using service_step.trigger [of "?at p" "[]" sample_trigger_call p "[]" ?S p' w' "[]"] that by (simp add: Start_def)
  qed
  have "system_step (api_runtime id) ?S None ?env (Start 1 sample_world) (?at LookingUp)"
    using system_step.arrive [of "api_runtime id" ?S None ?env "Start 1 sample_world" sample_trigger_call]
    by (simp add: Start_def trigger_start_def sample_trigger_call_def)
  from timely.step [OF timely.start this] have 1: "?timely (?at LookingUp)" by (simp add: none leases_last_def)
  obtain rep where "Store_GetReportDefinition sample_pg None ''status-counts'' sample_world = (sample_world, Inr rep)"
    using sample_lookup [OF sample_undisturbed] GetReportDefinition_undisturbed [OF sample_undisturbed]
    by (metis prod.collapse)
  then have "trigger_step ?S sample_trigger_call LookingUp (sample_world, []) = (Acquiring, sample_world, [])"
    by (simp add: wiring_simps sample_trigger_call_def sample_request_def)
  from trigger [OF this] have "system_step (api_runtime id) ?S None ?env (?at LookingUp) (?at Acquiring)"
    by (simp add: Start_def)
  from timely.step [OF 1 this] have 2: "?timely (?at Acquiring)" by (simp add: none leases_last_def)
  have "trigger_step ?S sample_trigger_call Acquiring (sample_world, []) = (Creating, sy_world sample_holding, [])"
    by (simp add: wiring_simps sample_trigger_call_def sample_holding_def RedisStore_TryAcquire_def rd_call_undisturbed
        keyspace_server_def ks_view_def expiry_def alive_def not_less [symmetric]) (simp add: ns_Minute_def ns_Second_def)
  from trigger [OF this] have "system_step (api_runtime id) ?S None ?env (?at Acquiring) sample_holding"
    by (simp add: Start_def sample_holding_def)
  from timely.step [OF 2 this] show ?thesis by (simp add: none leases_last_def)
qed

theorem one_holder_per_scope_witness:
  "timely ks_view (api_runtime id) (sample_service 1) None (\<lambda>w w'. w' = w) (Start 1 sample_world) sample_holding \<and>
   holders sample_holding = {#(lockKey (sample_request ''day''), ''tok'')#} \<and>
   (\<exists>x. ks_view (midnight 12) (w_rd (sy_world sample_holding)) (lockKey (sample_request ''day'')) = Some (Text ''tok'', x))"
proof -
  have h: "holders sample_holding = {#(lockKey (sample_request ''day''), ''tok'')#}"
    by (simp add: holders_def sample_holding_def sample_trigger_call_def Start_def effectiveWorkers_def)
  have now: "w_now (sy_world sample_holding) = midnight 12" by (simp add: sample_holding_def)
  show ?thesis
    using one_holder_per_scope [OF ks.redis_protocol_axioms sample_ttl(1) sample_holding_timely] sample_holding_timely
    by (simp add: h now)
qed

text \<open>C23: The lease counts from the trigger. When it has run out, a further trigger of the same scope is
  accepted even though the job of the first still waits in the channel: the channel then holds
  two jobs of one scope, whose rebuilds nothing keeps apart.\<close>

theorem expired_lease_second_job:
  assumes "postgres_server pg" and "redis_protocol srv view" and "valid_ttl ttl" and "0 < ttl"
    and "RecomputeService_Trigger (api_recomputeService pg srv D ttl n) ctx0 tok0 rq (w0, q0) = ((w1, q1), Inr run1)"
    and "w_rd w = w_rd w1" and "w_now w1 + ttl \<le> w_now w" and "length q1 < n" and "undisturbed ctx w"
    and "checkRequest (api_recomputeService pg srv D ttl n) rq = None"
    and "snd (Store_GetReportDefinition pg ctx (rq_ReportSlug rq) w) = Inr rep"
    and "report_exists (w_db w) (rq_ReportSlug rq)"
    and "\<not> run_exists (w_db w) (pgs_uuid pg (db_uuids (w_db w)))"
  shows "\<exists>w2 run2 job1 job2. RecomputeService_Trigger (api_recomputeService pg srv D ttl n) ctx tok rq (w, q1) =
      ((w2, q0 @ [job1, job2]), Inr run2) \<and>
    job_runID job1 = run_ID run1 \<and> job_runID job2 = run_ID run2 \<and>
    job_lockKey job1 = lockKey rq \<and> job_lockKey job2 = lockKey rq"
proof -
  from redis_protocol.Trigger_takes [OF assms(2,5,3)] obtain s where s: "s \<le> w_now w1"
      "view (w_now w1) (w_rd w1) (lockKey rq) = alive (w_now w1) (Some (Text tok0, expiry s ttl))" by blast
  have "view (w_now w) (w_rd w) (lockKey rq) = None"
    using redis_protocol.view_later [OF assms(2), of "w_now w1" "w_now w" "w_rd w1" "lockKey rq"] s assms(4,6,7)
    by (simp add: alive_def expiry_def)
  then have free: "st_locks (abs_state view (w, q1)) (lockKey rq) = None" by (simp add: abs_state_def abs_locks_def)
  obtain w2 q2 r where t: "RecomputeService_Trigger (api_recomputeService pg srv D ttl n) ctx tok rq (w, q1) = ((w2, q2), r)"
    by (metis prod.exhaust)
  have "length (st_queue (abs_state view (w, q1))) < n" using assms(8) by (simp add: abs_state_def)
  then have "outcome_of r = Accepted (pgs_uuid pg (db_uuids (w_db w)))"
    using redis_protocol.Trigger_refines [OF assms(2,1,9,3,10,11,12,13) t] free by (simp add: spec_trigger_def)
  then obtain run2 where r: "r = Inr run2" by (auto simp: outcome_of_def split: sum.splits if_splits)
  note first = postgres_server.trigger_status [OF assms(1,5)] and second = postgres_server.trigger_status [OF assms(1) t]
  from first second t r show ?thesis by auto
qed

lemma sample_room:
  "\<exists>w1 q1 run1. RecomputeService_Trigger (sample_service 2) None ''tok'' (sample_request ''day'')
     (sample_world, []) = ((w1, q1), Inr run1) \<and> length q1 = 1"
proof -
  let ?rq = "sample_request ''day''"
  obtain w1 q1 r where t: "RecomputeService_Trigger (sample_service 2) None ''tok'' ?rq (sample_world, []) = ((w1, q1), r)"
    by (metis prod.exhaust)
  obtain rep where "snd (Store_GetReportDefinition sample_pg None (rq_ReportSlug ?rq) sample_world) = Inr rep"
    using sample_lookup [OF sample_undisturbed] by (auto simp: sample_request_def)
  from ks.Trigger_refines [OF sample.postgres_server_axioms sample_undisturbed sample_ttl(1) sample_check this _ _ t]
  have "outcome_of r = Accepted (uuid_of 1)"
    using sample_new_run by (simp_all add: sample_request_def spec_trigger_def abs_state_def abs_locks_def ks_view_def
        sample_pg_def sample_db_def alive_def)
  then obtain run1 where r: "r = Inr run1" by (auto simp: outcome_of_def split: sum.splits if_splits)
  from postgres_server.trigger_status [OF sample.postgres_server_axioms t] r have "length q1 = 1" by auto
  with t r show ?thesis by blast
qed

theorem expired_lease_second_job_witness:
  "\<exists>w w2 run2 job1 job2. RecomputeService_Trigger (sample_service 2) None ''tok2'' (sample_request ''day'') (w, [job1]) =
      ((w2, [job1, job2]), Inr run2) \<and> job_lockKey job1 = job_lockKey job2"
proof -
  let ?rq = "sample_request ''day''"
  obtain w1 q1 run1 where t: "RecomputeService_Trigger (sample_service 2) None ''tok'' ?rq (sample_world, []) =
      ((w1, q1), Inr run1)" "length q1 = 1" using sample_room by blast
  let ?w = "sample_world\<lparr>w_now := w_now w1 + 15 * ns_Minute, w_rd := w_rd w1\<rparr>"
  have u: "undisturbed None ?w" by (simp add: undisturbed_def)
  obtain rep where rep: "snd (Store_GetReportDefinition sample_pg None (rq_ReportSlug ?rq) ?w) = Inr rep"
    using u by (simp add: Store_GetReportDefinition_def db_call_undisturbed sample_db_def sample_definition_def
        scanReportDefinition_def sample_request_def)
  have "report_exists (w_db ?w) (rq_ReportSlug ?rq)" "\<not> run_exists (w_db ?w) (pgs_uuid sample_pg (db_uuids (w_db ?w)))"
    using sample_new_run by (simp_all add: sample_request_def)
  from expired_lease_second_job [OF sample.postgres_server_axioms ks.redis_protocol_axioms sample_ttl t(1) _ _ _ u
      sample_check rep this, of "''tok2''"] t(2) obtain w2 run2 job1 job2 where
      two: "RecomputeService_Trigger (sample_service 2) None ''tok2'' ?rq (?w, q1) = ((w2, [job1, job2]), Inr run2)"
      "job_lockKey job1 = job_lockKey job2" by auto
  from postgres_server.trigger_status [OF sample.postgres_server_axioms two(1)] t(2) have "q1 = [job1]" by (cases q1) auto
  with two show ?thesis by blast
qed

subsection \<open>A request that ends too soon\<close>

text \<open>C22: A trigger gives its lock back under the request's own context. When the request ends between
  the acquisition and the creation of the run, the release fails with it: the caller gets an
  error, nothing is enqueued, and the lock stays under the lost token until the lease ends,
  for all that time refusing the scope.\<close>

theorem late_trigger_leaks_lock:
  assumes "redis_protocol srv view" and "valid_ttl ttl"
    and "checkRequest (api_recomputeService pg srv D ttl n) rq = None"
    and "Store_GetReportDefinition pg ctx (rq_ReportSlug rq) w = (w1, Inr rep)"
    and "RedisStore_TryAcquire srv ctx (lockKey rq) tok ttl w1 = (w2, Inr True)"
    and "Store_CreateRun pg ctx (defaultRequester rq) RunStatusPending w2 = (w3, Inl e)" and "ctx_done ctx (w_now w3)"
  shows "RecomputeService_Trigger (api_recomputeService pg srv D ttl n) ctx tok rq (w, q) =
      ((w3, q), Inl (WrapAppError ErrCodeInternal ''failed to create recompute run'' e)) \<and>
    (\<forall>t. w_now w3 \<le> t \<longrightarrow> view t (w_rd w3) (lockKey rq) = alive t (Some (Text tok, expiry (w_now w2) ttl)))"
proof -
  have "RedisStore_Release srv ctx (lockKey rq) tok w3 = (w3, Inl CtxError)"
    by (simp add: RedisStore_Release_def call_ctx_done [OF assms(7)])
  with assms(3-6) have "RecomputeService_Trigger (api_recomputeService pg srv D ttl n) ctx tok rq (w, q) =
      ((w3, q), Inl (WrapAppError ErrCodeInternal ''failed to create recompute run'' e))"
    by (simp add: RecomputeService_Trigger_def Let_def wiring_simps)
  moreover have "view t (w_rd w3) (lockKey rq) = alive t (Some (Text tok, expiry (w_now w2) ttl))"
    if t: "w_now w3 \<le> t" for t
  proof -
    have f: "w_rd w3 = w_rd w2" "w_now w2 \<le> w_now w3"
      using pg_frames(2) [of pg ctx "defaultRequester rq" RunStatusPending w2]
        pg_times(2) [of w2 pg ctx "defaultRequester rq" RunStatusPending] by (simp_all add: assms(6))
    have "view (w_now w2) (w_rd w2) (lockKey rq) = Some (Text tok, expiry (w_now w2) ttl)"
      using redis_protocol.TryAcquire_law [OF assms(1,2,5)] by auto
    then show ?thesis
      by (simp add: f(1) redis_protocol.view_later [OF assms(1) order_trans [OF f(2) t]])
  qed
  ultimately show ?thesis by blast
qed

text \<open>The statement that creates the run takes 31 seconds of the request's 30.\<close>

definition sample_ending :: "(pgdb, keyspace) world" where
  "sample_ending = sample_world\<lparr>w_script := [(0, Served), (0, Served), (31000000000, Served)]\<rparr>"

theorem late_trigger_leaks_lock_witness:
  "\<exists>w3 e. RecomputeService_Trigger (sample_service 1) (Some (midnight 12 + 30 * ns_Second)) ''tok'' (sample_request ''day'')
      (sample_ending, []) = ((w3, []), Inl e) \<and>
    ks_view (midnight 12 + ns_Minute) (w_rd w3) (lockKey (sample_request ''day'')) =
      Some (Text ''tok'', Some (midnight 12 + 15 * ns_Minute))"
proof -
  let ?rq = "sample_request ''day''" and ?ctx = "Some (midnight 12 + 30 * ns_Second)"
  let ?w1 = "sample_world\<lparr>w_script := [(0, Served), (31000000000, Served)]\<rparr>"
  let ?w2 = "sample_world\<lparr>w_script := [(31000000000, Served)],
    w_rd := Map.empty(lockKey ?rq \<mapsto> (Text ''tok'', Some (midnight 12 + 15 * ns_Minute)))\<rparr>"
  let ?w3 = "pass_time ?w2"
  note second = ns_Minute_def ns_Second_def
  obtain rep where g: "Store_GetReportDefinition sample_pg ?ctx (rq_ReportSlug ?rq) sample_ending = (?w1, Inr rep)"
    by (simp add: Store_GetReportDefinition_def db_call_def remote_def next_outcome_def pass_time_def second
        sample_ending_def sample_request_def sample_db_def sample_definition_def scanReportDefinition_def
        del: pass_time_simps)
  have a: "RedisStore_TryAcquire keyspace_server ?ctx (lockKey ?rq) ''tok'' (15 * ns_Minute) ?w1 = (?w2, Inr True)"
    by (simp add: RedisStore_TryAcquire_def rd_call_def remote_def next_outcome_def pass_time_def second
        keyspace_server_def ks_view_def alive_def expiry_def del: pass_time_simps)
  have out: "next_outcome ?w2 = (31000000000, Served)" by (simp add: next_outcome_def)
  have now: "w_now ?w3 = midnight 12 + 31000000000" by (simp add: pass_time_def out)
  have "remote ?ctx f ?w2 = (?w3, Inl CtxError)" for f :: "((pgdb, keyspace) world, RecomputeRun) io"
    unfolding remote_def out now by (simp add: second)
  then have c: "Store_CreateRun sample_pg ?ctx (defaultRequester ?rq) RunStatusPending ?w2 = (?w3, Inl CtxError)"
    by (simp add: Store_CreateRun_def db_call_def)
  have over: "ctx_done ?ctx (w_now ?w3)" unfolding now by (simp add: second)
  have le: "w_now ?w3 \<le> midnight 12 + ns_Minute" unfolding now by (simp add: second)
  note leak = late_trigger_leaks_lock [OF ks.redis_protocol_axioms sample_ttl(1) sample_check g a c over]
  have "ks_view (midnight 12 + ns_Minute) (w_rd ?w3) (lockKey ?rq) =
      alive (midnight 12 + ns_Minute) (Some (Text ''tok'', expiry (midnight 12) (15 * ns_Minute)))"
    using leak [THEN conjunct2, rule_format, OF le] by simp
  also have "\<dots> = Some (Text ''tok'', Some (midnight 12 + 15 * ns_Minute))"
    by (simp add: alive_def expiry_def second)
  finally show ?thesis using leak [THEN conjunct1] by blast
qed

end
