(* ===== verification/Table_Types.thy ===== *)
theory Table_Types
  imports Pipeline Sample_Service
begin

section \<open>What the tables hold\<close>

text \<open>
  A conformance predicate over the tables: the constraints of the schema, and beyond them that
  every run and every audit entry is one the service can read back (its JSON column is an
  object, its nullable columns that are scanned into strings are set). Every call of the
  service keeps it, whether it succeeds or not, and so does every step of the running service.
\<close>

subsection \<open>Conforming rows\<close>

definition run_row_ok :: "pgdb \<Rightarrow> run_row \<Rightarrow> bool" where
  "run_row_ok d r \<longleftrightarrow>
     report_exists d (rn_report_slug r) \<and> window_ok (rn_window_name r) \<and> status_ok (rn_status r) \<and> is_ok (scan_run r)"

definition audit_row_ok :: "int \<Rightarrow> audit_row \<Rightarrow> bool" where
  "audit_row_ok seq a \<longleftrightarrow> ar_id a < seq \<and> is_ok (scan_audit a)"

definition tables_ok :: "pgdb \<Rightarrow> bool" where
  "tables_ok d \<longleftrightarrow> db_consistent d \<and> list_all (run_row_ok d) (db_runs d) \<and>
     list_all (audit_row_ok (db_audit_seq d)) (db_audits d) \<and> distinct (map ar_id (db_audits d))"

lemma run_row_ok_definitions: "db_definitions d' = db_definitions d \<Longrightarrow> run_row_ok d' = run_row_ok d"
  by (rule ext) (simp add: run_row_ok_def report_exists_def)

lemma scan_run_ok: "is_ok (scan_run r) \<longleftrightarrow> is_ok (decode_map (rn_summary r))"
  by (simp add: scan_run_def is_ok_iff split: sum.split)

subsection \<open>Statements\<close>

lemma sql_update_run_tables:
  assumes "sql_update_run pg runID f d = (d', r)" and "tables_ok d"
    and "\<And>r. rn_id (f r) = rn_id r" and "\<And>r. status_ok (rn_status (f r))"
    and "\<And>r. run_row_ok d r \<Longrightarrow> run_row_ok d (f r)"
  shows "tables_ok d'"
proof (cases "pgs_uuid_text pg runID")
  case None
  with assms(1,2) show ?thesis by (simp add: sql_update_run_def)
next
  case (Some rid)
  let ?rs = "map (\<lambda>r. if rn_id r = rid then f r else r) (db_runs d)"
  have d': "d' = d\<lparr>db_runs := ?rs\<rparr>" using assms(1) Some by (simp add: sql_update_run_def)
  have "db_consistent d'" using sql_update_run_consistent [OF assms(1) _ assms(3,4)] assms(2) by (simp add: tables_ok_def)
  moreover have "list_all (run_row_ok d) ?rs" using assms(2,5) by (auto simp: tables_ok_def list_all_iff)
  ultimately show ?thesis
    using assms(2) run_row_ok_definitions [of d' d] by (simp add: tables_ok_def d')
qed

lemma insert_run_tables:
  assumes "insert_run (new_run pg rq st now d0) (d0\<lparr>db_uuids := u\<rparr>) = Inr d'" and "tables_ok d0"
  shows "tables_ok d'"
proof -
  have "db_consistent d'" using insert_run_consistent [OF assms(1)] assms(2) by (simp add: tables_ok_def)
  moreover have "d' = d0\<lparr>db_uuids := u, db_runs := db_runs d0 @ [new_run pg rq st now d0]\<rparr>"
      "report_exists d0 (rq_ReportSlug rq)" "window_ok (rq_Window rq)" "status_ok st"
    using assms(1) by (auto simp: insert_run_Inr_iff new_run_def report_exists_def)
  moreover from this have "run_row_ok d0 (new_run pg rq st now d0)"
    by (simp add: run_row_ok_def new_run_def scan_run_ok)
  ultimately show ?thesis
    using assms(2) run_row_ok_definitions [of d' d0] by (simp add: tables_ok_def)
qed

lemma db_call_tables:
  "tables_ok (w_db w) \<Longrightarrow> (\<And>t. tables_ok (fst (g t (w_db w)))) \<Longrightarrow> tables_ok (w_db (fst (db_call ctx g w)))"
  using db_call_db [of ctx g w] by auto

lemma store_tables:
  assumes "tables_ok (w_db w)"
  shows "tables_ok (w_db (fst (Store_CreateRun pg ctx rq st w)))"
    and "tables_ok (w_db (fst (Store_MarkRunRunning pg ctx i w)))"
    and "tables_ok (w_db (fst (Store_MarkRunCompleted pg ctx i m w)))"
    and "tables_ok (w_db (fst (Store_MarkRunFailed pg ctx i msg w)))"
    and "tables_ok (w_db (fst (Store_CreateEntry ctx e w)))"
    and "tables_ok (w_db (fst (Store_RecomputeReport pg ctx rq i w)))"
proof -
  have uuids: "tables_ok (d\<lparr>db_uuids := n\<rparr>) = tables_ok d" for d n
    using run_row_ok_definitions [of "d\<lparr>db_uuids := n\<rparr>" d] by (simp add: tables_ok_def)
  show "tables_ok (w_db (fst (Store_CreateRun pg ctx rq st w)))"
    unfolding Store_CreateRun_def Let_def
    by (rule db_call_tables [OF assms]) (auto simp: uuids assms insert_run_tables split: sum.split)
  have upd: "tables_ok (fst (sql_update_run pg i f (w_db w)))"
    if "\<And>r. rn_id (f r) = rn_id r" "\<And>r. status_ok (rn_status (f r))"
      "\<And>r. run_row_ok (w_db w) r \<Longrightarrow> run_row_ok (w_db w) (f r)" for f
    using sql_update_run_tables [OF _ assms that] by (metis prod.collapse)
  show "tables_ok (w_db (fst (Store_MarkRunRunning pg ctx i w)))"
    unfolding Store_MarkRunRunning_def
    by (rule db_call_tables [OF assms], rule upd) (simp_all add: run_row_ok_def scan_run_ok status_ok_def)
  show "tables_ok (w_db (fst (Store_MarkRunCompleted pg ctx i m w)))"
    unfolding Store_MarkRunCompleted_def
    by (rule db_call_tables [OF assms], rule upd)
      (simp_all add: run_row_ok_def scan_run_ok status_ok_def summary_json_def)
  show "tables_ok (w_db (fst (Store_MarkRunFailed pg ctx i msg w)))"
    unfolding Store_MarkRunFailed_def
    by (rule db_call_tables [OF assms], rule upd) (simp_all add: run_row_ok_def scan_run_ok status_ok_def)
  have audit: "tables_ok (d\<lparr>db_audits := db_audits d @ [a], db_audit_seq := db_audit_seq d + 1\<rparr>)"
    if "tables_ok d" "ar_id a = db_audit_seq d" "is_ok (scan_audit a)" for d a
    using that run_row_ok_definitions [of "d\<lparr>db_audits := db_audits d @ [a], db_audit_seq := db_audit_seq d + 1\<rparr>" d]
    by (auto simp: tables_ok_def audit_row_ok_def list_all_iff)
  show "tables_ok (w_db (fst (Store_CreateEntry ctx e w)))"
    unfolding Store_CreateEntry_def
    by (rule db_call_tables [OF assms], simp, rule audit) (simp_all add: assms scan_audit_def)
  obtain w' r where c: "Store_RecomputeReport pg ctx rq i w = (w', r)" by fastforce
  have tx: "tables_ok d'" if t: "recompute_tx pg rq i t (w_db w) = Inr (d', sm)" for t d' sm
  proof -
    obtain S where d': "d' = (w_db w)\<lparr>db_snapshots := S\<rparr>" using recompute_tx_keeps [OF t] by blast
    with recompute_tx_consistent [OF t] assms run_row_ok_definitions [of d' "w_db w"] show ?thesis
      by (simp add: tables_ok_def)
  qed
  from Store_RecomputeReport_atomic [OF c] assms tx show "tables_ok (w_db (fst (Store_RecomputeReport pg ctx rq i w)))"
    by (auto simp: c)
qed

subsection \<open>The running service\<close>

lemma store_results_tables:
  "Store_CreateRun pg ctx rq st w = (w', r1) \<Longrightarrow> tables_ok (w_db w) \<Longrightarrow> tables_ok (w_db w')"
  "Store_MarkRunRunning pg ctx i w = (w', r2) \<Longrightarrow> tables_ok (w_db w) \<Longrightarrow> tables_ok (w_db w')"
  "Store_RecomputeReport pg ctx rq i w = (w', r3) \<Longrightarrow> tables_ok (w_db w) \<Longrightarrow> tables_ok (w_db w')"
  by (metis store_tables(1) fst_conv, metis store_tables(2) fst_conv, metis store_tables(6) fst_conv)

lemma worker_step_tables:
  assumes "worker_step (api_recomputeService pg srv D ttl n) p w = (p', w')" and "tables_ok (w_db w)"
  shows "tables_ok (w_db w')"
proof (cases p)
  case (Starting job c)
  with assms show ?thesis
    by (auto simp: wiring_simps split: prod.splits sum.splits dest: store_results_tables)
next
  case (Rebuilding job c)
  with assms show ?thesis
    by (auto simp: wiring_simps split: prod.splits sum.splits dest: store_results_tables)
qed (use assms in \<open>auto simp: wiring_simps bumpCache_def store_tables frame_simps\<close>)

lemma trigger_step_tables:
  assumes "trigger_step (api_recomputeService pg srv D ttl n) c p (w, q) = (p', w', q')" and "tables_ok (w_db w)"
  shows "tables_ok (w_db w')"
proof (cases p)
  case LookingUp
  with assms show ?thesis
    using lookup_db_frame [of pg "tc_ctx c" "rq_ReportSlug (tc_request c)" w]
    by (auto simp: wiring_simps split: prod.splits sum.splits)
next
  case Acquiring
  with assms show ?thesis
    using redis_frames(1) [of srv "tc_ctx c" "lockKey (tc_request c)" "tc_token c" ttl w]
    by (auto simp: wiring_simps split: prod.splits sum.splits bool.splits)
next
  case Creating
  with assms show ?thesis
    by (auto simp: wiring_simps split: prod.splits sum.splits dest: store_results_tables)
next
  case (Sending run)
  with assms show ?thesis by (auto split: option.splits)
qed (use assms in \<open>auto simp: wiring_simps store_tables frame_simps\<close>)

lemma reachable_tables:
  assumes "reachable rt (api_recomputeService pg srv D ttl n) ctx env y y'" and "tables_ok (w_db (sy_world y))"
    and env: "\<And>w w'. env w w' \<Longrightarrow> tables_ok (w_db w) \<Longrightarrow> tables_ok (w_db w')"
  shows "tables_ok (w_db (sy_world y'))"
  using assms(1) unfolding reachable_def
proof (induction rule: rtranclp_induct)
  case base
  show ?case by (rule assms(2))
next
  case (step y1 y2)
  from step(2) show ?case
  proof (cases rule: system_step.cases)
    case service
    from this show ?thesis
      by (cases rule: service_step.cases) (use step.IH trigger_step_tables worker_step_tables in auto)
  qed (use step.IH env in auto)
qed

text \<open>C12: Under every interleaving and every failure of the stores the running service keeps its
  tables well-formed: the constraints of the schema hold, and every run and every audit entry
  can be read back by the service. So on an undisturbed network a lookup of any run that
  exists returns it, in one of the four states.\<close>

theorem tables_stay_readable:
  assumes "reachable rt (api_recomputeService pg srv D ttl n) ctx env (Start k w) y" and "tables_ok (w_db w)"
    and "\<And>w w'. env w w' \<Longrightarrow> tables_ok (w_db w) \<Longrightarrow> tables_ok (w_db w')"
    and "undisturbed rctx (sy_world y)" and "pgs_uuid_text pg i = Some rid" and "run_exists (w_db (sy_world y)) rid"
  shows "tables_ok (w_db (sy_world y)) \<and>
    (\<exists>run. Store_GetRun pg rctx i (sy_world y) = (sy_world y, Inr run) \<and> run_ID run = rid \<and>
       run_Status run \<in> {RunStatusPending, RunStatusRunning, RunStatusCompleted, RunStatusFailed})"
proof -
  let ?d = "w_db (sy_world y)"
  have ok: "tables_ok ?d" using reachable_tables [OF assms(1) _ assms(3)] assms(2) by (simp add: Start_def)
  obtain r rs where r: "filter (\<lambda>r. rn_id r = rid) (db_runs ?d) = r # rs"
    using assms(6) by (cases "filter (\<lambda>r. rn_id r = rid) (db_runs ?d)") (auto simp: run_exists_def filter_empty_conv)
  then have "r \<in> set (filter (\<lambda>r. rn_id r = rid) (db_runs ?d))" by simp
  then have "run_row_ok ?d r" "rn_id r = rid" using ok by (auto simp: tables_ok_def list_all_iff)
  moreover obtain run where "scan_run r = Inr run" using \<open>run_row_ok ?d r\<close> by (auto simp: run_row_ok_def is_ok_iff)
  moreover from this have "run_ID run = rn_id r" "run_Status run = rn_status r"
    by (auto simp: scan_run_def run_of_row_def split: sum.splits)
  ultimately have "Store_GetRun pg rctx i (sy_world y) = (sy_world y, Inr run) \<and> run_ID run = rid \<and>
      run_Status run \<in> {RunStatusPending, RunStatusRunning, RunStatusCompleted, RunStatusFailed}"
    using assms(5) r by (simp add: Store_GetRun_def db_call_undisturbed [OF assms(4)] run_row_ok_def status_ok_def
        status_defs)
  with ok show ?thesis by blast
qed

theorem tables_stay_readable_witness:
  "\<exists>run. snd (Store_GetRun sample_pg None sample_run_id sample_world) = Inr run \<and> run_ID run = sample_run_id"
proof -
  have r: "reachable (api_runtime id) (sample_service 1) None (\<lambda>w w'. w' = w) (Start 1 sample_world) (Start 1 sample_world)"
    by (simp add: reachable_def)
  have "tables_ok sample_db"
    using sample_consistent
    by (simp add: tables_ok_def run_row_ok_def scan_run_ok sample_defs report_exists_def window_ok_def status_ok_def)
  with tables_stay_readable [OF r, of None sample_run_id sample_run_id] show ?thesis
    by (auto simp: Start_def sample_pg_def sample_run_id_def run_exists_def sample_defs)
qed

end
