(* ===== verification/Commands.thy ===== *)
theory Commands
  imports Api Migrator Seeder Pipeline
begin

section \<open>The commands\<close>

text \<open>
  The \<open>main\<close> functions of \<open>cmd/migrate\<close>, \<open>cmd/seed\<close> and \<open>cmd/api\<close>: a command ends with an exit
  code, or the API goes on to serve until it is told to stop or its server fails. The environment and
  the file system are arguments, and so is what the drivers say of a connection string
  (\<open>pgxpool.New\<close> and \<open>goredis.ParseURL\<close> check the string and connect later).
\<close>

record drivers =
  drv_pgx :: "string \<Rightarrow> string option"
  drv_redis :: "string \<Rightarrow> string option"

definition migrations_dir :: string where
  "migrations_dir = ''internal/infrastructure/postgres/migrations''"

definition NewMigrator :: "string \<Rightarrow> file_system \<Rightarrow> Migrator" where
  "NewMigrator dir fs = \<lparr>m_dir = dir, m_fs = fs\<rparr>"

text \<open>
  The database of a command: the table of versions and the application's tables, which the
  migrations create (\<open>None\<close> before). A seed on a database without tables fails at its first
  statement.
\<close>

type_synonym 'r command_world = "(pgdb option migrated, 'r) world"

definition tables_world :: "pgdb \<Rightarrow> 'r command_world \<Rightarrow> (pgdb, 'r) world" where
  "tables_world d w = \<lparr>w_now = w_now w, w_script = w_script w, w_db = d, w_rd = w_rd w\<rparr>"

definition on_tables :: "ctx \<Rightarrow> string \<Rightarrow> ((pgdb, 'r) world, unit) io \<Rightarrow> ('r command_world, unit) io" where
  "on_tables ctx msg f w =
     (case mg_schema (w_db w) of
        None \<Rightarrow>
          (case db_call ctx (\<lambda>now d. (d, Inl (PlainError ''ERROR: relation does not exist''))) w of
             (w1, r) \<Rightarrow> (w1, wrap_error msg r))
      | Some d \<Rightarrow>
          (case f (tables_world d w) of
             (v, r) \<Rightarrow>
               (\<lparr>w_now = w_now v, w_script = w_script v, w_db = (w_db w)\<lparr>mg_schema := Some (w_db v)\<rparr>,
                 w_rd = w_rd v\<rparr>, r)))"

definition run_seed :: "pg_server \<Rightarrow> ctx \<Rightarrow> bool \<Rightarrow> ('r command_world, unit) io" where
  "run_seed pg ctx force =
     on_tables ctx (if force then ''failed to reset demo tables'' else ''failed to check analytics_events count'')
       (Seeder_Seed pg ctx force)"

subsection \<open>cmd/migrate and cmd/seed\<close>

definition migrate_main ::
    "drivers \<Rightarrow> environment \<Rightarrow> file_system \<Rightarrow> pgdb option sql_engine \<Rightarrow> 'r command_world \<Rightarrow> 'r command_world \<times> int" where
  "migrate_main drv env fs exec_sql w =
     (case Load env of
        Inl err \<Rightarrow> (w, 1)
      | Inr cfg \<Rightarrow>
     (case drv_pgx drv (cfg_DatabaseURL cfg) of
        Some err \<Rightarrow> (w, 1)
      | None \<Rightarrow>
     (case Migrator_Up exec_sql (NewMigrator migrations_dir fs) None w of
        (w1, Inl err) \<Rightarrow> (w1, 1)
      | (w1, Inr _) \<Rightarrow> (w1, 0))))"

definition seed_main ::
    "drivers \<Rightarrow> environment \<Rightarrow> pg_server \<Rightarrow> 'r command_world \<Rightarrow> 'r command_world \<times> int" where
  "seed_main drv env pg w =
     (case Load env of
        Inl err \<Rightarrow> (w, 1)
      | Inr cfg \<Rightarrow>
     (case drv_pgx drv (cfg_DatabaseURL cfg) of
        Some err \<Rightarrow> (w, 1)
      | None \<Rightarrow>
     (case run_seed pg None (parseBool (env ''SEED_FORCE_RESET'')) w of
        (w1, Inl err) \<Rightarrow> (w1, 1)
      | (w1, Inr _) \<Rightarrow> (w1, 0))))"

subsection \<open>cmd/api\<close>

text \<open>What serves: the handler with its key, the workers, the address and the timeouts.\<close>

record 'w api_server =
  as_Addr :: string
  as_Handler :: "'w Handler"
  as_ManagementAPIKey :: string
  as_Workers :: "worker list"
  as_ReadTimeout :: duration
  as_WriteTimeout :: duration

definition api_server :: "pg_server \<Rightarrow> 'r redis_server \<Rightarrow> Config \<Rightarrow> (pgdb, 'r) world api_server" where
  "api_server pg srv cfg =
     \<lparr>as_Addr = '':'' @ cfg_Port cfg, as_Handler = api_handler pg srv cfg,
      as_ManagementAPIKey = cfg_ManagementAPIKey cfg,
      as_Workers = replicate (nat (effectiveWorkers (cfg_RecomputeWorkers cfg))) Idle,
      as_ReadTimeout = cfg_HTTPReadTimeout cfg, as_WriteTimeout = cfg_HTTPWriteTimeout cfg\<rparr>"

definition auto_migrate ::
    "Config \<Rightarrow> file_system \<Rightarrow> pgdb option sql_engine \<Rightarrow> ctx \<Rightarrow> ('r command_world, unit) io" where
  "auto_migrate cfg fs exec_sql ctx w =
     (if cfg_AutoMigrate cfg then Migrator_Up exec_sql (NewMigrator migrations_dir fs) ctx w else (w, Inr ()))"

definition auto_seed :: "Config \<Rightarrow> pg_server \<Rightarrow> ctx \<Rightarrow> ('r command_world, unit) io" where
  "auto_seed cfg pg ctx w = (if cfg_AutoSeed cfg then run_seed pg ctx False w else (w, Inr ()))"

text \<open>\<open>Inl\<close>: the exit code; \<open>Inr\<close>: what serves from then on.\<close>

definition api_main ::
    "drivers \<Rightarrow> environment \<Rightarrow> file_system \<Rightarrow> pgdb option sql_engine \<Rightarrow> pg_server \<Rightarrow> 'r redis_server \<Rightarrow> ctx
     \<Rightarrow> 'r command_world \<Rightarrow> 'r command_world \<times> (int + (pgdb, 'r) world api_server)" where
  "api_main drv env fs exec_sql pg srv ctx w =
     (case Load env of
        Inl err \<Rightarrow> (w, Inl 1)
      | Inr cfg \<Rightarrow>
     (case drv_pgx drv (cfg_DatabaseURL cfg) of
        Some err \<Rightarrow> (w, Inl 1)
      | None \<Rightarrow>
     (case drv_redis drv (cfg_RedisURL cfg) of
        Some err \<Rightarrow> (w, Inl 1)
      | None \<Rightarrow>
     (case auto_migrate cfg fs exec_sql ctx w of
        (w1, Inl err) \<Rightarrow> (w1, Inl 1)
      | (w1, Inr _) \<Rightarrow>
     (case auto_seed cfg pg ctx w1 of
        (w2, Inl err) \<Rightarrow> (w2, Inl 1)
      | (w2, Inr _) \<Rightarrow> (w2, Inr (api_server pg srv cfg)))))))"

subsection \<open>The end of cmd/api\<close>

text \<open>
  What \<open>ListenAndServe\<close> returned, if it returned, and what of it reaches \<open>serverErrCh\<close>. The
  process waits for a signal or for that error, then asks the server to shut down (whose answer
  is net/http's and an argument): the exit code is the shutdown's, whatever ended the wait.
  \<open>None\<close>: the process still serves.
\<close>

datatype serve_error = ErrServerClosed | ServeError string

definition server_failure :: "serve_error option \<Rightarrow> string option" where
  "server_failure err = (case err of Some (ServeError e) \<Rightarrow> Some e | _ \<Rightarrow> None)"

definition api_exit :: "bool \<Rightarrow> serve_error option option \<Rightarrow> string option \<Rightarrow> int option" where
  "api_exit signalled served shutdown =
     (if signalled \<or> Option.bind served server_failure \<noteq> None
      then Some (case shutdown of Some err \<Rightarrow> 1 | None \<Rightarrow> 0)
      else None)"

end
