(* ===== verification/Command_Properties.thy ===== *)
theory Command_Properties
  imports Commands Migrator_Properties Seeder_Properties
begin

section \<open>Properties of the commands\<close>

text \<open>
  What is true of the database when the API begins to serve, and what the exit codes of the
  other two commands say.
\<close>

lemma Seed_leaves_events:
  assumes "Seeder_Seed pg ctx False w = (w', Inr ())" and "db_consistent (w_db w)"
  shows "db_events (w_db w') \<noteq> []"
proof (cases "db_events (w_db w) = []")
  case False
  obtain v x where n: "db_call ctx (\<lambda>now d. (d, Inr (int (length (db_events d))))) w = (v, x)" by fastforce
  obtain k where x: "x = Inr k" using assms(1) n by (cases x) (simp_all add: Seeder_Seed_def seed_reset_def)
  have "w_db w = w_db v \<and> int (length (db_events (w_db w))) = k"
    using db_call_Inr(1) [OF n [unfolded x]] by blast
  then have v: "w_db v = w_db w" and k: "k = int (length (db_events (w_db w)))" by (rule conjE, metis)+
  with False have "w' = v" using assms(1) n x by (simp add: Seeder_Seed_def seed_reset_def)
  with v False show ?thesis by simp
next
  case True
  from Seeder_Seed_inserts [OF assms disjI2 [OF True]] obtain w3 where w3: "db_consistent (w_db w3)"
      "int (length (db_events (w_db w3))) = seed_size"
      "seed_all pg ctx (AddDays (w_now w3) (- 90)) (w_now w3) seed_pairs w3 = (w', Inr ())" by blast
  have "distinct seed_pairs" by (simp add: seed_pairs_def window_defs)
  from seed_all_Inr [OF w3(3,1) this] w3(2) show ?thesis by (auto simp: seed_size_def)
qed

lemma run_seed_Inr:
  assumes "run_seed pg ctx False w = (w', Inr ())" and "\<And>d. mg_schema (w_db w) = Some d \<Longrightarrow> db_consistent d"
  shows "\<exists>d. mg_schema (w_db w') = Some d \<and> db_events d \<noteq> [] \<and> mg_migrations (w_db w') = mg_migrations (w_db w)"
proof (cases "mg_schema (w_db w)")
  case None
  obtain w1 and r :: "go_error + unit"
    where c: "db_call ctx (\<lambda>now d. (d, Inl (PlainError ''ERROR: relation does not exist''))) w = (w1, r)"
    by fastforce
  from c have "\<exists>e. r = Inl e" by (rule db_call_cases) auto
  with assms(1) None c show ?thesis by (auto simp: run_seed_def on_tables_def wrap_error_def)
next
  case (Some d)
  obtain v where "Seeder_Seed pg ctx False (tables_world d w) = (v, Inr ())"
      "w' = \<lparr>w_now = w_now v, w_script = w_script v, w_db = (w_db w)\<lparr>mg_schema := Some (w_db v)\<rparr>, w_rd = w_rd v\<rparr>"
    using assms(1) Some by (auto simp: run_seed_def on_tables_def split: prod.splits)
  with Seed_leaves_events [OF this(1)] assms(2) [OF Some] show ?thesis by (simp add: tables_world_def)
qed


subsection \<open>What the API starts from\<close>

text \<open>A migration leaves the application's tables consistent, as PostgreSQL's constraints keep them.\<close>

definition consistent_tables :: "pgdb option \<Rightarrow> bool" where
  "consistent_tables s \<longleftrightarrow> (case s of None \<Rightarrow> True | Some d \<Rightarrow> db_consistent d)"

definition keeps_tables :: "pgdb option sql_engine \<Rightarrow> bool" where
  "keeps_tables exec_sql \<longleftrightarrow>
     (\<forall>sql t s s'. consistent_tables s \<longrightarrow> exec_sql sql t s = Inr s' \<longrightarrow> consistent_tables s')"

lemma migrated_by_keeps:
  assumes "migrated_by exec_sql m d ks d'" and "keeps_tables exec_sql"
  shows "consistent_tables (mg_schema d) \<Longrightarrow> consistent_tables (mg_schema d')"
  using assms(1)
proof (induction rule: migrated_by.induct)
  case (one fn t d d1 fns d2)
  from one.hyps(1) obtain sql where "exec_sql sql t (mg_schema d) = Inr (mg_schema d1)"
    by (auto simp: migrate_one_def run_sql_def record_version_def split: sum.splits option.splits if_splits)
  with one.prems assms(2) have "consistent_tables (mg_schema d1)" unfolding keeps_tables_def by blast
  with one.IH show ?case .
qed

lemma auto_migrate_Inr:
  assumes "auto_migrate cfg fs exec_sql ctx w = (w1, Inr ())"
    and "listMigrationFiles (NewMigrator migrations_dir fs) = Inr files" and "distinct files"
    and "keeps_tables exec_sql" and "consistent_tables (mg_schema (w_db w))"
  shows "consistent_tables (mg_schema (w_db w1))" "cfg_AutoMigrate cfg \<Longrightarrow> set files \<subseteq> set (versions (w_db w1))"
proof -
  let ?pending = "filter (\<lambda>f. f \<notin> set (versions (w_db w))) files"
  have up: "migrated_by exec_sql (NewMigrator migrations_dir fs) (with_table (w_db w)) ?pending (w_db w1)"
    if "cfg_AutoMigrate cfg"
    using Up_prefix [OF _ assms(2,3), of exec_sql ctx w w1 "Inr ()"] assms(1) that by (auto simp: auto_migrate_def)
  show "consistent_tables (mg_schema (w_db w1))"
  proof (cases "cfg_AutoMigrate cfg")
    case True
    from migrated_by_keeps [OF up [OF this] assms(4)] assms(5) show ?thesis by simp
  qed (use assms(1,5) in \<open>simp add: auto_migrate_def\<close>)
  assume "cfg_AutoMigrate cfg"
  from migrated_by_versions [OF up [OF this]] show "set files \<subseteq> set (versions (w_db w1))" by auto
qed

text \<open>C38: When the API begins to serve, it serves with a configuration that is valid: a management key
  that is not empty, a worker at least and room in the channel; every migration of the
  directory is recorded as applied if it migrates on start, and the tables exist and hold
  events if it seeds on start. Any failure before that ends the process with code 1 instead.\<close>

theorem api_serves_migrated:
  assumes "api_main drv env fs exec_sql pg srv ctx w = (w', x)"
    and "listMigrationFiles (NewMigrator migrations_dir fs) = Inr files" and "distinct files"
    and "keeps_tables exec_sql" and "consistent_tables (mg_schema (w_db w))"
  shows "x = Inl 1 \<or>
    (\<exists>cfg. Load env = Inr cfg \<and> x = Inr (api_server pg srv cfg) \<and>
      as_ManagementAPIKey (api_server pg srv cfg) \<noteq> '''' \<and> as_Workers (api_server pg srv cfg) \<noteq> [] \<and>
      0 < rcs_queueSize (h_recompute (as_Handler (api_server pg srv cfg))) \<and>
      (cfg_AutoMigrate cfg \<longrightarrow> set files \<subseteq> set (versions (w_db w'))) \<and>
      (cfg_AutoSeed cfg \<longrightarrow> (\<exists>d. mg_schema (w_db w') = Some d \<and> db_events d \<noteq> [])))"
proof (cases "x = Inl 1")
  case False
  with assms(1) obtain cfg w1 where load: "Load env = Inr cfg" and x: "x = Inr (api_server pg srv cfg)"
      and up: "auto_migrate cfg fs exec_sql ctx w = (w1, Inr ())" and seed: "auto_seed cfg pg ctx w1 = (w', Inr ())"
    by (auto simp: api_main_def split: sum.splits option.splits prod.splits)
  note m = auto_migrate_Inr [OF up assms(2-5)]
  have valid: "1 \<le> cfg_RecomputeWorkers cfg" "1 \<le> cfg_RecomputeQueueSize cfg" "cfg_ManagementAPIKey cfg \<noteq> ''''"
    using load getString_nonempty by (auto simp: Load_Inr_iff env_config_def)
  have "(cfg_AutoMigrate cfg \<longrightarrow> set files \<subseteq> set (versions (w_db w'))) \<and>
      (cfg_AutoSeed cfg \<longrightarrow> (\<exists>d. mg_schema (w_db w') = Some d \<and> db_events d \<noteq> []))"
  proof (cases "cfg_AutoSeed cfg")
    case False
    with m seed show ?thesis by (simp add: auto_seed_def)
  next
    case True
    then have "run_seed pg ctx False w1 = (w', Inr ())" using seed by (simp add: auto_seed_def)
    from run_seed_Inr [OF this] m(1) obtain d where
        "mg_schema (w_db w') = Some d" "db_events d \<noteq> []" "mg_migrations (w_db w') = mg_migrations (w_db w1)"
      unfolding consistent_tables_def by (metis option.simps(5))
    with m(2) show ?thesis by (simp add: versions_def)
  qed
  with load x valid show ?thesis
    by (auto simp: api_server_def effectiveWorkers_def wiring_simps)
qed simp

definition sample_environment :: environment where
  "sample_environment =
     (\<lambda>key. if key = ''DATABASE_URL'' then ''postgres://db'' else if key = ''REDIS_URL'' then ''redis://cache''
        else if key = ''APP_AUTO_SEED'' then ''true'' else '''')"

definition sample_drivers :: drivers where
  "sample_drivers = \<lparr>drv_pgx = (\<lambda>url. None), drv_redis = (\<lambda>url. None)\<rparr>"

text \<open>An engine whose first text creates the tables.\<close>

definition sample_schema :: "pgdb option sql_engine" where
  "sample_schema = (\<lambda>sql t s. Inr (Some (case s of None \<Rightarrow> fresh_db | Some d \<Rightarrow> d)))"

definition bare_world :: "keyspace command_world" where
  "bare_world = \<lparr>w_now = midnight 12, w_script = [], w_db = \<lparr>mg_migrations = None, mg_schema = None\<rparr>, w_rd = Map.empty\<rparr>"

lemma sample_Load: "Load sample_environment = Inr (env_config sample_environment)"
  by code_simp

lemma sample_settings: "cfg_AutoMigrate (env_config sample_environment)" "cfg_AutoSeed (env_config sample_environment)"
  by code_simp+

lemma sample_schema_files: "listMigrationFiles (NewMigrator migrations_dir sample_files) = Inr [''0001_init.sql'', ''0002_data.sql'']"
  by code_simp

lemma sample_schema_reads:
  "fs_ReadFile (m_fs (NewMigrator dir sample_files)) path = Inr (''-- '' @ path)"
  by (simp add: NewMigrator_def sample_files_def)

theorem api_serves_migrated_witness:
  "\<exists>w'. api_main sample_drivers sample_environment sample_files sample_schema sample_pg keyspace_server None bare_world =
       (w', Inr (api_server sample_pg keyspace_server (env_config sample_environment))) \<and>
     {''0001_init.sql'', ''0002_data.sql''} \<subseteq> set (versions (w_db w')) \<and>
     (\<exists>d. mg_schema (w_db w') = Some d \<and> db_events d \<noteq> [])"
proof -
  let ?cfg = "env_config sample_environment"
  let ?vs = "[\<lparr>sm_version = ''0001_init.sql'', sm_applied_at = midnight 12\<rparr>,
    \<lparr>sm_version = ''0002_data.sql'', sm_applied_at = midnight 12\<rparr>]"
  have consistent: "db_consistent fresh_db" using fresh_db_ready by (simp add: seed_ready_def)
  have quiet: "undisturbed None \<lparr>w_now = t, w_script = [], w_db = d, w_rd = rd\<rparr>" for t d and rd :: keyspace
    by (simp add: undisturbed_def)
  have up: "auto_migrate ?cfg sample_files sample_schema None bare_world =
      (bare_world\<lparr>w_db := \<lparr>mg_migrations = Some ?vs, mg_schema = Some fresh_db\<rparr>\<rparr>, Inr ())"
    by (simp add: auto_migrate_def sample_settings Migrator_Up_def sample_schema_files ensureMigrationsTable_def
        db_call_undisturbed remote_undisturbed quiet wrap_error_def isApplied_def version_applied_def apply_file_def
        sample_schema_reads tx_step_def run_sql_def record_version_def sample_schema_def bare_world_def)
  obtain v where seed: "Seeder_Seed sample_pg None False (sample_world\<lparr>w_db := fresh_db\<rparr>) = (v, Inr ())"
    using fresh_seeded by blast
  have "tables_world fresh_db (bare_world\<lparr>w_db := \<lparr>mg_migrations = Some ?vs, mg_schema = Some fresh_db\<rparr>\<rparr>) =
      sample_world\<lparr>w_db := fresh_db\<rparr>"
    by (simp add: tables_world_def bare_world_def sample_world_def)
  with seed have "\<exists>w'. auto_seed ?cfg sample_pg None
      (bare_world\<lparr>w_db := \<lparr>mg_migrations = Some ?vs, mg_schema = Some fresh_db\<rparr>\<rparr>) = (w', Inr ())"
    by (simp add: auto_seed_def sample_settings run_seed_def on_tables_def)
  then obtain w' where "auto_seed ?cfg sample_pg None
      (bare_world\<lparr>w_db := \<lparr>mg_migrations = Some ?vs, mg_schema = Some fresh_db\<rparr>\<rparr>) = (w', Inr ())" by blast
  with up have main: "api_main sample_drivers sample_environment sample_files sample_schema sample_pg keyspace_server None
      bare_world = (w', Inr (api_server sample_pg keyspace_server ?cfg))"
    by (simp add: api_main_def sample_Load sample_drivers_def)
  have "keeps_tables sample_schema"
    using consistent by (auto simp: keeps_tables_def sample_schema_def consistent_tables_def split: option.splits)
  with api_serves_migrated [OF main sample_schema_files] have
      "\<exists>cfg. Load sample_environment = Inr cfg \<and>
        (cfg_AutoMigrate cfg \<longrightarrow> set [''0001_init.sql'', ''0002_data.sql''] \<subseteq> set (versions (w_db w'))) \<and>
        (cfg_AutoSeed cfg \<longrightarrow> (\<exists>d. mg_schema (w_db w') = Some d \<and> db_events d \<noteq> []))"
    by (simp add: consistent_tables_def bare_world_def) blast
  with main show ?thesis by (auto simp: sample_settings sample_Load)
qed

end
