(* ===== verification/Spec2Isabelle.thy ===== *)
theory Spec2Isabelle
  imports Recompute_Properties Report_Properties Service_Properties Http_Properties Http_Report_Properties
    Migrator_Properties Seeder_Properties Pipeline_Properties Cache_Properties Lock_Properties Table_Types
    Command_Properties
begin

text \<open>
  \<^bold>\<open>The program.\<close> \<open>pg-analytics-service\<close> answers reports over aggregated counts
  (\<open>metric_snapshots\<close>) of raw events (\<open>analytics_events\<close>) in PostgreSQL. A request to
  \<open>POST /api/v1/recomputations\<close> triggers a rebuild of the counts of one report, window and range
  of days: the recompute service takes the scope's lock in Redis, creates a run, and puts a job
  into a bounded channel; workers take jobs, rebuild the counts in one transaction, mark the run,
  advance the report's cache generation and give the lock back. Report results are cached in
  Redis under keys that contain the generation. Further commands migrate the schema and seed it
  with demo data.

  \<^bold>\<open>Theories and code.\<close> Definitions keep the names of the code; \<open>Store_\<close>, \<open>RedisStore_\<close> and the
  services' names mark methods. Paths are under \<open>src/internal\<close> where nothing else is said.

  \<^item> \<open>Prelude\<close>: collections of hints, the type of a fallible call, lists cut at separators.
  \<^item> \<open>Go_Text\<close>, \<open>Go_Calendar\<close>, \<open>Go_Time\<close>, \<open>Json\<close>: what the code uses of \<open>strings\<close>, \<open>strconv\<close>, \<open>time\<close>,
    \<open>context\<close> and \<open>encoding/json\<close>. An instant is a number of nanoseconds, a context is its
    deadline, a document is a tree.
  \<^item> \<open>Domain\<close>: \<open>domain/errors.go\<close> and \<open>domain/models.go\<close>. An error is a value of \<open>go_error\<close>, and a
    method with result \<open>(T, error)\<close> returns \<open>go_error + T\<close> next to the new state.
  \<^item> \<open>Ports\<close>: \<open>application/ports.go\<close>; an interface is a record of its methods. \<open>Contracts\<close>: what the
    services rely on, as the locales \<open>lease_lock\<close>, \<open>versioned_cache\<close>, \<open>run_registry\<close> and
    \<open>job_service\<close>, with the clients' lemmas.
  \<^item> \<open>Report_Service\<close>, \<open>Recompute_Service\<close>, \<open>Audit_Health\<close>: the four services of \<open>application\<close>. The
    channel is a list with a capacity.
  \<^item> \<open>Backend\<close>: the clock, the network and the two servers as one record \<open>world\<close>. \<open>Redis_Store\<close>:
    \<open>infrastructure/redis/store.go\<close> over a server with the documented behaviour of its commands
    (locale \<open>redis_protocol\<close>).
  \<^item> \<open>Sql_Ops\<close>, \<open>Pg_Schema\<close>: the clauses of SQL in use; the tables of \<open>migrations/0001_init.sql\<close> as lists
    of rows in the record \<open>pgdb\<close>, with their constraints. \<open>Pg_Catalog\<close>, \<open>Pg_Reports\<close>,
    \<open>Pg_Recompute\<close>, \<open>Pg_Runs\<close>: the methods of \<open>infrastructure/postgres/store.go\<close>, each statement as
    a function on \<open>pgdb\<close>.
  \<^item> \<open>Migrator\<close>, \<open>Seeder\<close>, \<open>Config\<close>: \<open>infrastructure/postgres/migrator.go\<close>,
    \<open>infrastructure/postgres/seed.go\<close>, \<open>infrastructure/config/config.go\<close>.
  \<^item> \<open>Http_Response\<close>, \<open>Http_Api\<close>: \<open>http/response.go\<close>, \<open>http/middleware.go\<close>, \<open>http/handlers.go\<close>.
  \<^item> \<open>Wiring\<close>, \<open>Api\<close>, \<open>Commands\<close>: how \<open>src/cmd/api/main.go\<close> puts the parts together, and the three
    \<open>main\<close> functions up to their exit codes.
  \<^item> \<open>Pipeline\<close>: the goroutines of the recompute service call by call. A worker and a trigger are
    program counters (\<open>worker\<close>, \<open>stage\<close>); \<open>service_step\<close> interleaves them, \<open>system_step\<close> adds arriving
    requests, the end of the process's context and whatever else happens to the world.
  \<^item> \<open>Abstract_Service\<close>, \<open>Snapshot_Facts\<close>, \<open>Report_Facts\<close>, \<open>Service_Facts\<close>, \<open>Quiet_Network\<close>,
    \<open>Pipeline_Facts\<close>, \<open>Lock_Exclusion\<close>: the lemmas the properties rest on.
    \<open>Sample_Data\<close>, \<open>Sample_Service\<close>, \<open>Sample_Http\<close>: small inputs for the worked instances.

  \<^bold>\<open>What is proved.\<close>

  \<^item> \<open>Recompute_Properties\<close>, \<open>Report_Properties\<close>: the rebuild against a count over the raw events: days are
    exact, a bucket beyond the range is emptied, weeks at the ends are counted in part; the
    transaction is atomic on every network, never meets a constraint, touches nothing else and
    is idempotent; the volume report over rebuilt days lists the true counts.
  \<^item> \<open>Service_Properties\<close>: on an undisturbed network a trigger and a worker's turn are the steps of the
    abstract machine of \<open>Abstract_Service\<close>; on every network what a trigger adds, when it is
    refused, and that the lock excludes while its lease lasts.
  \<^item> \<open>Pipeline_Properties\<close>, \<open>Lock_Properties\<close>, \<open>Table_Types\<close>: under every interleaving and every failure, the
    interleaved steps compose to the code's functions, the service comes to rest, each run has
    one owner and its state only goes forward, each scope has one holder of its lock as long
    as no lease runs out (and two jobs once one did), a trigger whose request ends too soon
    leaves the lock behind, the tables stay well-formed and readable;
    on an undisturbed network the channel drains.
  \<^item> \<open>Cache_Properties\<close>: a stored result is served again until it expires as long as Redis stays as it was,
    a completed recompute on an undisturbed network takes the results of the generation before
    it out of service, and a late store revives one.
  \<^item> \<open>Http_Properties\<close>, \<open>Http_Report_Properties\<close>: management routes need the key and only one route
    writes; the status of a trigger and of a report's run is determined by its cause, failures
    of the stores included; an accepted run is readable; dates are echoed; the pages of the two listings.
  \<^item> \<open>Migrator_Properties\<close>, \<open>Seeder_Properties\<close>, \<open>Command_Properties\<close>: the migrator refines the application of
    the pending files in order; a seed that inserts leaves exact counts; what is true when the API serves.

  \<^bold>\<open>Networks.\<close> A call takes the next entry of \<open>w_script\<close>: how long it takes and whether it is served, lost,
  or served with its reply lost; a call whose context is done fails. Properties \<open>on every
  network\<close> hold for all scripts; \<open>undisturbed\<close> means the empty script and a live context.

  \<^bold>\<open>Parameters.\<close> Code that is not in the repository is an argument: the Redis server
  (\<open>redis_server\<close> with \<open>redis_protocol\<close>), PostgreSQL's UUID generator, UUID syntax and collation
  (\<open>pg_server\<close> with \<open>postgres_server\<close>), SHA-256, the choice of a route by go-chi, the file system,
  what the text of a migration does, and what the drivers say of a connection string. The
  worked instances use \<open>keyspace_server\<close>, a map with expiry times, and \<open>sample_pg\<close>.

  \<^bold>\<open>Bounds.\<close> \<open>duration_terms\<close> has fuel, the length of the text: each term takes a character
  (\<open>duration_terms_fuel\<close>). \<open>like\<close>, \<open>strip_lead\<close>, \<open>map_case\<close>, \<open>worker_run\<close> and \<open>trigger_run\<close> terminate
  by measures. \<open>int64\<close> values, durations and the \<open>bigint\<close> sums are integers with their bounds
  checked or saturated where the code does so.

  \<^bold>\<open>Not modelled.\<close> Log output; \<open>net/http\<close>'s server (accepting connections, signals, \<open>Shutdown\<close>) and the
  reading and writing of bytes; the opening and closing of clients and pools; indexes and
  columns that nothing reads. A rebuild is one step of its worker in \<open>Pipeline\<close>: PostgreSQL's
  locks between concurrent transactions are left out, and so is the interleaving inside an HTTP
  request other than a trigger. The clock is one clock for the process and both servers, and
  the session's time zone is UTC. The error texts of the servers stand for whatever text
  comes. Metadata beyond what the application reads (\<open>AggregateWindow\<close>, which no code uses) is
  left out.
\<close>

end
